(* ===== verification/Pty_Prelude.thy ===== *)
theory Pty_Prelude
  imports Main "HOL-Library.Word" "HOL-Library.Finite_Map" "HOL-Library.Sublist"
    "HOL-Library.List_Lexorder" "HOL-Library.Char_ord"
begin

text \<open>
  What every component of the development shares: the machine integers of the Rust code, its
  \<open>Result\<close> type, its I/O and N-API errors, the visit order of its hash tables, and the
  collections of simp rules the component theories fill.

  Rust's \<open>String\<close> is its sequence of UTF-8 bytes, one \<^typ>\<open>char\<close> each; a
  \<open>Vec<u8>\<close>, \<open>Bytes\<close> or \<open>Buffer\<close> is a list of \<open>8 word\<close>.
\<close>

section \<open>Collections of rules\<close>

named_theorems num_simps \<open>decimal printing and parsing\<close>
named_theorems mux_defs \<open>operations of the session multiplexer\<close>
named_theorems proc_defs \<open>operations of a PTY process\<close>
named_theorems handler_defs \<open>command handlers\<close>
named_theorems handle_defs \<open>methods of the JavaScript-facing handle\<close>
named_theorems vdom_defs \<open>virtual DOM operations\<close>
named_theorems ascii_defs \<open>handlers of the ASCII parser\<close>

section \<open>Machine integers and strings\<close>

type_synonym u8 = "8 word"
type_synonym u16 = "16 word"
type_synonym u32 = "32 word"
type_synonym i32 = "32 word"
type_synonym bytes = "u8 list"

definition byte_char :: "u8 \<Rightarrow> char" where
  "byte_char b = char_of (unat b)"

definition char_byte :: "char \<Rightarrow> u8" where
  "char_byte c = of_nat (of_char c)"

text \<open>\<open>String::as_bytes\<close>, \<open>into_bytes\<close>: the bytes of a string.\<close>

definition as_bytes :: "string \<Rightarrow> bytes" where
  "as_bytes s = map char_byte s"

text \<open>The string whose UTF-8 bytes are given (used on bytes known to be valid UTF-8).\<close>

definition bytes_string :: "bytes \<Rightarrow> string" where
  "bytes_string bs = map byte_char bs"

lemma byte_char_byte [simp]: "char_byte (byte_char b) = b"
proof -
  have "unat b < 256" using unsigned_less [of b] by simp
  then have "(unat b) mod 256 = unat b" by simp
  then show ?thesis by (simp add: char_byte_def byte_char_def)
qed

lemma char_byte_char [simp]: "byte_char (char_byte c) = c"
proof -
  have "of_char c < (256::nat)" by simp
  then have "unat (of_nat (of_char c) :: u8) = of_char c"
    by (simp add: unat_of_nat)
  then show ?thesis by (simp add: char_byte_def byte_char_def)
qed

lemma as_bytes_string [simp]: "as_bytes (bytes_string bs) = bs"
  by (simp add: as_bytes_def bytes_string_def comp_def)

lemma bytes_string_as_bytes [simp]: "bytes_string (as_bytes s) = s"
  by (simp add: as_bytes_def bytes_string_def comp_def)

lemma as_bytes_append [simp]: "as_bytes (s @ t) = as_bytes s @ as_bytes t"
  by (simp add: as_bytes_def)

lemma bytes_string_append [simp]: "bytes_string (s @ t) = bytes_string s @ bytes_string t"
  by (simp add: bytes_string_def)

lemma length_as_bytes [simp]: "length (as_bytes s) = length s"
  by (simp add: as_bytes_def)

section \<open>Results\<close>

text \<open>Rust's \<open>Result<T, E>\<close>, with the methods the code calls on it.\<close>

datatype ('a, 'e) result = Ok 'a | Err 'e

fun map_err :: "('e \<Rightarrow> 'f) \<Rightarrow> ('a, 'e) result \<Rightarrow> ('a, 'f) result" where
  "map_err f (Ok x) = Ok x"
| "map_err f (Err e) = Err (f e)"

fun map_ok :: "('a \<Rightarrow> 'b) \<Rightarrow> ('a, 'e) result \<Rightarrow> ('b, 'e) result" where
  "map_ok f (Ok x) = Ok (f x)"
| "map_ok f (Err e) = Err e"

fun is_ok :: "('a, 'e) result \<Rightarrow> bool" where
  "is_ok (Ok x) = True"
| "is_ok (Err e) = False"

lemma map_err_Ok_iff [simp]: "map_err f r = Ok x \<longleftrightarrow> r = Ok x"
  by (cases r) auto

lemma map_ok_Ok_iff: "map_ok f r = Ok y \<longleftrightarrow> (\<exists>x. r = Ok x \<and> f x = y)"
  by (cases r) auto

lemma is_ok_iff: "is_ok r \<longleftrightarrow> (\<exists>x. r = Ok x)"
  by (cases r) auto

lemma is_ok_map_err [simp]: "is_ok (map_err f r) = is_ok r"
  by (cases r) auto

section \<open>How a call ends\<close>

text \<open>
  A call of the source returns, panics, never returns because it waits for a lock that is never
  released, or is the copy of a call that \<open>fork\<close> leaves running in the child process.
\<close>

datatype 'a flow = Returns 'a | Panics | Hangs | InChild

section \<open>Errors\<close>

text \<open>
  The \<open>io::ErrorKind\<close>s the code and the functions of \<open>std::io\<close> it calls name; \<open>OtherOs\<close> stands for every other kind the
  standard library decodes from an errno. An \<open>io::Error\<close> is an errno of the operating
  system or a kind with a message (\<open>io::Error::new\<close>).
\<close>

datatype io_kind = WouldBlock | BrokenPipe | NotConnected | WriteZero | OtherKind | OtherOs

datatype io_error = Os io_kind i32 | Custom io_kind string

fun kind :: "io_error \<Rightarrow> io_kind" where
  "kind (Os k c) = k"
| "kind (Custom k msg) = k"

text \<open>The N-API error: a status and a reason; \<open>from_reason\<close> uses \<open>GenericFailure\<close>.\<close>

datatype napi_status = GenericFailure | InvalidArg | UnknownStatus

record napi_error =
  err_status :: napi_status
  err_reason :: string

definition napi_err :: "napi_status \<Rightarrow> string \<Rightarrow> napi_error" where
  "napi_err st r = \<lparr>err_status = st, err_reason = r\<rparr>"

definition from_reason :: "string \<Rightarrow> napi_error" where
  "from_reason r = napi_err GenericFailure r"

section \<open>Logging levels\<close>

text \<open>\<open>log::LevelFilter\<close>, ordered as in the crate: a larger level logs more.\<close>

datatype log_level = LError | LWarn | LInfo | LDebug | LTrace

primrec level_rank :: "log_level \<Rightarrow> nat" where
  "level_rank LError = 1"
| "level_rank LWarn = 2"
| "level_rank LInfo = 3"
| "level_rank LDebug = 4"
| "level_rank LTrace = 5"

lemma level_rank_inj: "level_rank a = level_rank b \<Longrightarrow> a = b"
  by (cases a; cases b) auto

instantiation log_level :: linorder
begin

definition less_eq_log_level :: "log_level \<Rightarrow> log_level \<Rightarrow> bool" where
  "less_eq_log_level a b \<longleftrightarrow> level_rank a \<le> level_rank b"

definition less_log_level :: "log_level \<Rightarrow> log_level \<Rightarrow> bool" where
  "less_log_level a b \<longleftrightarrow> level_rank a < level_rank b"

instance
  by standard (auto simp: less_eq_log_level_def less_log_level_def dest: level_rank_inj)

end

section \<open>Hash tables\<close>

text \<open>
  A \<open>HashMap\<close> or \<open>DashMap\<close> is a finite map. Its iteration visits every key once, in an
  order the standard library leaves open: here the order of the keys' hash values under an
  arbitrary hash function \<open>h\<close>, which every definition that iterates takes as an argument.
\<close>

definition keys_in :: "('k::linorder \<Rightarrow> nat) \<Rightarrow> ('k, 'v) fmap \<Rightarrow> 'k list" where
  "keys_in h m = sort_key h (sorted_list_of_fset (fmdom m))"

definition entries_in :: "('k::linorder \<Rightarrow> nat) \<Rightarrow> ('k, 'v) fmap \<Rightarrow> ('k \<times> 'v) list" where
  "entries_in h m = map (\<lambda>k. (k, the (fmlookup m k))) (keys_in h m)"

lemma set_keys_in [simp]: "set (keys_in h m) = fset (fmdom m)"
  by (simp add: keys_in_def)

lemma distinct_keys_in [simp]: "distinct (keys_in h m)"
  by (simp add: keys_in_def sorted_list_of_fset.rep_eq)

lemma keys_in_Nil_iff [simp]: "keys_in h m = [] \<longleftrightarrow> m = fmempty"
proof
  assume "keys_in h m = []"
  then have "fset (fmdom m) = {}" by (metis set_keys_in set_empty)
  then show "m = fmempty"
    by (metis bot_fset.rep_eq fmrestrict_fset_dom fmrestrict_fset_null fset_inject)
next
  assume "m = fmempty"
  then show "keys_in h m = []"
    by (metis fmdom_empty bot_fset.rep_eq set_empty set_keys_in)
qed

lemma in_keys_in_iff: "k \<in> set (keys_in h m) \<longleftrightarrow> fmlookup m k \<noteq> None"
  by (auto simp: fmlookup_dom_iff)

lemma set_entries_in: "set (entries_in h m) = {(k, v). fmlookup m k = Some v}"
  by (force simp: entries_in_def fmlookup_dom_iff)

lemma map_fst_entries_in [simp]: "map fst (entries_in h m) = keys_in h m"
  by (simp add: entries_in_def comp_def)

text \<open>A sorted enumeration of a set given by insertion, for the evaluation of closed terms.\<close>

lemma keys_in_code:
  "keys_in h m = sort_key h (sorted_list_of_set (fset (fmdom m)))"
  by (simp add: keys_in_def sorted_list_of_fset.rep_eq)

section \<open>Lists\<close>

text \<open>\<open>format!\<close> joins and the \<open>join\<close> method of the standard library.\<close>

fun join :: "'a list \<Rightarrow> 'a list list \<Rightarrow> 'a list" where
  "join sep [] = []"
| "join sep [x] = x"
| "join sep (x # y # ys) = x @ sep @ join sep (y # ys)"

lemma fold_max_ge:
  fixes x :: "'a::linorder"
  shows "x \<le> fold max xs x"
  by (induction xs arbitrary: x) (auto intro: order_trans [OF max.cobounded2])

lemma fold_max_in:
  fixes x :: "'a::linorder"
  shows "fold max xs x \<in> insert x (set xs)"
  by (induction xs arbitrary: x) (fastforce simp: max_def)+

lemma fold_max_upper:
  fixes x :: "'a::linorder"
  assumes "y \<in> insert x (set xs)"
  shows "y \<le> fold max xs x"
proof -
  have "fold max xs x = Max (insert x (set xs))"
    by (simp add: Max.set_eq_fold [symmetric])
  with assms show ?thesis by simp
qed

end
