(* ===== verification/Decimal.thy ===== *)
theory Decimal
  imports Pty_Prelude
begin

text \<open>
  The standard library's decimal printing (\<open>to_string\<close> and \<open>format!\<close> of integers) and
  parsing (\<open>str::parse\<close> for \<open>u32\<close> and \<open>i32\<close>), which the command handler and the
  handle use to pass process and session ids as text, and their round trips.
\<close>

section \<open>Printing\<close>

definition digit_char :: "nat \<Rightarrow> char" where
  "digit_char d = char_of (48 + d)"

fun show_nat :: "nat \<Rightarrow> string" where
  "show_nat n = (if n < 10 then [digit_char n] else show_nat (n div 10) @ [digit_char (n mod 10)])"

declare show_nat.simps [simp del]

definition show_u32 :: "u32 \<Rightarrow> string" where
  "show_u32 w = show_nat (unat w)"

definition show_u16 :: "u16 \<Rightarrow> string" where
  "show_u16 w = show_nat (unat w)"

definition show_i32 :: "i32 \<Rightarrow> string" where
  "show_i32 w = (if sint w < 0 then CHR ''-'' # show_nat (nat (- sint w)) else show_nat (nat (sint w)))"

text \<open>\<open>{:?}\<close> of a \<open>Vec<u32>\<close>.\<close>

definition show_u32_list :: "u32 list \<Rightarrow> string" where
  "show_u32_list ws = ''['' @ join '', '' (map show_u32 ws) @ '']''"

section \<open>Parsing\<close>

datatype int_error = EmptyText | InvalidDigit | PosOverflow | NegOverflow

definition digit_val :: "char \<Rightarrow> nat option" where
  "digit_val c = (let d = of_char c :: nat in if 48 \<le> d \<and> d \<le> 57 then Some (d - 48) else None)"

text \<open>
  The loop of \<open>from_str_radix\<close> in radix 10: each digit is checked before the product and the
  sum are, and both of these against the largest (or smallest) value of the type.
\<close>

fun parse_up :: "nat \<Rightarrow> nat \<Rightarrow> string \<Rightarrow> (nat, int_error) result" where
  "parse_up mx acc [] = Ok acc"
| "parse_up mx acc (c # cs) =
     (case digit_val c of
        None \<Rightarrow> Err InvalidDigit
      | Some d \<Rightarrow>
          if acc * 10 > mx then Err PosOverflow
          else if acc * 10 + d > mx then Err PosOverflow
          else parse_up mx (acc * 10 + d) cs)"

fun parse_down :: "int \<Rightarrow> int \<Rightarrow> string \<Rightarrow> (int, int_error) result" where
  "parse_down mn acc [] = Ok acc"
| "parse_down mn acc (c # cs) =
     (case digit_val c of
        None \<Rightarrow> Err InvalidDigit
      | Some d \<Rightarrow>
          if acc * 10 < mn then Err NegOverflow
          else if acc * 10 - int d < mn then Err NegOverflow
          else parse_down mn (acc * 10 - int d) cs)"

definition parse_u32 :: "string \<Rightarrow> (u32, int_error) result" where
  "parse_u32 s =
     (case s of
        [] \<Rightarrow> Err EmptyText
      | c # cs \<Rightarrow>
          if cs = [] \<and> (c = CHR ''+'' \<or> c = CHR ''-'') then Err InvalidDigit
          else map_ok of_nat (parse_up (2 ^ 32 - 1) 0 (if c = CHR ''+'' then cs else s)))"

definition parse_i32 :: "string \<Rightarrow> (i32, int_error) result" where
  "parse_i32 s =
     (case s of
        [] \<Rightarrow> Err EmptyText
      | c # cs \<Rightarrow>
          if cs = [] \<and> (c = CHR ''+'' \<or> c = CHR ''-'') then Err InvalidDigit
          else if c = CHR ''-'' then map_ok of_int (parse_down (- (2 ^ 31)) 0 cs)
          else map_ok of_nat (parse_up (2 ^ 31 - 1) 0 (if c = CHR ''+'' then cs else s)))"

section \<open>Round trips\<close>

lemma digit_val_digit_char [simp]: "d < 10 \<Longrightarrow> digit_val (digit_char d) = Some d"
  by (simp add: digit_val_def digit_char_def Let_def)

lemma show_nat_nonempty [simp]: "show_nat n \<noteq> []"
  by (subst show_nat.simps) simp

definition all_digits :: "string \<Rightarrow> bool" where
  "all_digits s = list_all (\<lambda>c. digit_val c \<noteq> None) s"

lemma all_digits_show_nat: "all_digits (show_nat n)"
proof (induction n rule: show_nat.induct)
  case (1 n)
  show ?case
  proof (cases "n < 10")
    case True
    then show ?thesis by (subst show_nat.simps) (simp add: all_digits_def)
  next
    case False
    with 1 show ?thesis by (subst show_nat.simps) (simp add: all_digits_def)
  qed
qed

lemma hd_show_nat: "digit_val (hd (show_nat n)) \<noteq> None"
  using all_digits_show_nat [of n] show_nat_nonempty [of n]
  by (cases "show_nat n") (auto simp: all_digits_def)

lemma digit_val_signs [simp]:
  "digit_val (CHR ''+'') = None" "digit_val (CHR ''-'') = None"
  by (simp_all add: digit_val_def)

lemma parse_up_append:
  "parse_up mx acc (s @ t) =
     (case parse_up mx acc s of Ok a \<Rightarrow> parse_up mx a t | Err e \<Rightarrow> Err e)"
  by (induction s arbitrary: acc) (auto split: option.splits)

lemma parse_down_append:
  "parse_down mn acc (s @ t) =
     (case parse_down mn acc s of Ok a \<Rightarrow> parse_down mn a t | Err e \<Rightarrow> Err e)"
  by (induction s arbitrary: acc) (auto split: option.splits)

lemma parse_up_show_nat: "n \<le> mx \<Longrightarrow> parse_up mx 0 (show_nat n) = Ok n"
proof (induction n rule: show_nat.induct)
  case (1 n)
  show ?case
  proof (cases "n < 10")
    case True
    with "1.prems" show ?thesis by (subst show_nat.simps) simp
  next
    case False
    then have "parse_up mx 0 (show_nat (n div 10)) = Ok (n div 10)"
      using 1 by simp
    moreover have "n div 10 * 10 \<le> n" by simp
    ultimately show ?thesis
      using False "1.prems" by (subst show_nat.simps) (simp add: parse_up_append)
  qed
qed

lemma parse_down_show_nat: "- int n \<ge> mn \<Longrightarrow> parse_down mn 0 (show_nat n) = Ok (- int n)"
proof (induction n rule: show_nat.induct)
  case (1 n)
  show ?case
  proof (cases "n < 10")
    case True
    with "1.prems" show ?thesis by (subst show_nat.simps) simp
  next
    case False
    have le: "mn \<le> - int (n div 10)" using "1.prems" by linarith
    with False have IH: "parse_down mn 0 (show_nat (n div 10)) = Ok (- int (n div 10))"
      using "1.IH" by simp
    have "int (n div 10) * 10 + int (n mod 10) = int n"
      by (metis div_mult_mod_eq of_nat_add of_nat_mult of_nat_numeral)
    then have step: "- int (n div 10) * 10 - int (n mod 10) = - int n" by linarith
    have "\<not> - int (n div 10) * 10 < mn" using "1.prems" by linarith
    with IH step False "1.prems" show ?thesis
      by (subst show_nat.simps) (simp add: parse_down_append)
  qed
qed

lemma show_nat_not_sign:
  "show_nat n = c # cs \<Longrightarrow> c \<noteq> CHR ''+'' \<and> c \<noteq> CHR ''-''"
  using hd_show_nat [of n] by auto

lemma parse_u32_show_u32 [num_simps]: "parse_u32 (show_u32 w) = Ok w"
proof -
  obtain c cs where c: "show_nat (unat w) = c # cs" by (cases "show_nat (unat w)") auto
  have "unat w < 2 ^ LENGTH(32)" by (rule unsigned_less)
  then have "unat w \<le> 2 ^ 32 - 1" by simp
  then have "parse_up (2 ^ 32 - 1) 0 (show_nat (unat w)) = Ok (unat w)"
    by (rule parse_up_show_nat)
  with c show_nat_not_sign [OF c] show ?thesis
    by (simp add: parse_u32_def show_u32_def)
qed

lemma parse_i32_show_i32 [num_simps]: "parse_i32 (show_i32 w) = Ok w"
proof (cases "sint w < 0")
  case True
  have "- (2 ^ 31) \<le> sint w" using sint_ge [of w] by simp
  with True have "parse_down (- (2 ^ 31)) 0 (show_nat (nat (- sint w))) = Ok (sint w)"
    using parse_down_show_nat [of "- (2 ^ 31)" "nat (- sint w)"] by simp
  with True show ?thesis by (simp add: parse_i32_def show_i32_def)
next
  case False
  obtain c cs where c: "show_nat (nat (sint w)) = c # cs"
    by (cases "show_nat (nat (sint w))") auto
  have "sint w < 2 ^ 31" using sint_lt [of w] by simp
  then have "nat (sint w) \<le> 2 ^ 31 - 1" using False by simp
  then have "parse_up (2 ^ 31 - 1) 0 (show_nat (nat (sint w))) = Ok (nat (sint w))"
    by (rule parse_up_show_nat)
  moreover have "(of_nat (nat (sint w)) :: i32) = w" using False by simp
  ultimately show ?thesis
    using False c show_nat_not_sign [OF c] by (simp add: parse_i32_def show_i32_def)
qed

text \<open>A text that holds a character that is no digit past its first one does not parse.\<close>

lemma parse_up_bad_digit:
  "c \<in> set s \<Longrightarrow> digit_val c = None \<Longrightarrow> \<not> is_ok (parse_up mx acc s)"
  by (induction s arbitrary: acc) (auto split: option.splits)

lemma parse_u32_bad_digit:
  "c \<in> set (tl s) \<Longrightarrow> digit_val c = None \<Longrightarrow> \<not> is_ok (parse_u32 s)"
  using parse_up_bad_digit [of c "tl s"] parse_up_bad_digit [of c s]
  by (cases s) (auto simp: parse_u32_def is_ok_iff map_ok_Ok_iff)

end
