(* ===== verification/Pty_Process.thy ===== *)
theory Pty_Process
  imports Decimal
begin

text \<open>
  \<open>src/platform/macos.rs\<close>: a PTY process of the platform the crate builds on. The system
  calls are not the program's code: they are the fields of a record \<open>sys\<close> over a state
  \<open>'s\<close> of the operating system, which every operation takes as an argument. A call returns
  its C result and the errno a failed call leaves (\<open>io::Error::last_os_error\<close>), with the new
  state. \<open>k_strerror\<close> and \<open>k_nix_error\<close> are the texts of an errno in the C library and
  in the \<open>nix\<close> crate, and \<open>k_child_panic\<close> is the end of a forked child whose code
  panics. Log output and sleeps are left out.
\<close>

section \<open>System calls and the process record\<close>

record termios =
  c_iflag :: "64 word"
  c_oflag :: "64 word"
  c_cflag :: "64 word"
  c_lflag :: "64 word"
  c_ispeed :: "64 word"
  c_ospeed :: "64 word"
  c_vmin :: u8
  c_vtime :: u8

record 's sys =
  k_write :: "i32 \<Rightarrow> bytes \<Rightarrow> 's \<Rightarrow> (int \<times> i32) \<times> 's"
  k_read :: "i32 \<Rightarrow> nat \<Rightarrow> 's \<Rightarrow> (int \<times> bytes \<times> i32) \<times> 's"
  k_close :: "i32 \<Rightarrow> 's \<Rightarrow> (i32 \<times> i32) \<times> 's"
  k_kill :: "i32 \<Rightarrow> i32 \<Rightarrow> 's \<Rightarrow> (i32 \<times> i32) \<times> 's"
  k_waitpid :: "i32 \<Rightarrow> i32 \<Rightarrow> 's \<Rightarrow> (i32 \<times> i32) \<times> 's"
  k_set_winsize :: "i32 \<Rightarrow> u16 \<Rightarrow> u16 \<Rightarrow> 's \<Rightarrow> (i32 \<times> i32) \<times> 's"
  k_get_winsize :: "i32 \<Rightarrow> 's \<Rightarrow> (i32 \<times> u16 \<times> u16 \<times> i32) \<times> 's"
  k_tcgetattr :: "i32 \<Rightarrow> 's \<Rightarrow> termios option \<times> 's"
  k_openpty :: "termios \<Rightarrow> u16 \<Rightarrow> u16 \<Rightarrow> 's \<Rightarrow> (i32 \<times> i32 \<times> i32 \<times> i32) \<times> 's"
  k_getfl :: "i32 \<Rightarrow> 's \<Rightarrow> (i32 \<times> i32) \<times> 's"
  k_setfl :: "i32 \<Rightarrow> i32 \<Rightarrow> 's \<Rightarrow> (i32 \<times> i32) \<times> 's"
  k_select :: "i32 \<Rightarrow> nat \<Rightarrow> 's \<Rightarrow> (i32 \<times> bool \<times> i32) \<times> 's"
  k_fork :: "'s \<Rightarrow> (i32 \<times> i32) \<times> 's"
  k_setsid :: "'s \<Rightarrow> (i32 \<times> i32) \<times> 's"
  k_dup2 :: "i32 \<Rightarrow> i32 \<Rightarrow> 's \<Rightarrow> (i32 \<times> i32) \<times> 's"
  k_exec :: "string \<Rightarrow> string list \<Rightarrow> 's \<Rightarrow> bool \<times> 's"
  k_exit :: "i32 \<Rightarrow> 's \<Rightarrow> 's"
  k_setenv :: "string \<Rightarrow> string \<Rightarrow> 's \<Rightarrow> 's"
  k_strerror :: "i32 \<Rightarrow> string"
  k_nix_error :: "i32 \<Rightarrow> string"
  k_child_panic :: "'s \<Rightarrow> 's"

record pty_process =
  master_fd :: i32
  pid :: i32
  command :: string

text \<open>Constants of \<open>libc\<close> on macOS.\<close>

definition SIGKILL :: i32 where "SIGKILL = 9"
definition SIGTERM :: i32 where "SIGTERM = 15"
definition SIGWINCH :: i32 where "SIGWINCH = 28"
definition WNOHANG :: i32 where "WNOHANG = 1"
definition ESRCH :: i32 where "ESRCH = 3"
definition O_NONBLOCK :: i32 where "O_NONBLOCK = 4"

text \<open>\<open>io::Error::from_raw_os_error\<close> with the kinds the code tests for, and \<open>Display\<close>.\<close>

definition os_error :: "i32 \<Rightarrow> io_error" where
  "os_error errno =
     Os (if errno = 35 then WouldBlock
         else if errno = 32 then BrokenPipe
         else if errno = 57 then NotConnected
         else OtherOs) errno"

fun show_io :: "'s sys \<Rightarrow> io_error \<Rightarrow> string" where
  "show_io sys (Os k c) = k_strerror sys c @ '' (os error '' @ show_i32 c @ '')''"
| "show_io sys (Custom k msg) = msg"

section \<open>Reading and writing\<close>

definition write_data :: "'s sys \<Rightarrow> pty_process \<Rightarrow> bytes \<Rightarrow> 's \<Rightarrow> (nat, io_error) result \<times> 's" where
  "write_data sys p data s =
     (case k_write sys (master_fd p) data s of
        ((n, errno), s') \<Rightarrow> if n < 0 then (Err (os_error errno), s') else (Ok (nat n), s'))"

text \<open>
  The source fills a buffer of the given size and returns the count; the model returns the
  filled part \<open>buffer[..n]\<close>.
\<close>

definition read_data :: "'s sys \<Rightarrow> pty_process \<Rightarrow> nat \<Rightarrow> 's \<Rightarrow> (bytes, io_error) result \<times> 's" where
  "read_data sys p len s =
     (case k_read sys (master_fd p) len s of
        ((n, buffer, errno), s') \<Rightarrow>
          if n < 0 then (Err (os_error errno), s') else (Ok (take (nat n) buffer), s'))"

text \<open>
  The flags are read and set to non-blocking, the descriptor is polled with \<open>select\<close>, and the
  flags are put back before the read; each failing call returns at once. \<open>None\<close> is a timeout.
\<close>

definition read_data_non_blocking ::
  "'s sys \<Rightarrow> pty_process \<Rightarrow> nat \<Rightarrow> nat \<Rightarrow> 's \<Rightarrow> (bytes option, io_error) result \<times> 's" where
  "read_data_non_blocking sys p len timeout_us s =
     (case k_getfl sys (master_fd p) s of
        ((flags, errno), s1) \<Rightarrow>
          if flags = -1 then (Err (os_error errno), s1)
          else case k_setfl sys (master_fd p) (or flags O_NONBLOCK) s1 of
            ((ret, errno), s2) \<Rightarrow>
              if ret = -1 then (Err (os_error errno), s2)
              else case k_select sys (master_fd p) timeout_us s2 of
                ((ready, isset, errno), s3) \<Rightarrow>
                  if ready = -1 then (Err (os_error errno), s3)
                  else case k_setfl sys (master_fd p) flags s3 of
                    ((ret, errno), s4) \<Rightarrow>
                      if ret = -1 then (Err (os_error errno), s4)
                      else if 0 < sint ready \<and> isset then
                        (case read_data sys p len s4 of (r, s5) \<Rightarrow> (map_ok Some r, s5))
                      else (Ok None, s4))"

section \<open>Window size\<close>

definition get_window_size ::
  "'s sys \<Rightarrow> pty_process \<Rightarrow> 's \<Rightarrow> (u16 \<times> u16, io_error) result \<times> 's" where
  "get_window_size sys p s =
     (case k_get_winsize sys (master_fd p) s of
        ((ret, row, col, errno), s') \<Rightarrow>
          if ret \<noteq> 0 then (Err (os_error errno), s') else (Ok (row, col), s'))"

definition resize ::
  "'s sys \<Rightarrow> pty_process \<Rightarrow> u16 \<Rightarrow> u16 \<Rightarrow> 's \<Rightarrow> (unit, io_error) result \<times> 's" where
  "resize sys p cols rows s =
     (case k_set_winsize sys (master_fd p) rows cols s of
        ((ret, errno), s1) \<Rightarrow>
          if ret \<noteq> 0 then (Err (os_error errno), s1)
          else case k_kill sys (pid p) SIGWINCH s1 of
            ((ret, errno), s2) \<Rightarrow>
              if ret = -1 then (Err (Custom OtherKind (k_nix_error sys errno)), s2)
              else case k_get_winsize sys (master_fd p) s2 of
                ((ret, row, col, errno), s3) \<Rightarrow>
                  if ret \<noteq> 0 then (Err (os_error errno), s3)
                  else if row \<noteq> rows \<or> col \<noteq> cols then
                    (Err (Custom OtherKind ''Failed to verify window size after resize''), s3)
                  else (Ok (), s3))"

section \<open>Signals, waiting and closing\<close>

definition kill_process :: "'s sys \<Rightarrow> pty_process \<Rightarrow> i32 \<Rightarrow> 's \<Rightarrow> (unit, io_error) result \<times> 's" where
  "kill_process sys p sig s =
     (case k_kill sys (pid p) sig s of
        ((ret, errno), s') \<Rightarrow> if ret \<noteq> 0 then (Err (os_error errno), s') else (Ok (), s'))"

definition waitpid :: "'s sys \<Rightarrow> pty_process \<Rightarrow> i32 \<Rightarrow> 's \<Rightarrow> (i32, io_error) result \<times> 's" where
  "waitpid sys p options s =
     (case k_waitpid sys (pid p) options s of
        ((ret, errno), s') \<Rightarrow> if ret = -1 then (Err (os_error errno), s') else (Ok ret, s'))"

definition close_master_fd :: "'s sys \<Rightarrow> pty_process \<Rightarrow> 's \<Rightarrow> (unit, io_error) result \<times> 's" where
  "close_master_fd sys p s =
     (case k_close sys (master_fd p) s of
        ((ret, errno), s') \<Rightarrow> if ret \<noteq> 0 then (Err (os_error errno), s') else (Ok (), s'))"

definition force_kill :: "'s sys \<Rightarrow> pty_process \<Rightarrow> 's \<Rightarrow> (unit, io_error) result \<times> 's" where
  "force_kill sys p s = kill_process sys p SIGKILL s"

definition is_running :: "'s sys \<Rightarrow> pty_process \<Rightarrow> 's \<Rightarrow> (bool, io_error) result \<times> 's" where
  "is_running sys p s =
     (case k_kill sys (pid p) 0 s of
        ((ret, errno), s') \<Rightarrow>
          if ret = 0 then (Ok True, s')
          else if ret = -1 then
            (if errno = ESRCH then (Ok False, s') else (Err (os_error errno), s'))
          else (Ok False, s'))"

definition pty_status :: "'s sys \<Rightarrow> pty_process \<Rightarrow> 's \<Rightarrow> (string, io_error) result \<times> 's" where
  "pty_status sys p s =
     (case k_kill sys (pid p) 0 s of
        ((ret, errno), s') \<Rightarrow>
          if ret = 0 then (Ok ''Running'', s')
          else if ret = -1 then
            (if errno = ESRCH then (Ok ''Not Running'', s') else (Err (os_error errno), s'))
          else (Ok ''Unknown'', s'))"

definition shutdown_pty :: "'s sys \<Rightarrow> pty_process \<Rightarrow> 's \<Rightarrow> (unit, io_error) result \<times> 's" where
  "shutdown_pty sys p s =
     (case kill_process sys p SIGTERM s of
        (Err e, s1) \<Rightarrow> (Err e, s1)
      | (Ok _, s1) \<Rightarrow>
          (case waitpid sys p 0 s1 of
             (Ok _, s2) \<Rightarrow> close_master_fd sys p s2
           | (Err e, s2) \<Rightarrow>
               (case force_kill sys p s2 of
                  (Err e', s3) \<Rightarrow> (Err e', s3)
                | (Ok _, s3) \<Rightarrow>
                    (case close_master_fd sys p s3 of
                       (Err e', s4) \<Rightarrow> (Err e', s4)
                     | (Ok _, s4) \<Rightarrow> (Err e, s4)))))"

section \<open>Environment and log level\<close>

text \<open>
  \<open>env::set_var\<close> panics on a key that is empty or has an equals sign or a NUL, and on a
  value with a NUL.
\<close>

definition env_name_ok :: "string \<Rightarrow> string \<Rightarrow> bool" where
  "env_name_ok key val \<longleftrightarrow>
     key \<noteq> [] \<and> CHR ''='' \<notin> set key \<and> CHR 0x00 \<notin> set key \<and> CHR 0x00 \<notin> set val"

definition set_env ::
  "'s sys \<Rightarrow> pty_process \<Rightarrow> string \<Rightarrow> string \<Rightarrow> 's \<Rightarrow> (unit, io_error) result flow \<times> 's" where
  "set_env sys p key val s =
     (case is_running sys p s of
        (Err e, s1) \<Rightarrow> (Returns (Err e), s1)
      | (Ok False, s1) \<Rightarrow> (Returns (Err (Custom NotConnected ''PTY process is not running'')), s1)
      | (Ok True, s1) \<Rightarrow>
          (if env_name_ok key val then
             (case write_data sys p (as_bytes (''export '' @ key @ ''='' @ val @ [CHR 0x0A]))
                     (k_setenv sys key val s1) of
                (Err e, s2) \<Rightarrow> (Returns (Err e), s2)
              | (Ok _, s2) \<Rightarrow> (Returns (Ok ()), s2))
           else (Panics, s1)))"

text \<open>
  \<open>to_lowercase\<close>, on ASCII letters: no other character lowercases to a letter of the level
  names compared with.
\<close>

definition lower_char :: "char \<Rightarrow> char" where
  "lower_char c = (let n = of_char c :: nat in if 65 \<le> n \<and> n \<le> 90 then char_of (n + 32) else c)"

definition to_lowercase :: "string \<Rightarrow> string" where
  "to_lowercase s = map lower_char s"

definition level_named :: "string \<Rightarrow> log_level option" where
  "level_named s =
     (if s = ''error'' then Some LError
      else if s = ''warn'' then Some LWarn
      else if s = ''info'' then Some LInfo
      else if s = ''debug'' then Some LDebug
      else if s = ''trace'' then Some LTrace
      else None)"

text \<open>
  The level \<open>PtyProcess::set_log_level\<close> installs: an unknown name falls back to \<open>Info\<close>.
\<close>

definition process_log_level :: "string \<Rightarrow> log_level" where
  "process_log_level level =
     (case level_named (to_lowercase level) of Some l \<Rightarrow> l | None \<Rightarrow> LInfo)"

section \<open>Creating a process and changing its shell\<close>

text \<open>
  \<open>Path::file_name\<close>: the last component that is neither empty nor a dot, unless it is two dots.
\<close>

fun split_on :: "char \<Rightarrow> string \<Rightarrow> string list" where
  "split_on c [] = [[]]"
| "split_on c (x # xs) =
     (if x = c then [] # split_on c xs
      else case split_on c xs of [] \<Rightarrow> [[x]] | y # ys \<Rightarrow> (x # y) # ys)"

definition file_name :: "string \<Rightarrow> string option" where
  "file_name path =
     (let cs = filter (\<lambda>c. c \<noteq> [] \<and> c \<noteq> ''.'') (split_on CHR ''/'' path)
      in if cs = [] \<or> last cs = ''..'' then None else Some (last cs))"

text \<open>
  \<open>setup_child\<close> and \<open>duplicate_fds\<close> run in the forked child and never return: the child ends
  in the new program, exits with status 1, or panics on a path with a NUL byte
  (\<open>CString::new(..).unwrap()\<close>). The flag of \<open>duplicate_fds\<close> is false once the child has
  exited.
\<close>

definition duplicate_fds :: "'s sys \<Rightarrow> i32 \<Rightarrow> 's \<Rightarrow> bool \<times> 's" where
  "duplicate_fds sys slave_fd s =
     (case k_dup2 sys slave_fd 0 s of
        ((ret, _), s1) \<Rightarrow>
          if sint ret < 0 then (False, k_exit sys 1 s1)
          else case k_dup2 sys slave_fd 1 s1 of
            ((ret, _), s2) \<Rightarrow>
              if sint ret < 0 then (False, k_exit sys 1 s2)
              else case k_dup2 sys slave_fd 2 s2 of
                ((ret, _), s3) \<Rightarrow>
                  if sint ret < 0 then (False, k_exit sys 1 s3) else (True, s3))"

definition setup_child :: "'s sys \<Rightarrow> i32 \<Rightarrow> string \<Rightarrow> 's \<Rightarrow> 's" where
  "setup_child sys slave_fd shell_path s =
     (case k_setsid sys s of
        ((ret, _), s1) \<Rightarrow>
          if sint ret < 0 then k_exit sys 1 s1
          else case k_set_winsize sys slave_fd 24 80 s1 of
            ((ret, _), s2) \<Rightarrow>
              if sint ret < 0 then k_exit sys 1 s2
              else case duplicate_fds sys slave_fd s2 of
                (False, s3) \<Rightarrow> s3
              | (True, s3) \<Rightarrow>
                  let s4 = snd (k_close sys slave_fd s3);
                      arg = (case file_name shell_path of Some f \<Rightarrow> f | None \<Rightarrow> ''shell'')
                  in if CHR 0x00 \<in> set shell_path then k_child_panic sys s4
                     else case k_exec sys shell_path [arg, ''-i''] s4 of
                       (ok, s5) \<Rightarrow> if ok then s5 else k_exit sys 1 s5)"

text \<open>
  The terminal attributes: those of the standard input or, when they cannot be read, the
  defaults written out in the source (\<open>ICRNL\<close>; \<open>OPOST | ONLCR\<close>;
  \<open>ISIG | ICANON | ECHO | ECHOE | ECHOK | IEXTEN\<close>), at \<open>B38400\<close>.
\<close>

definition pty_termios :: "termios option \<Rightarrow> termios" where
  "pty_termios t =
     (let base = (case t of
            Some t \<Rightarrow> t
          | None \<Rightarrow> \<lparr>c_iflag = 0x100, c_oflag = 3, c_cflag = 0, c_lflag = 0x58E,
                     c_ispeed = 0, c_ospeed = 0, c_vmin = 0, c_vtime = 0\<rparr>)
      in base\<lparr>c_ispeed := 38400, c_ospeed := 38400, c_vmin := 1, c_vtime := 0\<rparr>)"

definition open_pty :: "'s sys \<Rightarrow> 's \<Rightarrow> (i32 \<times> i32, io_error) result \<times> 's" where
  "open_pty sys s =
     (case k_tcgetattr sys 0 s of
        (t, s0) \<Rightarrow>
      case k_openpty sys (pty_termios t) 40 100 s0 of
        ((ret, master, slave, errno), s1) \<Rightarrow>
          if ret \<noteq> 0 then (Err (os_error errno), s1)
          else case k_set_winsize sys master 40 100 s1 of
            ((ret, errno), s2) \<Rightarrow>
              if ret \<noteq> 0 then (Err (os_error errno), s2)
              else case k_set_winsize sys slave 40 100 s2 of
                ((ret, errno), s3) \<Rightarrow>
                  if ret \<noteq> 0 then (Err (os_error errno), s3)
                  else case k_getfl sys master s3 of
                    ((flags, errno), s4) \<Rightarrow>
                      if sint flags < 0 then (Err (os_error errno), s4)
                      else case k_setfl sys master (or flags O_NONBLOCK) s4 of
                        ((ret, errno), s5) \<Rightarrow>
                          if sint ret < 0 then (Err (os_error errno), s5)
                          else (Ok (master, slave), s5))"

text \<open>
  Both descriptors are closed; the results are not looked at, but a failed \<open>close\<close> changes
  the errno that the caller reads afterwards, which is the second component.
\<close>

definition cleanup_fd :: "'s sys \<Rightarrow> i32 \<Rightarrow> i32 \<Rightarrow> i32 \<Rightarrow> 's \<Rightarrow> i32 \<times> 's" where
  "cleanup_fd sys master slave errno s =
     (case k_close sys master s of
        ((ret1, errno1), s1) \<Rightarrow>
      case k_close sys slave s1 of
        ((ret2, errno2), s2) \<Rightarrow>
          (if ret2 \<noteq> 0 then errno2 else if ret1 \<noteq> 0 then errno1 else errno, s2))"

text \<open>\<open>fork\<close> returns in the parent and, with 0, in the child.\<close>

definition new_process :: "'s sys \<Rightarrow> 's \<Rightarrow> (pty_process, io_error) result flow \<times> 's" where
  "new_process sys s =
     (case open_pty sys s of
        (Err e, s1) \<Rightarrow> (Returns (Err e), s1)
      | (Ok (master, slave), s1) \<Rightarrow>
          (case k_fork sys s1 of
             ((ret, errno), s2) \<Rightarrow>
               if ret = -1 then
                 (case cleanup_fd sys master slave errno s2 of
                    (errno', s3) \<Rightarrow> (Returns (Err (os_error errno')), s3))
               else if ret = 0 then (InChild, setup_child sys slave ''/bin/bash'' s2)
               else (Returns (Ok \<lparr>master_fd = master, pid = ret, command = ''/bin/bash''\<rparr>),
                     snd (k_close sys slave s2))))"

text \<open>\<open>&mut self\<close> operations return the process record with its new fields.\<close>

definition spawn_new_shell ::
  "'s sys \<Rightarrow> pty_process \<Rightarrow> string \<Rightarrow> 's \<Rightarrow> (unit, io_error) result flow \<times> pty_process \<times> 's" where
  "spawn_new_shell sys p shell_path s =
     (case close_master_fd sys p s of
        (Err e, s1) \<Rightarrow> (Returns (Err e), p, s1)
      | (Ok _, s1) \<Rightarrow>
          (case open_pty sys s1 of
             (Err e, s2) \<Rightarrow> (Returns (Err e), p, s2)
           | (Ok (master, slave), s2) \<Rightarrow>
               (let p1 = p\<lparr>master_fd := master\<rparr> in
                case k_fork sys s2 of
                  ((ret, errno), s3) \<Rightarrow>
                    if ret = -1 then
                      (case cleanup_fd sys master slave errno s3 of
                         (errno', s4) \<Rightarrow> (Returns (Err (os_error errno')), p1, s4))
                    else if ret = 0 then (InChild, p1, setup_child sys slave shell_path s3)
                    else (Returns (Ok ()), p1\<lparr>pid := ret, command := shell_path\<rparr>,
                          snd (k_close sys slave s3)))))"

definition change_shell ::
  "'s sys \<Rightarrow> pty_process \<Rightarrow> string \<Rightarrow> 's \<Rightarrow> (unit, io_error) result flow \<times> pty_process \<times> 's" where
  "change_shell sys p shell_path s =
     (case kill_process sys p SIGTERM s of
        (Err e, s1) \<Rightarrow> (Returns (Err e), p, s1)
      | (Ok _, s1) \<Rightarrow>
          (case waitpid sys p 0 s1 of (_, s2) \<Rightarrow> spawn_new_shell sys p shell_path s2))"

lemmas [proc_defs] =
  write_data_def read_data_def get_window_size_def resize_def kill_process_def waitpid_def
  close_master_fd_def force_kill_def is_running_def pty_status_def shutdown_pty_def set_env_def
  open_pty_def cleanup_fd_def new_process_def spawn_new_shell_def change_shell_def

section \<open>What the operations guarantee\<close>

lemma resize_ok_iff:
  "fst (resize sys p cols rows s) = Ok () \<longleftrightarrow>
     (\<exists>e1 s1 r2 e2 s2 e3 s3.
        k_set_winsize sys (master_fd p) rows cols s = ((0, e1), s1) \<and>
        k_kill sys (pid p) SIGWINCH s1 = ((r2, e2), s2) \<and> r2 \<noteq> -1 \<and>
        k_get_winsize sys (master_fd p) s2 = ((0, rows, cols, e3), s3))"
  by (auto simp: resize_def split: prod.splits)

lemma shutdown_pty_ok_iff:
  "fst (shutdown_pty sys p s) = Ok () \<longleftrightarrow>
     (let (k, s1) = kill_process sys p SIGTERM s; (w, s2) = waitpid sys p 0 s1
      in k = Ok () \<and> is_ok w \<and> fst (close_master_fd sys p s2) = Ok ())"
  by (auto simp: shutdown_pty_def split: prod.splits result.splits)

lemma shutdown_pty_wait_failed:
  assumes "kill_process sys p SIGTERM s = (Ok (), s1)" "waitpid sys p 0 s1 = (Err e, s2)"
    and "force_kill sys p s2 = (Ok (), s3)" "close_master_fd sys p s3 = (Ok (), s4)"
  shows "shutdown_pty sys p s = (Err e, s4)"
  using assms by (simp add: shutdown_pty_def)

lemma pty_status_is_running:
  "snd (pty_status sys p s) = snd (is_running sys p s) \<and>
   (fst (pty_status sys p s) = Ok ''Running'' \<longleftrightarrow> fst (is_running sys p s) = Ok True) \<and>
   (\<forall>e. fst (pty_status sys p s) = Err e \<longleftrightarrow> fst (is_running sys p s) = Err e)"
  by (auto simp: pty_status_def is_running_def split: prod.splits)

section \<open>Descriptors\<close>

text \<open>
  What the descriptor table \<open>fds\<close> of a kernel does: \<open>openpty\<close> opens two new descriptors,
  \<open>close\<close> of an open one closes it, whatever it reports, and no other call used here opens or closes.
\<close>

definition fresh_pair :: "'a set \<Rightarrow> 'a \<Rightarrow> 'a \<Rightarrow> 'a set \<Rightarrow> bool" where
  "fresh_pair A m sl B \<longleftrightarrow> m \<noteq> sl \<and> m \<notin> A \<and> sl \<notin> A \<and> B = insert m (insert sl A)"

definition fd_laws :: "'s sys \<Rightarrow> ('s \<Rightarrow> i32 set) \<Rightarrow> bool" where
  "fd_laws sys fds \<longleftrightarrow>
     (\<forall>s fd ret errno s'. k_close sys fd s = ((ret, errno), s') \<longrightarrow>
        fds s' = fds s - {fd}) \<and>
     (\<forall>s t rows cols ret m sl errno s'. k_openpty sys t rows cols s = ((ret, m, sl, errno), s') \<longrightarrow>
        (if ret = 0 then fresh_pair (fds s) m sl (fds s') else fds s' = fds s)) \<and>
     (\<forall>s fd. fds (snd (k_tcgetattr sys fd s)) = fds s) \<and>
     (\<forall>s fd rows cols. fds (snd (k_set_winsize sys fd rows cols s)) = fds s) \<and>
     (\<forall>s fd. fds (snd (k_getfl sys fd s)) = fds s) \<and>
     (\<forall>s fd fl. fds (snd (k_setfl sys fd fl s)) = fds s) \<and>
     (\<forall>s. fds (snd (k_fork sys s)) = fds s)"

lemma fd_lawsD:
  assumes "fd_laws sys fds"
  shows "k_close sys fd s = ((ret, errno), s') \<Longrightarrow> fds s' = fds s - {fd}"
    and "k_openpty sys t rows cols s = ((0, m, sl, errno), s') \<Longrightarrow> fresh_pair (fds s) m sl (fds s')"
    and "k_openpty sys t rows cols s = ((ret, m, sl, errno), s') \<Longrightarrow> ret \<noteq> 0 \<Longrightarrow> fds s' = fds s"
    and "k_tcgetattr sys fd s = (x, s') \<Longrightarrow> fds s' = fds s"
    and "k_set_winsize sys fd rows' cols' s = (y, s') \<Longrightarrow> fds s' = fds s"
    and "k_getfl sys fd s = (z, s') \<Longrightarrow> fds s' = fds s"
    and "k_setfl sys fd fl s = (w, s') \<Longrightarrow> fds s' = fds s"
    and "k_fork sys s = (v, s') \<Longrightarrow> fds s' = fds s"
  using assms unfolding fd_laws_def by (metis snd_conv)+

text \<open>\<open>close\<close> can report an error though the descriptor is closed. This is the law that it reports none.\<close>

definition close_succeeds :: "'s sys \<Rightarrow> ('s \<Rightarrow> i32 set) \<Rightarrow> bool" where
  "close_succeeds sys fds \<longleftrightarrow>
     (\<forall>s fd ret errno s'. k_close sys fd s = ((ret, errno), s') \<longrightarrow> fd \<in> fds s \<longrightarrow> ret = 0)"

lemma close_succeedsD:
  "close_succeeds sys fds \<Longrightarrow> k_close sys fd s = ((ret, errno), s') \<Longrightarrow> fd \<in> fds s \<Longrightarrow> ret = 0"
  unfolding close_succeeds_def by blast

lemma fds_after_close:
  assumes "fd_laws sys fds"
  shows "fds (snd (k_close sys fd s)) = fds s - {fd}"
  using assms unfolding fd_laws_def by (metis prod.collapse)

lemma open_pty_ok_fds:
  assumes "fd_laws sys fds" "open_pty sys s = (Ok (m, sl), s')"
  shows "fresh_pair (fds s) m sl (fds s')"
  using assms(2) unfolding open_pty_def
  by (auto split: prod.splits if_splits dest!: fd_lawsD(2-8) [OF assms(1)])

text \<open>
  A failure after \<open>openpty\<close> itself has succeeded closes nothing: both new descriptors stay open.
\<close>

lemma open_pty_err_fds:
  assumes "fd_laws sys fds" "open_pty sys s = (Err e, s')"
  shows "fds s' = fds s \<or> (\<exists>m sl. fresh_pair (fds s) m sl (fds s'))"
  using assms(2) unfolding open_pty_def
  by (auto split: prod.splits if_splits dest!: fd_lawsD(2-8) [OF assms(1)])

lemma cleanup_fd_fds:
  assumes "fd_laws sys fds" "cleanup_fd sys m sl errno s = (errno', s')"
  shows "fds s' = fds s - {m, sl}"
  using assms(2) fd_lawsD(1) [OF assms(1)]
  unfolding cleanup_fd_def by (auto split: prod.splits)

lemma cleanup_fd_errno:
  assumes "fd_laws sys fds" "close_succeeds sys fds" "m \<in> fds s" "sl \<in> fds s" "m \<noteq> sl"
  shows "fst (cleanup_fd sys m sl errno s) = errno"
  using assms(3-) fd_lawsD(1) [OF assms(1)] close_succeedsD [OF assms(2)]
  unfolding cleanup_fd_def by (fastforce split: prod.splits)

lemma new_process_ok_fds:
  assumes "fd_laws sys fds" "new_process sys s = (Returns (Ok p), s')"
  shows "master_fd p \<notin> fds s \<and> fds s' = insert (master_fd p) (fds s)"
  using assms(2) unfolding new_process_def
  by (auto simp: fresh_pair_def fds_after_close [OF assms(1)]
      split: prod.splits result.splits if_splits
      dest!: open_pty_ok_fds [OF assms(1)] fd_lawsD(1,8) [OF assms(1)])

lemma new_process_fork_failed:
  assumes "fd_laws sys fds" "open_pty sys s = (Ok (m, sl), s1)" "k_fork sys s1 = ((-1, errno), s2)"
  shows "\<exists>e s'. new_process sys s = (Returns (Err (os_error e)), s') \<and> fds s' = fds s"
proof -
  note o = open_pty_ok_fds [OF assms(1,2)] and f = fd_lawsD(8) [OF assms(1,3)]
  obtain e s' where c: "cleanup_fd sys m sl errno s2 = (e, s')" by fastforce
  have "fds s' = fds s" using o f cleanup_fd_fds [OF assms(1) c] by (auto simp: fresh_pair_def)
  then show ?thesis by (auto simp: new_process_def assms(2,3) c)
qed

lemma spawn_new_shell_open_failed:
  assumes "close_master_fd sys p s = (Ok (), s1)" "open_pty sys s1 = (Err e, s2)"
  shows "spawn_new_shell sys p sh s = (Returns (Err e), p, s2)"
  using assms by (simp add: spawn_new_shell_def)

lemma spawn_new_shell_fork_failed:
  assumes "fd_laws sys fds" "close_succeeds sys fds" "close_master_fd sys p s = (Ok (), s1)"
    and "open_pty sys s1 = (Ok (m, sl), s2)" "k_fork sys s2 = ((-1, errno), s3)"
  shows "\<exists>s'. spawn_new_shell sys p sh s = (Returns (Err (os_error errno)), p\<lparr>master_fd := m\<rparr>, s') \<and>
           m \<notin> fds s'"
proof -
  note o = open_pty_ok_fds [OF assms(1,4)] and f = fd_lawsD(8) [OF assms(1,5)]
  obtain e s' where c: "cleanup_fd sys m sl errno s3 = (e, s')" by fastforce
  have "e = errno"
    using o f c cleanup_fd_errno [OF assms(1,2), of m s3 sl errno] by (simp add: fresh_pair_def)
  moreover have "m \<notin> fds s'"
    using cleanup_fd_fds [OF assms(1) c] by simp
  ultimately show ?thesis
    by (simp add: spawn_new_shell_def assms(3-5) c)
qed

end
