(* ===== verification/Sample_Kernel.thy ===== *)
theory Sample_Kernel
  imports Pty_Process
begin

text \<open>
  A small kernel on which the theorems about a PTY process are applied: descriptors are open or
  closed, processes live or dead, a write is recorded and a read takes from a pending input.
  The fields \<open>win_fails\<close> and \<open>fork_fails\<close> make the window-size ioctl and \<open>fork\<close> fail.
\<close>

record kern =
  kfds :: "i32 list"
  kpids :: "i32 list"
  kwin :: "u16 \<times> u16"
  kout :: bytes
  kin :: bytes
  knext :: i32
  win_fails :: bool
  fork_fails :: bool

definition demo_sys :: "kern sys" where
  "demo_sys =
     \<lparr>k_write = (\<lambda>fd data k. if fd \<in> set (kfds k)
          then ((int (length data), 0), k\<lparr>kout := kout k @ data\<rparr>) else ((-1, 9), k)),
      k_read = (\<lambda>fd len k. if fd \<notin> set (kfds k) then ((-1, [], 9), k)
          else if kin k = [] then ((-1, [], 35), k)
          else ((int (length (take len (kin k))), take len (kin k), 0), k\<lparr>kin := drop len (kin k)\<rparr>)),
      k_close = (\<lambda>fd k. ((if fd \<in> set (kfds k) then 0 else -1, 9),
          k\<lparr>kfds := filter (\<lambda>x. x \<noteq> fd) (kfds k)\<rparr>)),
      k_kill = (\<lambda>p sig k. if p \<notin> set (kpids k) then ((-1, ESRCH), k)
          else ((0, 0), if sig = SIGKILL \<or> sig = SIGTERM
                        then k\<lparr>kpids := filter (\<lambda>x. x \<noteq> p) (kpids k)\<rparr> else k)),
      k_waitpid = (\<lambda>p opts k. ((if p \<in> set (kpids k) then 0 else p, 10), k)),
      k_set_winsize = (\<lambda>fd rows cols k. if win_fails k then ((-1, 25), k)
          else ((0, 0), k\<lparr>kwin := (rows, cols)\<rparr>)),
      k_get_winsize = (\<lambda>fd k. ((0, fst (kwin k), snd (kwin k), 0), k)),
      k_tcgetattr = (\<lambda>fd k. (None, k)),
      k_openpty = (\<lambda>t rows cols k. let m = knext k; sl = knext k + 1 in
          if m \<in> set (kfds k) \<or> sl \<in> set (kfds k) then ((-1, -1, -1, 24), k)
          else ((0, m, sl, 0), k\<lparr>kfds := m # sl # kfds k, knext := knext k + 2\<rparr>)),
      k_getfl = (\<lambda>fd k. ((0, 0), k)),
      k_setfl = (\<lambda>fd fl k. ((0, 0), k)),
      k_select = (\<lambda>fd us k. ((if kin k = [] then 0 else 1, kin k \<noteq> [], 0), k)),
      k_fork = (\<lambda>k. if fork_fails k then ((-1, 35), k)
          else ((1000 + knext k, 0), k\<lparr>kpids := (1000 + knext k) # kpids k\<rparr>)),
      k_setsid = (\<lambda>k. ((0, 0), k)),
      k_dup2 = (\<lambda>old new k. ((0, 0), k)),
      k_exec = (\<lambda>path args k. (True, k)),
      k_exit = (\<lambda>code k. k),
      k_setenv = (\<lambda>key val k. k),
      k_strerror = (\<lambda>e. ''error''),
      k_nix_error = (\<lambda>e. ''ESRCH: No such process''),
      k_child_panic = (\<lambda>k. k)\<rparr>"

definition demo_kern :: kern where
  "demo_kern = \<lparr>kfds = [5], kpids = [42], kwin = (24, 80), kout = [], kin = [104, 105],
                knext = 8, win_fails = False, fork_fails = False\<rparr>"

definition demo_proc :: pty_process where
  "demo_proc = \<lparr>master_fd = 5, pid = 42, command = ''/bin/bash''\<rparr>"

lemma demo_fd_laws: "fd_laws demo_sys (\<lambda>k. set (kfds k))"
  by (auto simp: fd_laws_def demo_sys_def fresh_pair_def Let_def split: if_splits)

lemma demo_close_succeeds: "close_succeeds demo_sys (\<lambda>k. set (kfds k))"
  by (simp add: close_succeeds_def demo_sys_def)

end
