(* ===== verification/Multiplexer.thy ===== *)
theory Multiplexer
  imports Sample_Kernel
begin

text \<open>
  \<open>src/pty/multiplexer.rs\<close>: the sessions that share one PTY process. The session table is a
  \<open>DashMap\<close>; a session's output buffer is a mutex shared by every clone of the session, so the
  model keeps the buffers in an arena and a session holds the index of its buffer. The mutexes
  are explicit: an operation that asks for a buffer its own call has locked hangs. Operations
  run one at a time. Session ids wrap at 32 bits, as in a release build.
\<close>

section \<open>The process behind the multiplexer\<close>

text \<open>The trait \<open>PtyProcessInterface\<close>; a read returns the filled part of the buffer.\<close>

record 's pty_iface =
  if_write_data :: "bytes \<Rightarrow> 's \<Rightarrow> (nat, io_error) result \<times> 's"
  if_read_data :: "nat \<Rightarrow> 's \<Rightarrow> (bytes, io_error) result \<times> 's"
  if_is_running :: "'s \<Rightarrow> (bool, io_error) result \<times> 's"
  if_kill_process :: "i32 \<Rightarrow> 's \<Rightarrow> (unit, io_error) result \<times> 's"
  if_waitpid :: "i32 \<Rightarrow> 's \<Rightarrow> (i32, io_error) result \<times> 's"
  if_resize :: "u16 \<Rightarrow> u16 \<Rightarrow> 's \<Rightarrow> (unit, io_error) result \<times> 's"
  if_get_pid :: "'s \<Rightarrow> (i32, io_error) result \<times> 's"
  if_set_env :: "string \<Rightarrow> string \<Rightarrow> 's \<Rightarrow> (unit, io_error) result \<times> 's"

text \<open>\<open>impl PtyProcessInterface for PtyProcess\<close>: four of its methods do nothing.\<close>

definition export_text :: "string \<Rightarrow> string \<Rightarrow> string" where
  "export_text key val =
     ''export '' @ key @ ''='' @ [CHR 0x22] @ val @ [CHR 0x22] @ [CHR 0x0A]"

definition process_iface :: "'s sys \<Rightarrow> pty_process \<Rightarrow> 's pty_iface" where
  "process_iface sys p =
     \<lparr>if_write_data = write_data sys p,
      if_read_data = read_data sys p,
      if_is_running = (\<lambda>s. (Ok True, s)),
      if_kill_process = (\<lambda>sig s. (Ok (), s)),
      if_waitpid = (\<lambda>opts s. (Ok 0, s)),
      if_resize = (\<lambda>cols rows s. (Ok (), s)),
      if_get_pid = (\<lambda>s. (Ok (pid p), s)),
      if_set_env = (\<lambda>key val s.
         case write_data sys p (as_bytes (export_text key val)) s of
           (r, s') \<Rightarrow> (map_ok (\<lambda>_. ()) r, s'))\<rparr>"

text \<open>\<open>disp\<close> is the \<open>Display\<close> of an I/O error (\<open>show_io\<close> for a process of the platform).\<close>

definition convert_io_error :: "(io_error \<Rightarrow> string) \<Rightarrow> io_error \<Rightarrow> napi_error" where
  "convert_io_error disp e = from_reason (disp e)"

section \<open>Sessions and buffers\<close>

record pty_session =
  stream_id :: u32
  input_buffer :: bytes
  output_buffer :: nat

record session_data =
  sd_session_id :: u32
  sd_data :: bytes

record mux =
  sessions :: "(u32, pty_session) fmap"
  bufs :: "bytes list"
  locked :: "nat list"
  shutdown_sent :: bool

text \<open>The session table of a new multiplexer.\<close>

definition new_mux :: mux where
  "new_mux = \<lparr>sessions = fmempty, bufs = [], locked = [], shutdown_sent = False\<rparr>"

definition alloc :: "bytes \<Rightarrow> mux \<Rightarrow> nat \<times> mux" where
  "alloc bs m = (length (bufs m), m\<lparr>bufs := bufs m @ [bs]\<rparr>)"

definition set_buf :: "nat \<Rightarrow> bytes \<Rightarrow> mux \<Rightarrow> mux" where
  "set_buf a bs m = m\<lparr>bufs := (bufs m)[a := bs]\<rparr>"

text \<open>
  \<open>lock().await\<close> on a buffer: no result when this call already holds the lock, since then the
  call waits for itself.
\<close>

definition lock_buf :: "nat \<Rightarrow> mux \<Rightarrow> mux option" where
  "lock_buf a m = (if a \<in> set (locked m) then None else Some (m\<lparr>locked := a # locked m\<rparr>))"

definition unlock_buf :: "nat \<Rightarrow> mux \<Rightarrow> mux" where
  "unlock_buf a m = m\<lparr>locked := remove1 a (locked m)\<rparr>"

definition insert_session :: "u32 \<Rightarrow> pty_session \<Rightarrow> mux \<Rightarrow> mux" where
  "insert_session k ses m = m\<lparr>sessions := fmupd k ses (sessions m)\<rparr>"

definition drop_session :: "u32 \<Rightarrow> mux \<Rightarrow> mux" where
  "drop_session k m = m\<lparr>sessions := fmdrop k (sessions m)\<rparr>"

definition not_found :: "u32 \<Rightarrow> napi_error" where
  "not_found k = from_reason (''Session ID '' @ show_u32 k @ '' not found'')"

definition max_key :: "(u32 \<Rightarrow> nat) \<Rightarrow> mux \<Rightarrow> u32 option" where
  "max_key h m =
     (case keys_in h (sessions m) of [] \<Rightarrow> None | k # ks \<Rightarrow> Some (fold max ks k))"

section \<open>Operations on the session table\<close>

definition create_session :: "(u32 \<Rightarrow> nat) \<Rightarrow> mux \<Rightarrow> (u32, napi_error) result \<times> mux" where
  "create_session h m =
     (let sid = (case max_key h m of Some max_id \<Rightarrow> max_id + 1 | None \<Rightarrow> 1);
          (a, m1) = alloc [] m
      in (Ok sid, insert_session sid \<lparr>stream_id = sid, input_buffer = [], output_buffer = a\<rparr> m1))"

definition send_to_session ::
  "(io_error \<Rightarrow> string) \<Rightarrow> 's pty_iface \<Rightarrow> u32 \<Rightarrow> bytes \<Rightarrow> mux \<Rightarrow> 's
     \<Rightarrow> (unit, napi_error) result \<times> mux \<times> 's" where
  "send_to_session disp ifc sid data m s =
     (case fmlookup (sessions m) sid of
        Some ses \<Rightarrow>
          (let m1 = insert_session sid (ses\<lparr>input_buffer := input_buffer ses @ data\<rparr>) m
           in case if_write_data ifc data s of
                (r, s1) \<Rightarrow> (map_err (convert_io_error disp) (map_ok (\<lambda>_. ()) r), m1, s1))
      | None \<Rightarrow> (Err (not_found sid), m, s))"

definition broadcast ::
  "(io_error \<Rightarrow> string) \<Rightarrow> 's pty_iface \<Rightarrow> bytes \<Rightarrow> mux \<Rightarrow> 's
     \<Rightarrow> (unit, napi_error) result \<times> mux \<times> 's" where
  "broadcast disp ifc data m s =
     (let m1 = m\<lparr>sessions := fmmap (\<lambda>ses. ses\<lparr>input_buffer := input_buffer ses @ data\<rparr>) (sessions m)\<rparr>
      in case if_write_data ifc data s of
           (r, s1) \<Rightarrow> (map_err (convert_io_error disp) (map_ok (\<lambda>_. ()) r), m1, s1))"

definition read_from_session :: "u32 \<Rightarrow> mux \<Rightarrow> (bytes, napi_error) result flow \<times> mux" where
  "read_from_session sid m =
     (case fmlookup (sessions m) sid of
        Some ses \<Rightarrow>
          (case lock_buf (output_buffer ses) m of
             None \<Rightarrow> (Hangs, m)
           | Some m1 \<Rightarrow>
               (let data = bufs m1 ! output_buffer ses
                in (Returns (Ok data),
                    unlock_buf (output_buffer ses) (set_buf (output_buffer ses) [] m1))))
      | None \<Rightarrow> (Returns (Err (not_found sid)), m))"

fun read_entries :: "(u32 \<times> pty_session) list \<Rightarrow> mux \<Rightarrow> session_data list flow \<times> mux" where
  "read_entries [] m = (Returns [], m)"
| "read_entries ((k, ses) # es) m =
     (case lock_buf (output_buffer ses) m of
        None \<Rightarrow> (Hangs, m)
      | Some m1 \<Rightarrow>
          (let output = bufs m1 ! output_buffer ses
           in case read_entries es (unlock_buf (output_buffer ses) m1) of
                (Returns ds, m2) \<Rightarrow> (Returns (\<lparr>sd_session_id = k, sd_data = output\<rparr> # ds), m2)
              | (f, m2) \<Rightarrow> (f, m2)))"

definition read_all_sessions ::
  "(u32 \<Rightarrow> nat) \<Rightarrow> mux \<Rightarrow> (session_data list, napi_error) result flow \<times> mux" where
  "read_all_sessions h m =
     (case read_entries (entries_in h (sessions m)) m of
        (Returns ds, m1) \<Rightarrow> (Returns (Ok ds), m1)
      | (_, m1) \<Rightarrow> (Hangs, m1))"

definition remove_session :: "u32 \<Rightarrow> mux \<Rightarrow> (unit, napi_error) result \<times> mux" where
  "remove_session sid m =
     (case fmlookup (sessions m) sid of
        Some _ \<Rightarrow> (Ok (), drop_session sid m)
      | None \<Rightarrow> (Err (not_found sid), m))"

section \<open>Merging\<close>

text \<open>The sessions named after the first are taken out of the table, those that are there.\<close>

fun take_sessions :: "u32 list \<Rightarrow> mux \<Rightarrow> (u32 \<times> pty_session) list \<times> mux" where
  "take_sessions [] m = ([], m)"
| "take_sessions (k # ks) m =
     (case fmlookup (sessions m) k of
        Some ses \<Rightarrow> (case take_sessions ks (drop_session k m) of (es, m1) \<Rightarrow> ((k, ses) # es, m1))
      | None \<Rightarrow> take_sessions ks m)"

text \<open>
  The loop over the sessions taken out, with \<open>primary\<close> the clone of the first session: both
  output buffers are locked and the second is appended to the first. The extended copy of the
  input (\<open>primary_input\<close>) is a local of the loop body that nothing reads.
\<close>

fun merge_loop :: "pty_session \<Rightarrow> (u32 \<times> pty_session) list \<Rightarrow> mux \<Rightarrow> unit flow \<times> mux" where
  "merge_loop primary [] m = (Returns (), m)"
| "merge_loop primary ((k, ses) # es) m =
     (let primary_input = input_buffer primary @ input_buffer ses
      in case lock_buf (output_buffer primary) m of
           None \<Rightarrow> (Hangs, m)
         | Some m1 \<Rightarrow>
             (case lock_buf (output_buffer ses) m1 of
                None \<Rightarrow> (Hangs, m1)
              | Some m2 \<Rightarrow>
                  (let m3 = set_buf (output_buffer primary)
                              (bufs m2 ! output_buffer primary @ bufs m2 ! output_buffer ses) m2
                   in merge_loop primary es
                        (unlock_buf (output_buffer primary) (unlock_buf (output_buffer ses) m3)))))"

definition merge_sessions :: "u32 list \<Rightarrow> mux \<Rightarrow> (unit, napi_error) result flow \<times> mux" where
  "merge_sessions ids m =
     (case ids of
        [] \<Rightarrow> (Returns (Err (from_reason ''No session IDs provided for merging'')), m)
      | primary_id # rest \<Rightarrow>
          (case fmlookup (sessions m) primary_id of
             None \<Rightarrow> (Returns (Err (from_reason
                        (''Primary session ID '' @ show_u32 primary_id @ '' not found''))), m)
           | Some primary \<Rightarrow>
               (case take_sessions rest m of
                  (es, m1) \<Rightarrow>
                    (case merge_loop primary es m1 of
                       (Returns _, m2) \<Rightarrow>
                         (case fmlookup (sessions m2) primary_id of
                            None \<Rightarrow> (Returns (Ok ()), m2)
                          | Some updated \<Rightarrow>
                              (let m3 = insert_session primary_id
                                          (updated\<lparr>input_buffer := input_buffer primary\<rparr>) m2
                               in case lock_buf (output_buffer updated) m3 of
                                    None \<Rightarrow> (Hangs, m3)
                                  | Some m4 \<Rightarrow>
                                      (case lock_buf (output_buffer primary) m4 of
                                         None \<Rightarrow> (Hangs, m4)
                                       | Some m5 \<Rightarrow>
                                           (Returns (Ok ()),
                                            unlock_buf (output_buffer updated)
                                              (unlock_buf (output_buffer primary)
                                                 (set_buf (output_buffer updated)
                                                    (bufs m5 ! output_buffer primary) m5))))))
                     | (_, m2) \<Rightarrow> (Hangs, m2)))))"

section \<open>Splitting\<close>

text \<open>
  The three reads of the output buffer each take and release its lock; \<open>peek_buf\<close> is one of them.
\<close>

definition peek_buf :: "nat \<Rightarrow> mux \<Rightarrow> bytes option" where
  "peek_buf a m = map_option (\<lambda>m1. bufs m1 ! a) (lock_buf a m)"

definition split_session ::
  "(u32 \<Rightarrow> nat) \<Rightarrow> u32 \<Rightarrow> mux \<Rightarrow> (u32 \<times> u32, napi_error) result flow \<times> mux" where
  "split_session h sid m =
     (case fmlookup (sessions m) sid of
        None \<Rightarrow> (Returns (Err (not_found sid)), m)
      | Some ses \<Rightarrow>
          (let input_half_size = length (input_buffer ses) div 2
           in case peek_buf (output_buffer ses) m of
                None \<Rightarrow> (Hangs, m)
              | Some output \<Rightarrow>
                  (let output_half_size = length output div 2;
                       input1 = take input_half_size (input_buffer ses);
                       input2 = drop input_half_size (input_buffer ses);
                       output1 = take output_half_size output;
                       output2 = drop output_half_size output;
                       id1 = (case max_key h m of Some k \<Rightarrow> k | None \<Rightarrow> 0) + 1;
                       (a1, m1) = alloc output1 m;
                       m2 = insert_session id1
                              \<lparr>stream_id = id1, input_buffer = input1, output_buffer = a1\<rparr> m1;
                       id2 = id1 + 1;
                       (a2, m3) = alloc output2 m2;
                       m4 = insert_session id2
                              \<lparr>stream_id = id2, input_buffer = input2, output_buffer = a2\<rparr> m3
                   in (Returns (Ok (id1, id2)), drop_session sid m4))))"

section \<open>Operations on the process\<close>

definition mux_set_env ::
  "(io_error \<Rightarrow> string) \<Rightarrow> 's pty_iface \<Rightarrow> string \<Rightarrow> string \<Rightarrow> 's \<Rightarrow> (unit, napi_error) result \<times> 's" where
  "mux_set_env disp ifc key val s =
     (case if_set_env ifc key val s of (r, s1) \<Rightarrow> (map_err (convert_io_error disp) r, s1))"

definition mux_change_shell ::
  "(io_error \<Rightarrow> string) \<Rightarrow> 's pty_iface \<Rightarrow> string \<Rightarrow> 's \<Rightarrow> (unit, napi_error) result \<times> 's" where
  "mux_change_shell disp ifc shell_path s =
     (case if_write_data ifc (as_bytes (''exec '' @ shell_path @ [CHR 0x0A])) s of
        (r, s1) \<Rightarrow> (map_err (convert_io_error disp) (map_ok (\<lambda>_. ()) r), s1))"

definition mux_status ::
  "(io_error \<Rightarrow> string) \<Rightarrow> 's pty_iface \<Rightarrow> 's \<Rightarrow> (string, napi_error) result \<times> 's" where
  "mux_status disp ifc s =
     (case if_is_running ifc s of
        (Ok True, s1) \<Rightarrow> (Ok ''Running'', s1)
      | (Ok False, s1) \<Rightarrow> (Ok ''Terminated'', s1)
      | (Err e, s1) \<Rightarrow> (Err (convert_io_error disp e), s1))"

text \<open>The third argument is the maximum level of the process-wide logger.\<close>

definition mux_set_log_level ::
  "string \<Rightarrow> log_level \<Rightarrow> (unit, napi_error) result \<times> log_level" where
  "mux_set_log_level level lv =
     (case level_named (to_lowercase level) of
        Some l \<Rightarrow> (Ok (), l)
      | None \<Rightarrow> (Err (from_reason ''Invalid log level''), lv))"

definition close_all_sessions :: "mux \<Rightarrow> (unit, napi_error) result \<times> mux" where
  "close_all_sessions m = (Ok (), m\<lparr>sessions := fmempty\<rparr>)"

text \<open>
  \<open>shutdown_pty\<close> and \<open>force_shutdown_pty\<close>: the same steps with \<open>SIGTERM\<close> and \<open>SIGKILL\<close>.
\<close>

definition shutdown_with ::
  "i32 \<Rightarrow> (io_error \<Rightarrow> string) \<Rightarrow> 's pty_iface \<Rightarrow> mux \<Rightarrow> 's \<Rightarrow> (unit, napi_error) result \<times> mux \<times> 's" where
  "shutdown_with sig disp ifc m s =
     (case if_kill_process ifc sig s of
        (Err e, s1) \<Rightarrow> (Err (convert_io_error disp e), m, s1)
      | (Ok _, s1) \<Rightarrow>
          (case if_waitpid ifc WNOHANG s1 of
             (Err e, s2) \<Rightarrow> (Err (convert_io_error disp e), m, s2)
           | (Ok _, s2) \<Rightarrow>
               (case close_all_sessions m of
                  (Err e, m1) \<Rightarrow> (Err e, m1, s2)
                | (Ok _, m1) \<Rightarrow> (Ok (), m1\<lparr>shutdown_sent := True\<rparr>, s2))))"

definition mux_shutdown_pty ::
  "(io_error \<Rightarrow> string) \<Rightarrow> 's pty_iface \<Rightarrow> mux \<Rightarrow> 's \<Rightarrow> (unit, napi_error) result \<times> mux \<times> 's" where
  "mux_shutdown_pty = shutdown_with SIGTERM"

definition force_shutdown_pty ::
  "(io_error \<Rightarrow> string) \<Rightarrow> 's pty_iface \<Rightarrow> mux \<Rightarrow> 's \<Rightarrow> (unit, napi_error) result \<times> mux \<times> 's" where
  "force_shutdown_pty = shutdown_with SIGKILL"

definition mux_resize ::
  "(io_error \<Rightarrow> string) \<Rightarrow> 's pty_iface \<Rightarrow> u16 \<Rightarrow> u16 \<Rightarrow> 's \<Rightarrow> (unit, napi_error) result \<times> 's" where
  "mux_resize disp ifc cols rows s =
     (case if_resize ifc cols rows s of (r, s1) \<Rightarrow> (map_err (convert_io_error disp) r, s1))"

section \<open>Output of the process\<close>

text \<open>
  \<open>dispatch_output\<close> appends the data to the output buffer of every session, one future for each,
  joined in the order of the iteration.
\<close>

fun dispatch_entries :: "bytes \<Rightarrow> (u32 \<times> pty_session) list \<Rightarrow> mux \<Rightarrow> unit flow \<times> mux" where
  "dispatch_entries data [] m = (Returns (), m)"
| "dispatch_entries data ((k, ses) # es) m =
     (case lock_buf (output_buffer ses) m of
        None \<Rightarrow> (Hangs, m)
      | Some m1 \<Rightarrow>
          dispatch_entries data es
            (unlock_buf (output_buffer ses)
               (set_buf (output_buffer ses) (bufs m1 ! output_buffer ses @ data) m1)))"

definition dispatch_output ::
  "(u32 \<Rightarrow> nat) \<Rightarrow> bytes \<Rightarrow> mux \<Rightarrow> (unit, napi_error) result flow \<times> mux" where
  "dispatch_output h data m =
     (case dispatch_entries data (entries_in h (sessions m)) m of
        (Returns _, m1) \<Rightarrow> (Returns (Ok ()), m1)
      | (_, m1) \<Rightarrow> (Hangs, m1))"

definition read_and_dispatch ::
  "(u32 \<Rightarrow> nat) \<Rightarrow> (io_error \<Rightarrow> string) \<Rightarrow> 's pty_iface \<Rightarrow> mux \<Rightarrow> 's
     \<Rightarrow> (unit, napi_error) result flow \<times> mux \<times> 's" where
  "read_and_dispatch h disp ifc m s =
     (case if_read_data ifc 4096 s of
        (Ok data, s1) \<Rightarrow>
          (if data \<noteq> [] then
             (case dispatch_output h data m of (f, m1) \<Rightarrow> (f, m1, s1))
           else (Returns (Ok ()), m, s1))
      | (Err e, s1) \<Rightarrow>
          (if kind e = WouldBlock then (Returns (Ok ()), m, s1)
           else (Returns (Err (convert_io_error disp e)), m, s1)))"

definition list_sessions :: "(u32 \<Rightarrow> nat) \<Rightarrow> mux \<Rightarrow> (u32 list, napi_error) result" where
  "list_sessions h m = Ok (keys_in h (sessions m))"

definition read_from_pty ::
  "(io_error \<Rightarrow> string) \<Rightarrow> 's pty_iface \<Rightarrow> 's \<Rightarrow> (bytes, napi_error) result \<times> 's" where
  "read_from_pty disp ifc s =
     (case if_read_data ifc 4096 s of (r, s1) \<Rightarrow> (map_err (convert_io_error disp) r, s1))"

section \<open>The background read task\<close>

text \<open>
  The task that \<open>PtyMultiplexer::new\<close> spawns: each turn polls the process or takes the shutdown
  message, whichever the \<open>select!\<close> completes. The state is the retry delay in seconds, and
  \<open>None\<close> once the task has ended; a turn also returns the seconds slept.
\<close>

datatype poll = Polled "(unit, napi_error) result" | ShutdownReceived

fun task_turn :: "poll \<Rightarrow> nat \<Rightarrow> nat option \<times> nat" where
  "task_turn (Polled (Ok _)) retry_delay = (Some 1, 0)"
| "task_turn (Polled (Err e)) retry_delay = (Some (min (retry_delay * 2) 32), retry_delay)"
| "task_turn ShutdownReceived retry_delay = (None, 0)"

fun task_run :: "poll list \<Rightarrow> nat option \<Rightarrow> nat option \<times> nat list" where
  "task_run [] st = (st, [])"
| "task_run (p # ps) None = (None, [])"
| "task_run (p # ps) (Some d) =
     (case task_turn p d of
        (st, slept) \<Rightarrow> (case task_run ps st of (st', ss) \<Rightarrow> (st', slept # ss)))"

lemmas [mux_defs] =
  create_session_def send_to_session_def broadcast_def read_from_session_def
  read_all_sessions_def remove_session_def merge_sessions_def split_session_def
  close_all_sessions_def shutdown_with_def mux_shutdown_pty_def force_shutdown_pty_def
  dispatch_output_def read_and_dispatch_def list_sessions_def

end
