(* ===== verification/Session_Table.thy ===== *)
theory Session_Table
  imports Multiplexer
begin

text \<open>
  What the multiplexer promises: the invariant of its session table, the abstract table of inputs
  and outputs that its operations refine, the interface its clients rely on with its
  interpretation, the runs of a multiplexer, and the properties of merging and of the background
  read task.
\<close>

section \<open>Well-formed multiplexers\<close>

text \<open>
  A session is filed under its own id, its buffer exists and is no other session's, and between
  two calls no buffer is locked.
\<close>

definition mux_inv :: "mux \<Rightarrow> bool" where
  "mux_inv m \<longleftrightarrow>
     (\<forall>k ses. fmlookup (sessions m) k = Some ses \<longrightarrow>
        stream_id ses = k \<and> output_buffer ses < length (bufs m)) \<and>
     (\<forall>k k' ses ses'. fmlookup (sessions m) k = Some ses \<longrightarrow> fmlookup (sessions m) k' = Some ses' \<longrightarrow>
        output_buffer ses = output_buffer ses' \<longrightarrow> k = k') \<and>
     locked m = []"

text \<open>What a client sees of the table: for each session id, the input and the output so far.\<close>

definition view :: "mux \<Rightarrow> u32 \<Rightarrow> (bytes \<times> bytes) option" where
  "view m k = map_option (\<lambda>ses. (input_buffer ses, bufs m ! output_buffer ses)) (fmlookup (sessions m) k)"

lemma view_None_iff: "view m k = None \<longleftrightarrow> fmlookup (sessions m) k = None"
  by (simp add: view_def)

lemma view_SomeD:
  "view m k = Some (i, out) \<Longrightarrow> \<exists>ses. fmlookup (sessions m) k = Some ses \<and>
     input_buffer ses = i \<and> bufs m ! output_buffer ses = out"
  by (auto simp: view_def)

lemma dom_view: "dom (view m) = fset (fmdom (sessions m))"
  by (auto simp: view_def dom_def fmlookup_dom_iff)

lemma mux_invD:
  assumes "mux_inv m"
  shows "fmlookup (sessions m) k = Some ses \<Longrightarrow> stream_id ses = k"
    and "fmlookup (sessions m) k = Some ses \<Longrightarrow> output_buffer ses < length (bufs m)"
    and "fmlookup (sessions m) k = Some ses \<Longrightarrow> fmlookup (sessions m) k' = Some ses' \<Longrightarrow>
           output_buffer ses = output_buffer ses' \<longleftrightarrow> k = k'"
    and "locked m = []"
  using assms unfolding mux_inv_def by auto

lemma mux_sel_simps [simp]:
  "sessions (snd (alloc bs m)) = sessions m" "bufs (snd (alloc bs m)) = bufs m @ [bs]"
  "locked (snd (alloc bs m)) = locked m" "fst (alloc bs m) = length (bufs m)"
  "sessions (set_buf a bs m) = sessions m" "bufs (set_buf a bs m) = (bufs m)[a := bs]"
  "locked (set_buf a bs m) = locked m"
  "sessions (unlock_buf a m) = sessions m" "bufs (unlock_buf a m) = bufs m"
  "sessions (insert_session k ses m) = fmupd k ses (sessions m)"
  "bufs (insert_session k ses m) = bufs m" "locked (insert_session k ses m) = locked m"
  "sessions (drop_session k m) = fmdrop k (sessions m)"
  "bufs (drop_session k m) = bufs m" "locked (drop_session k m) = locked m"
  by (simp_all add: alloc_def set_buf_def unlock_buf_def insert_session_def drop_session_def)

lemma lock_buf_free [simp]:
  "locked m = [] \<Longrightarrow> lock_buf a m = Some (m\<lparr>locked := [a]\<rparr>)"
  by (simp add: lock_buf_def)

lemma unlock_last [simp]:
  "locked m = [] \<Longrightarrow> unlock_buf a (m\<lparr>locked := [a]\<rparr>) = m"
  "locked m = [] \<Longrightarrow> unlock_buf a (set_buf b bs (m\<lparr>locked := [a]\<rparr>)) = set_buf b bs m"
  by (simp_all add: unlock_buf_def set_buf_def)

text \<open>Adding a session with a new buffer, changing an input, and dropping a session.\<close>

lemma mux_inv_add:
  assumes "mux_inv m"
  shows "mux_inv (insert_session k \<lparr>stream_id = k, input_buffer = i, output_buffer = length (bufs m)\<rparr>
           (snd (alloc bs m)))"
proof -
  have fresh: "output_buffer ses \<noteq> length (bufs m) \<and> length (bufs m) \<noteq> output_buffer ses"
    if "fmlookup (sessions m) j = Some ses" for j ses
    using mux_invD(2) [OF assms that] by simp
  show ?thesis using assms unfolding mux_inv_def
    by (auto simp: less_Suc_eq split: if_splits dest: fresh)
qed

lemma view_add:
  assumes "mux_inv m"
  shows "view (insert_session k \<lparr>stream_id = k, input_buffer = i, output_buffer = length (bufs m)\<rparr>
           (snd (alloc bs m))) = (view m)(k \<mapsto> (i, bs))"
proof
  fix j
  show "view (insert_session k \<lparr>stream_id = k, input_buffer = i, output_buffer = length (bufs m)\<rparr>
           (snd (alloc bs m))) j = ((view m)(k \<mapsto> (i, bs))) j"
    using mux_invD(2) [OF assms, of j]
    by (cases "fmlookup (sessions m) j") (auto simp: view_def nth_append)
qed

lemma mux_inv_input:
  assumes "mux_inv m" "fmlookup (sessions m) k = Some ses"
  shows "mux_inv (insert_session k (ses\<lparr>input_buffer := i\<rparr>) m)"
  using assms unfolding mux_inv_def by auto

lemma view_input:
  assumes "fmlookup (sessions m) k = Some ses"
  shows "view (insert_session k (ses\<lparr>input_buffer := i\<rparr>) m) =
           (view m)(k \<mapsto> (i, bufs m ! output_buffer ses))"
  by (auto simp: view_def)

lemma mux_inv_drop [simp]: "mux_inv m \<Longrightarrow> mux_inv (drop_session k m)"
  unfolding mux_inv_def by (auto split: if_splits)

lemma view_drop [simp]: "view (drop_session k m) = (view m)(k := None)"
  by (auto simp: view_def)

lemma mux_inv_set_buf [simp]: "mux_inv m \<Longrightarrow> mux_inv (set_buf a bs m)"
  unfolding mux_inv_def by auto

lemma view_set_buf:
  assumes "mux_inv m" "fmlookup (sessions m) k = Some ses"
  shows "view (set_buf (output_buffer ses) bs m) = (view m)(k \<mapsto> (input_buffer ses, bs))"
proof
  fix j
  show "view (set_buf (output_buffer ses) bs m) j = ((view m)(k \<mapsto> (input_buffer ses, bs))) j"
    using mux_invD(3) [OF assms(1,2), of j] mux_invD(2) [OF assms] assms(2)
    by (cases "fmlookup (sessions m) j") (auto simp: view_def nth_list_update)
qed

section \<open>The operations refine the table of inputs and outputs\<close>

lemma max_key_None_iff: "max_key h m = None \<longleftrightarrow> view m = Map.empty"
proof -
  have "view m = Map.empty \<longleftrightarrow> keys_in h (sessions m) = []"
    using dom_view [of m] set_keys_in [of h "sessions m"]
    by (metis dom_eq_empty_conv set_empty)
  then show ?thesis by (simp add: max_key_def del: keys_in_Nil_iff split: list.splits)
qed

lemma max_key_Some:
  assumes "max_key h m = Some k"
  shows "k \<in> dom (view m)" "j \<in> dom (view m) \<Longrightarrow> j \<le> k"
proof -
  from assms obtain x xs where ks: "keys_in h (sessions m) = x # xs" and k: "k = fold max xs x"
    by (auto simp: max_key_def split: list.splits)
  have d: "dom (view m) = insert x (set xs)"
    using ks by (metis dom_view set_keys_in list.simps(15))
  show "k \<in> dom (view m)" using d k fold_max_in by blast
  show "j \<in> dom (view m) \<Longrightarrow> j \<le> k" using d k fold_max_upper by blast
qed

text \<open>The id a new session gets: one more than the largest, with the wrap at 32 bits.\<close>

definition next_id :: "(u32 \<Rightarrow> nat) \<Rightarrow> mux \<Rightarrow> u32" where
  "next_id h m = (case max_key h m of Some k \<Rightarrow> k | None \<Rightarrow> 0) + 1"

lemma word_less_Suc:
  fixes k :: "'a::len word"
  assumes "k \<noteq> - 1"
  shows "k < k + 1"
proof -
  have "1 + k \<noteq> 0" using assms max_word_wrap [of k] by (auto simp: add.commute)
  then show ?thesis using unatSuc [of k] by (simp add: word_less_nat_alt add.commute)
qed

lemma next_id_fresh:
  assumes "- 1 \<notin> dom (view m)"
  shows "next_id h m \<notin> dom (view m) \<and> next_id h m \<noteq> 0 \<and> (\<forall>k \<in> dom (view m). k < next_id h m)"
proof (cases "max_key h m")
  case None
  moreover have "dom (view m) = {}" using None by (simp add: max_key_None_iff)
  ultimately show ?thesis by (simp add: next_id_def)
next
  case (Some k)
  then have "k \<noteq> - 1" using max_key_Some(1) [OF Some] assms by blast
  then have lt: "k < k + 1" by (rule word_less_Suc)
  then have all: "\<forall>j \<in> dom (view m). j < k + 1"
    using max_key_Some(2) [OF Some] by (meson le_less_trans)
  then have "k + 1 \<notin> dom (view m)" by blast
  moreover have "k + 1 \<noteq> 0" using lt by auto
  ultimately show ?thesis using all Some by (simp add: next_id_def)
qed

lemma create_session_eq:
  "create_session h m =
     (Ok (next_id h m),
      insert_session (next_id h m)
        \<lparr>stream_id = next_id h m, input_buffer = [], output_buffer = length (bufs m)\<rparr> (snd (alloc [] m)))"
  by (simp add: create_session_def next_id_def Let_def alloc_def split: option.splits)

lemma create_session_refines:
  assumes "mux_inv m"
  shows "fst (create_session h m) = Ok (next_id h m)"
    and "view (snd (create_session h m)) = (view m)(next_id h m \<mapsto> ([], []))"
    and "mux_inv (snd (create_session h m))"
  using view_add [OF assms] mux_inv_add [OF assms] by (simp_all add: create_session_eq)

lemma send_to_session_refines:
  assumes "mux_inv m" "send_to_session disp ifc sid data m s = (r, m', s')"
  shows "mux_inv m'"
    and "view m' = (case view m sid of Some (i, out) \<Rightarrow> (view m)(sid \<mapsto> (i @ data, out)) | None \<Rightarrow> view m)"
proof -
  show "mux_inv m'"
    using assms mux_inv_input [OF assms(1)]
    by (auto simp: send_to_session_def Let_def split: option.splits prod.splits)
  show "view m' = (case view m sid of Some (i, out) \<Rightarrow> (view m)(sid \<mapsto> (i @ data, out)) | None \<Rightarrow> view m)"
  proof (cases "fmlookup (sessions m) sid")
    case None
    then show ?thesis using assms(2) by (simp add: send_to_session_def view_def)
  next
    case (Some ses)
    then have "m' = insert_session sid (ses\<lparr>input_buffer := input_buffer ses @ data\<rparr>) m"
      using assms(2) by (simp add: send_to_session_def Let_def split: prod.splits)
    then show ?thesis using view_input [OF Some] Some by (simp add: view_def)
  qed
qed

lemma send_to_session_result:
  "send_to_session disp ifc sid data m s =
     (case view m sid of
        None \<Rightarrow> (Err (not_found sid), m, s)
      | Some _ \<Rightarrow> (map_err (convert_io_error disp) (map_ok (\<lambda>_. ()) (fst (if_write_data ifc data s))),
                   fst (snd (send_to_session disp ifc sid data m s)), snd (if_write_data ifc data s)))"
  by (auto simp: send_to_session_def view_def Let_def split: option.splits prod.splits)

lemma broadcast_refines:
  assumes "mux_inv m" "broadcast disp ifc data m s = (r, m', s')"
  shows "mux_inv m'" and "view m' k = map_option (\<lambda>(i, out). (i @ data, out)) (view m k)"
proof -
  have m': "m' = m\<lparr>sessions := fmmap (\<lambda>ses. ses\<lparr>input_buffer := input_buffer ses @ data\<rparr>) (sessions m)\<rparr>"
    using assms(2) by (auto simp: broadcast_def Let_def split: prod.splits)
  show "mux_inv m'" using assms(1) unfolding m' mux_inv_def by auto
  show "view m' k = map_option (\<lambda>(i, out). (i @ data, out)) (view m k)"
    unfolding m' view_def by (cases "fmlookup (sessions m) k") auto
qed

lemma read_from_session_refines:
  assumes "mux_inv m" "read_from_session sid m = (r, m')"
  shows "mux_inv m'"
    and "r = (case view m sid of Some (i, out) \<Rightarrow> Returns (Ok out) | None \<Rightarrow> Returns (Err (not_found sid)))"
    and "view m' = (case view m sid of Some (i, out) \<Rightarrow> (view m)(sid \<mapsto> (i, [])) | None \<Rightarrow> view m)"
proof -
  note free = mux_invD(4) [OF assms(1)]
  show "mux_inv m'"
    using assms free by (auto simp: read_from_session_def Let_def split: option.splits)
  show "r = (case view m sid of Some (i, out) \<Rightarrow> Returns (Ok out) | None \<Rightarrow> Returns (Err (not_found sid)))"
    using assms free by (auto simp: read_from_session_def view_def Let_def split: option.splits)
  show "view m' = (case view m sid of Some (i, out) \<Rightarrow> (view m)(sid \<mapsto> (i, [])) | None \<Rightarrow> view m)"
  proof (cases "fmlookup (sessions m) sid")
    case None
    then show ?thesis using assms(2) by (simp add: read_from_session_def view_def)
  next
    case (Some ses)
    then have "m' = set_buf (output_buffer ses) [] m"
      using assms(2) free by (auto simp: read_from_session_def Let_def)
    then show ?thesis using view_set_buf [OF assms(1) Some, of "[]"] Some by (simp add: view_def)
  qed
qed

lemma read_entries_free:
  "locked m = [] \<Longrightarrow> read_entries es m =
     (Returns (map (\<lambda>(k, ses). \<lparr>sd_session_id = k, sd_data = bufs m ! output_buffer ses\<rparr>) es), m)"
  by (induction es) (auto simp: Let_def)

lemma read_all_sessions_eq:
  assumes "mux_inv m"
  shows "read_all_sessions h m =
    (Returns (Ok (map (\<lambda>k. \<lparr>sd_session_id = k, sd_data = snd (the (view m k))\<rparr>) (keys_in h (sessions m)))), m)"
proof -
  have "map (\<lambda>(k, ses). \<lparr>sd_session_id = k, sd_data = bufs m ! output_buffer ses\<rparr>) (entries_in h (sessions m))
      = map (\<lambda>k. \<lparr>sd_session_id = k, sd_data = snd (the (view m k))\<rparr>) (keys_in h (sessions m))"
    by (auto simp: entries_in_def view_def fmlookup_dom_iff)
  then show ?thesis
    by (simp add: read_all_sessions_def read_entries_free [OF mux_invD(4) [OF assms]])
qed

lemma remove_session_refines:
  assumes "mux_inv m" "remove_session sid m = (r, m')"
  shows "mux_inv m'" and "view m' = (view m)(sid := None)"
    and "r = (if view m sid = None then Err (not_found sid) else Ok ())"
  using assms by (auto simp: remove_session_def view_None_iff fun_eq_iff split: option.splits)

lemma close_all_sessions_refines:
  assumes "mux_inv m"
  shows "mux_inv (snd (close_all_sessions m))" and "view (snd (close_all_sessions m)) = Map.empty"
  using assms by (auto simp: close_all_sessions_def mux_inv_def view_def fun_eq_iff)

lemma split_session_refines:
  assumes "mux_inv m" "view m sid = Some (i, out)"
    and id1_def: "id1 = next_id h m"
  shows "\<exists>m'. split_session h sid m = (Returns (Ok (id1, id1 + 1)), m') \<and> mux_inv m' \<and>
     view m' = ((view m)(id1 \<mapsto> (take (length i div 2) i, take (length out div 2) out),
                         id1 + 1 \<mapsto> (drop (length i div 2) i, drop (length out div 2) out)))(sid := None)"
proof -
  from assms(2) obtain ses where ses: "fmlookup (sessions m) sid = Some ses"
    and io: "input_buffer ses = i" "bufs m ! output_buffer ses = out"
    using view_SomeD by blast
  define m2 where "m2 = insert_session id1 \<lparr>stream_id = id1, input_buffer = take (length i div 2) i,
      output_buffer = length (bufs m)\<rparr> (snd (alloc (take (length out div 2) out) m))"
  define m4 where "m4 = insert_session (id1 + 1) \<lparr>stream_id = id1 + 1,
      input_buffer = drop (length i div 2) i, output_buffer = length (bufs m2)\<rparr>
      (snd (alloc (drop (length out div 2) out) m2))"
  have inv2: "mux_inv m2" and inv4: "mux_inv m4"
    unfolding m2_def m4_def by (intro mux_inv_add assms(1))+
  have view4: "view m4 = (view m)(id1 \<mapsto> (take (length i div 2) i, take (length out div 2) out),
      id1 + 1 \<mapsto> (drop (length i div 2) i, drop (length out div 2) out))"
    unfolding m4_def view_add [OF inv2] unfolding m2_def view_add [OF assms(1)] ..
  have "split_session h sid m = (Returns (Ok (id1, id1 + 1)), drop_session sid m4)"
    using ses io mux_invD(4) [OF assms(1)]
    by (simp add: split_session_def peek_buf_def Let_def m4_def m2_def id1_def next_id_def
        prod.case_eq_if)
  then show ?thesis using inv4 view4 by simp
qed

lemma split_session_none:
  "view m sid = None \<Longrightarrow> split_session h sid m = (Returns (Err (not_found sid)), m)"
  by (simp add: split_session_def view_None_iff)

text \<open>A fold over the entries of distinct buffers appends to every output once.\<close>

lemma dispatch_entries_free:
  assumes "mux_inv m" "set es \<subseteq> {(k, ses). fmlookup (sessions m) k = Some ses}" "distinct (map fst es)"
  shows "\<exists>m'. dispatch_entries data es m = (Returns (), m') \<and> mux_inv m' \<and> sessions m' = sessions m \<and>
     view m' = (\<lambda>k. if k \<in> fst ` set es then map_option (\<lambda>(i, out). (i, out @ data)) (view m k)
                    else view m k)"
  using assms
proof (induction es arbitrary: m)
  case Nil
  then show ?case by simp
next
  case (Cons e es)
  obtain k ses where e: "e = (k, ses)" by fastforce
  have ses: "fmlookup (sessions m) k = Some ses" using Cons.prems(2) e by auto
  define m1 where "m1 = set_buf (output_buffer ses) (bufs m ! output_buffer ses @ data) m"
  have v1: "view m1 = (view m)(k \<mapsto> (input_buffer ses, bufs m ! output_buffer ses @ data))"
    unfolding m1_def by (rule view_set_buf [OF Cons.prems(1) ses])
  have "mux_inv m1" "sessions m1 = sessions m"
    unfolding m1_def using Cons.prems(1) by auto
  with Cons.prems(2,3) e Cons.IH [of m1] obtain m' where
    m': "dispatch_entries data es m1 = (Returns (), m')" "mux_inv m'" "sessions m' = sessions m"
      "view m' = (\<lambda>j. if j \<in> fst ` set es then map_option (\<lambda>(i, out). (i, out @ data)) (view m1 j)
                     else view m1 j)"
    by auto
  have "dispatch_entries data (e # es) m = (Returns (), m')"
    using m'(1) mux_invD(4) [OF Cons.prems(1)] by (simp add: e m1_def)
  moreover have "k \<notin> fst ` set es" using Cons.prems(3) e by simp
  moreover have "view m k = Some (input_buffer ses, bufs m ! output_buffer ses)"
    using ses by (simp add: view_def)
  ultimately show ?case using m' v1 e by (auto simp: fun_eq_iff)
qed

lemma dispatch_output_refines:
  assumes "mux_inv m"
  shows "\<exists>m'. dispatch_output h data m = (Returns (Ok ()), m') \<and> mux_inv m' \<and>
     view m' = (\<lambda>k. map_option (\<lambda>(i, out). (i, out @ data)) (view m k))"
proof -
  have es: "set (entries_in h (sessions m)) \<subseteq> {(k, ses). fmlookup (sessions m) k = Some ses}"
    by (simp add: set_entries_in)
  have d: "distinct (map fst (entries_in h (sessions m)))" by simp
  have f: "k \<in> fst ` set (entries_in h (sessions m)) \<longleftrightarrow> view m k \<noteq> None" for k
    by (force simp: set_entries_in view_def)
  have g: "(\<lambda>k. if view m k \<noteq> None then map_option f (view m k) else view m k)
         = (\<lambda>k. map_option f (view m k))" for f :: "bytes \<times> bytes \<Rightarrow> bytes \<times> bytes"
  proof
    fix k
    show "(if view m k \<noteq> None then map_option f (view m k) else view m k) = map_option f (view m k)"
      by (cases "view m k") simp_all
  qed
  from dispatch_entries_free [OF assms es d, of data] show ?thesis
    unfolding dispatch_output_def f g by auto
qed

section \<open>Merging never succeeds\<close>

lemma take_sessions_props:
  "take_sessions ks m = (es, m') \<Longrightarrow>
     bufs m' = bufs m \<and> locked m' = locked m \<and>
     (\<forall>k. fmlookup (sessions m') k = (if k \<in> set ks then None else fmlookup (sessions m) k)) \<and>
     set es = {(k, ses). k \<in> set ks \<and> fmlookup (sessions m) k = Some ses} \<and>
     distinct (map fst es)"
proof (induction ks arbitrary: m es m')
  case Nil
  then show ?case by auto
next
  case (Cons k ks)
  show ?case
  proof (cases "fmlookup (sessions m) k")
    case None
    then show ?thesis using Cons.IH [of m es m'] Cons.prems by auto
  next
    case (Some ses)
    with Cons.prems obtain es' where es: "es = (k, ses) # es'" "take_sessions ks (drop_session k m) = (es', m')"
      by (auto split: prod.splits)
    from Cons.IH [OF es(2)] Some show ?thesis
      unfolding es(1) by (auto split: if_splits)
  qed
qed

lemma mux_inv_take_sessions:
  assumes "mux_inv m" "take_sessions ks m = (es, m')"
  shows "mux_inv m'"
  using assms(1) take_sessions_props [OF assms(2)] unfolding mux_inv_def
  by (auto split: if_splits)

text \<open>
  If none of the merged sessions shares the primary's buffer, the loop appends their outputs to it.
\<close>

lemma merge_loop_step:
  assumes "locked m = []" "output_buffer ses \<noteq> output_buffer primary"
  shows "merge_loop primary ((k, ses) # es) m = merge_loop primary es
    (set_buf (output_buffer primary) (bufs m ! output_buffer primary @ bufs m ! output_buffer ses) m)"
  using assms by (cases m) (simp add: Let_def lock_buf_def unlock_buf_def set_buf_def)

lemma merge_loop_free:
  assumes "locked m = []" "\<forall>(k, ses) \<in> set es. output_buffer ses \<noteq> output_buffer primary"
    "output_buffer primary < length (bufs m)"
  shows "merge_loop primary es m =
    (Returns (), set_buf (output_buffer primary)
       (bufs m ! output_buffer primary @ concat (map (\<lambda>(k, ses). bufs m ! output_buffer ses) es)) m)"
  using assms
proof (induction es arbitrary: m)
  case Nil
  then show ?case by (simp add: set_buf_def)
next
  case (Cons e es)
  obtain k ses where e: "e = (k, ses)" by fastforce
  let ?p = "output_buffer primary" and ?b = "output_buffer ses"
  define m1 where "m1 = set_buf ?p (bufs m ! ?p @ bufs m ! ?b) m"
  have ne: "?b \<noteq> ?p" using Cons.prems(2) e by simp
  have loop: "merge_loop primary (e # es) m = merge_loop primary es m1"
    using merge_loop_step [OF Cons.prems(1) ne] by (simp add: e m1_def)
  have same: "map (\<lambda>(k, ses). bufs m1 ! output_buffer ses) es = map (\<lambda>(k, ses). bufs m ! output_buffer ses) es"
    using Cons.prems(2) by (auto simp: m1_def)
  have "merge_loop primary es m1 = (Returns (), set_buf ?p
       (bufs m1 ! ?p @ concat (map (\<lambda>(k, ses). bufs m1 ! output_buffer ses) es)) m1)"
    using Cons.prems by (intro Cons.IH) (auto simp: m1_def)
  also have "\<dots> = (Returns (), set_buf ?p
       (bufs m ! ?p @ concat (map (\<lambda>(k, ses). bufs m ! output_buffer ses) (e # es))) m)"
    unfolding same using Cons.prems(3) by (simp add: e m1_def set_buf_def)
  finally show ?case using loop by simp
qed

lemma merge_loop_self:
  assumes "locked m = []" "(k, primary) \<in> set es"
    "\<forall>(k, ses) \<in> set es. output_buffer ses < length (bufs m)"
  shows "fst (merge_loop primary es m) = Hangs"
  using assms
proof (induction es arbitrary: m)
  case Nil
  then show ?case by simp
next
  case (Cons e es)
  obtain j ses where e: "e = (j, ses)" by fastforce
  show ?case
  proof (cases "output_buffer ses = output_buffer primary")
    case True
    then show ?thesis using Cons.prems(1) by (simp add: e Let_def lock_buf_def)
  next
    case False
    define m1 where "m1 = set_buf (output_buffer primary)
       (bufs m ! output_buffer primary @ bufs m ! output_buffer ses) m"
    have "merge_loop primary (e # es) m = merge_loop primary es m1"
      using merge_loop_step [OF Cons.prems(1) False] by (simp add: e m1_def)
    moreover have "(k, primary) \<in> set es" using Cons.prems(2) False e by auto
    then have "fst (merge_loop primary es m1) = Hangs"
      using Cons.prems by (intro Cons.IH) (auto simp: m1_def)
    ultimately show ?thesis by simp
  qed
qed

lemma merge_sessions_hangs:
  assumes "mux_inv m" "fmlookup (sessions m) k = Some primary"
  shows "fst (merge_sessions (k # ks) m) = Hangs"
proof -
  obtain es m1 where t: "take_sessions ks m = (es, m1)" by fastforce
  note props = take_sessions_props [OF t]
  have free: "locked m1 = []" using props mux_invD(4) [OF assms(1)] by simp
  have bnd: "\<forall>(k, ses) \<in> set es. output_buffer ses < length (bufs m1)"
    using props mux_invD(2) [OF assms(1)] by fastforce
  show ?thesis
  proof (cases "k \<in> fst ` set es")
    case True
    then have "(k, primary) \<in> set es" using props assms(2) by force
    then have "fst (merge_loop primary es m1) = Hangs" by (rule merge_loop_self [OF free _ bnd])
    then show ?thesis
      by (auto simp: merge_sessions_def assms(2) t split: prod.splits flow.splits)
  next
    case False
    then have "\<forall>(j, ses) \<in> set es. output_buffer ses \<noteq> output_buffer primary"
      using props mux_invD(3) [OF assms] by force
    moreover have "output_buffer primary < length (bufs m1)"
      using props mux_invD(2) [OF assms] by simp
    ultimately obtain bs where loop: "merge_loop primary es m1
        = (Returns (), set_buf (output_buffer primary) bs m1)"
      using merge_loop_free [OF free] by blast
    have "k \<notin> set ks" using False props assms(2) by force
    then have "fmlookup (sessions m1) k = Some primary" using props assms(2) by simp
    then show ?thesis
      by (simp add: merge_sessions_def assms(2) t loop Let_def lock_buf_def free)
  qed
qed

lemma take_sessions_fst:
  "distinct ks \<Longrightarrow> take_sessions ks m = (es, m') \<Longrightarrow> map fst es = filter (\<lambda>j. j \<in> dom (view m)) ks"
proof (induction ks arbitrary: m es m')
  case Nil
  then show ?case by simp
next
  case (Cons k ks)
  show ?case
  proof (cases "fmlookup (sessions m) k")
    case None
    then show ?thesis using Cons.IH [of m es m'] Cons.prems by (auto simp: view_def)
  next
    case (Some ses)
    with Cons.prems obtain es' where es: "es = (k, ses) # es'" "take_sessions ks (drop_session k m) = (es', m')"
      by (auto split: prod.splits)
    have "filter (\<lambda>j. j \<in> dom (view (drop_session k m))) ks = filter (\<lambda>j. j \<in> dom (view m)) ks"
      using Cons.prems(1) by (intro filter_cong) auto
    moreover have "map fst es' = filter (\<lambda>j. j \<in> dom (view (drop_session k m))) ks"
      by (rule Cons.IH [OF _ es(2)]) (use Cons.prems(1) in simp)
    ultimately have "map fst es = k # filter (\<lambda>j. j \<in> dom (view m)) ks"
      by (simp only: es(1) list.map fst_conv)
    moreover have "k \<in> dom (view m)" using Some by (simp add: view_def domI)
    ultimately show ?thesis by simp
  qed
qed

text \<open>
  What the hung call leaves behind: the merged sessions are gone, their outputs are appended to
  the primary's, their inputs are lost, and the primary's buffer stays locked.
\<close>

lemma merge_sessions_hung_state:
  assumes "mux_inv m" "view m k = Some (i, out)" "k \<notin> set ks" "distinct ks"
  shows "\<exists>m'. merge_sessions (k # ks) m = (Hangs, m') \<and> locked m' \<noteq> [] \<and>
     view m' = (\<lambda>j. if j \<in> set ks then None else view m j)
       (k \<mapsto> (i, out @ concat (map (\<lambda>j. snd (the (view m j))) (filter (\<lambda>j. j \<in> dom (view m)) ks))))"
proof -
  from assms(2) obtain primary where p: "fmlookup (sessions m) k = Some primary"
    and io: "input_buffer primary = i" "bufs m ! output_buffer primary = out"
    using view_SomeD by blast
  obtain es m1 where t: "take_sessions ks m = (es, m1)" by fastforce
  note props = take_sessions_props [OF t]
  have free: "locked m1 = []" using props mux_invD(4) [OF assms(1)] by simp
  have ne: "\<forall>(j, ses) \<in> set es. output_buffer ses \<noteq> output_buffer primary"
    using props mux_invD(3) [OF assms(1) p] assms(3) by force
  have bnd: "output_buffer primary < length (bufs m1)"
    using props mux_invD(2) [OF assms(1) p] by simp
  let ?c = "concat (map (\<lambda>(k, ses). bufs m1 ! output_buffer ses) es)"
  define m2 where "m2 = set_buf (output_buffer primary) (out @ ?c) m1"
  have loop: "merge_loop primary es m1 = (Returns (), m2)"
    using merge_loop_free [OF free ne bnd] props io by (simp add: m2_def)
  have p1: "fmlookup (sessions m1) k = Some primary" using props p assms(3) by simp
  have inv1: "mux_inv m1" by (rule mux_inv_take_sessions [OF assms(1) t])
  have v1: "view m1 = (\<lambda>j. if j \<in> set ks then None else view m j)"
    using props by (auto simp: view_def fun_eq_iff)
  have v2: "view m2 = (view m1)(k \<mapsto> (i, out @ ?c))"
    unfolding m2_def using view_set_buf [OF inv1 p1] io by simp
  have "map (\<lambda>(k, ses). bufs m1 ! output_buffer ses) es = map (\<lambda>j. snd (the (view m j))) (map fst es)"
    using props by (auto simp: view_def)
  then have c: "?c = concat (map (\<lambda>j. snd (the (view m j))) (filter (\<lambda>j. j \<in> dom (view m)) ks))"
    using take_sessions_fst [OF assms(4) t] by simp
  define m3 where "m3 = insert_session k primary m2"
  have l2: "locked m2 = []" "fmlookup (sessions m2) k = Some primary"
    by (simp_all add: m2_def free p1)
  then have "merge_sessions (k # ks) m = (Hangs, m3\<lparr>locked := [output_buffer primary]\<rparr>)"
    by (simp add: merge_sessions_def p t loop Let_def lock_buf_def m3_def insert_session_def)
  moreover have "view (m3\<lparr>locked := [output_buffer primary]\<rparr>) = view m2"
    using l2 by (auto simp: view_def m3_def fun_eq_iff)
  ultimately show ?thesis using v1 v2 c by auto
qed

lemma merge_sessions_none:
  "merge_sessions [] m = (Returns (Err (from_reason ''No session IDs provided for merging'')), m)"
  "view m k = None \<Longrightarrow> merge_sessions (k # ks) m =
     (Returns (Err (from_reason (''Primary session ID '' @ show_u32 k @ '' not found''))), m)"
  by (simp_all add: merge_sessions_def view_None_iff)

section \<open>The session table as an interface\<close>

text \<open>
  What the clients of the multiplexer rely on: a table of input and output per session, in which
  output is delivered to every session, read once, and never moved between sessions.
\<close>

locale session_table =
  fixes inv :: "'m \<Rightarrow> bool"
    and tab :: "'m \<Rightarrow> u32 \<Rightarrow> (bytes \<times> bytes) option"
    and create :: "'m \<Rightarrow> (u32, napi_error) result \<times> 'm"
    and read :: "u32 \<Rightarrow> 'm \<Rightarrow> (bytes, napi_error) result flow \<times> 'm"
    and dispatch :: "bytes \<Rightarrow> 'm \<Rightarrow> (unit, napi_error) result flow \<times> 'm"
    and remove :: "u32 \<Rightarrow> 'm \<Rightarrow> (unit, napi_error) result \<times> 'm"
  assumes create: "inv m \<Longrightarrow> \<exists>k m'. create m = (Ok k, m') \<and> inv m' \<and> tab m' = (tab m)(k \<mapsto> ([], []))"
    and read_Some: "inv m \<Longrightarrow> tab m k = Some (i, out) \<Longrightarrow>
      \<exists>m'. read k m = (Returns (Ok out), m') \<and> inv m' \<and> tab m' = (tab m)(k \<mapsto> (i, []))"
    and dispatch: "inv m \<Longrightarrow> \<exists>m'. dispatch d m = (Returns (Ok ()), m') \<and> inv m' \<and>
      tab m' = (\<lambda>k. map_option (\<lambda>(i, out). (i, out @ d)) (tab m k))"
    and remove: "inv m \<Longrightarrow> remove k m = (r, m') \<Longrightarrow> inv m' \<and> tab m' = (tab m)(k := None)"
begin

definition deliver :: "bytes list \<Rightarrow> 'm \<Rightarrow> 'm" where
  "deliver ds m = fold (\<lambda>d m. snd (dispatch d m)) ds m"

lemma deliver_props:
  "inv m \<Longrightarrow> inv (deliver ds m) \<and>
     tab (deliver ds m) = (\<lambda>k. map_option (\<lambda>(i, out). (i, out @ concat ds)) (tab m k))"
proof (induction ds arbitrary: m)
  case Nil
  then show ?case by (simp add: deliver_def option.map_ident)
next
  case (Cons d ds)
  from dispatch [OF Cons.prems, of d] obtain m' where
    m': "dispatch d m = (Returns (Ok ()), m')" "inv m'"
      "tab m' = (\<lambda>k. map_option (\<lambda>(i, out). (i, out @ d)) (tab m k))" by blast
  have "deliver (d # ds) m = deliver ds m'" by (simp add: deliver_def m'(1))
  with Cons.IH [OF m'(2)] m'(3) show ?case
    by (auto simp: option.map_comp comp_def split_def)
qed

text \<open>A session reads, once and in order, all output delivered since its last read.\<close>

lemma read_after_deliver:
  assumes "inv m" "tab m k = Some (i, out)"
  shows "\<exists>m'. read k (deliver ds m) = (Returns (Ok (out @ concat ds)), m') \<and> inv m' \<and>
    fst (read k m') = Returns (Ok []) \<and>
    (\<forall>j. j \<noteq> k \<longrightarrow> tab m' j = map_option (\<lambda>(i, out). (i, out @ concat ds)) (tab m j))"
proof -
  note d = deliver_props [OF assms(1), of ds]
  then have "tab (deliver ds m) k = Some (i, out @ concat ds)" using assms(2) by simp
  from read_Some [OF _ this] d obtain m' where m': "read k (deliver ds m) = (Returns (Ok (out @ concat ds)), m')"
    "inv m'" "tab m' = (tab (deliver ds m))(k \<mapsto> (i, []))" by blast
  have "tab m' k = Some (i, [])" using m'(3) by simp
  from read_Some [OF m'(2) this] have "fst (read k m') = Returns (Ok [])" by auto
  then show ?thesis using m' d by auto
qed

text \<open>A session created now reads exactly what is delivered after its creation.\<close>

lemma read_new_session:
  assumes "inv m" "create m = (Ok k, m')"
  shows "fst (read k (deliver ds m')) = Returns (Ok (concat ds))"
proof -
  from create [OF assms(1)] assms(2) have "inv m'" "tab m' k = Some ([], [])" by auto
  from read_after_deliver [OF this, of ds] show ?thesis by auto
qed

end

interpretation mux_table: session_table mux_inv view "create_session h" read_from_session
  "dispatch_output h" remove_session for h
proof
  fix m :: mux and k :: u32 and i out d :: bytes and r m'
  assume m: "mux_inv m"
  show "\<exists>k m'. create_session h m = (Ok k, m') \<and> mux_inv m' \<and> view m' = (view m)(k \<mapsto> ([], []))"
    using create_session_refines [OF m] by (metis prod.collapse)
  show "\<exists>m'. read_from_session k m = (Returns (Ok out), m') \<and> mux_inv m' \<and>
      view m' = (view m)(k \<mapsto> (i, []))" if "view m k = Some (i, out)"
    using read_from_session_refines [OF m] that
    by (metis (no_types, lifting) case_prod_conv option.simps(5) prod.collapse)
  show "\<exists>m'. dispatch_output h d m = (Returns (Ok ()), m') \<and> mux_inv m' \<and>
      view m' = (\<lambda>k. map_option (\<lambda>(i, out). (i, out @ d)) (view m k))"
    by (rule dispatch_output_refines [OF m])
  show "mux_inv m' \<and> view m' = (view m)(k := None)" if "remove_session k m = (r, m')"
    using remove_session_refines [OF m that] by simp
qed

section \<open>Runs of the multiplexer\<close>

text \<open>
  The calls a client or the background task makes, with the state of the operating system. A call
  that returns is a step; a call that hangs is none.
\<close>

datatype mux_op = OCreate | OSend u32 bytes | OBroadcast bytes | ORead u32 | OReadAll
  | ORemove u32 | OMerge "u32 list" | OSplit u32 | OCloseAll | OPoll | OShutdown | OForce

fun finished :: "'a flow \<Rightarrow> unit flow" where
  "finished (Returns x) = Returns ()"
| "finished Panics = Panics"
| "finished Hangs = Hangs"
| "finished InChild = InChild"

fun mux_exec :: "(u32 \<Rightarrow> nat) \<Rightarrow> (io_error \<Rightarrow> string) \<Rightarrow> 's pty_iface \<Rightarrow> mux_op \<Rightarrow> mux \<Rightarrow> 's
    \<Rightarrow> unit flow \<times> mux \<times> 's" where
  "mux_exec h disp ifc OCreate m s = (case create_session h m of (r, m') \<Rightarrow> (Returns (), m', s))"
| "mux_exec h disp ifc (OSend k d) m s =
     (case send_to_session disp ifc k d m s of (r, m', s') \<Rightarrow> (Returns (), m', s'))"
| "mux_exec h disp ifc (OBroadcast d) m s =
     (case broadcast disp ifc d m s of (r, m', s') \<Rightarrow> (Returns (), m', s'))"
| "mux_exec h disp ifc (ORead k) m s = (case read_from_session k m of (f, m') \<Rightarrow> (finished f, m', s))"
| "mux_exec h disp ifc OReadAll m s = (case read_all_sessions h m of (f, m') \<Rightarrow> (finished f, m', s))"
| "mux_exec h disp ifc (ORemove k) m s = (case remove_session k m of (r, m') \<Rightarrow> (Returns (), m', s))"
| "mux_exec h disp ifc (OMerge ks) m s = (case merge_sessions ks m of (f, m') \<Rightarrow> (finished f, m', s))"
| "mux_exec h disp ifc (OSplit k) m s = (case split_session h k m of (f, m') \<Rightarrow> (finished f, m', s))"
| "mux_exec h disp ifc OCloseAll m s = (case close_all_sessions m of (r, m') \<Rightarrow> (Returns (), m', s))"
| "mux_exec h disp ifc OPoll m s =
     (case read_and_dispatch h disp ifc m s of (f, m', s') \<Rightarrow> (finished f, m', s'))"
| "mux_exec h disp ifc OShutdown m s =
     (case mux_shutdown_pty disp ifc m s of (r, m', s') \<Rightarrow> (Returns (), m', s'))"
| "mux_exec h disp ifc OForce m s =
     (case force_shutdown_pty disp ifc m s of (r, m', s') \<Rightarrow> (Returns (), m', s'))"

inductive mux_reach :: "(u32 \<Rightarrow> nat) \<Rightarrow> (io_error \<Rightarrow> string) \<Rightarrow> 's pty_iface \<Rightarrow> mux \<Rightarrow> 's \<Rightarrow> bool"
  for h disp ifc where
  start: "mux_reach h disp ifc new_mux s"
| step: "mux_reach h disp ifc m s \<Longrightarrow> mux_exec h disp ifc op m s = (Returns (), m', s')
    \<Longrightarrow> mux_reach h disp ifc m' s'"

lemma mux_inv_new [simp]: "mux_inv new_mux"
  by (simp add: mux_inv_def new_mux_def)

lemma finished_Returns_iff [simp]: "finished f = Returns u \<longleftrightarrow> (\<exists>x. f = Returns x)"
  by (cases f) auto

lemma merge_sessions_Returns:
  assumes "mux_inv m" "merge_sessions ks m = (Returns r, m')"
  shows "m' = m"
proof (cases ks)
  case Nil
  then show ?thesis using assms(2) merge_sessions_none(1) by simp
next
  case (Cons k js)
  show ?thesis
  proof (cases "fmlookup (sessions m) k")
    case None
    then show ?thesis using assms(2) Cons merge_sessions_none(2) [of m k js] by (simp add: view_None_iff)
  next
    case (Some primary)
    from merge_sessions_hangs [OF assms(1) Some, of js] assms(2) Cons show ?thesis by simp
  qed
qed

lemma split_session_inv:
  assumes "mux_inv m" "split_session h k m = (f, m')"
  shows "mux_inv m' \<and> (\<exists>r. f = Returns r)"
proof (cases "view m k")
  case None
  then show ?thesis using assms split_session_none [OF None, of h] by auto
next
  case (Some io)
  then obtain i out where "view m k = Some (i, out)" by (cases io) simp
  from split_session_refines [OF assms(1) this refl, of h] assms(2) show ?thesis by auto
qed

lemma read_and_dispatch_inv:
  assumes "mux_inv m" "read_and_dispatch h disp ifc m s = (f, m', s')"
  shows "mux_inv m' \<and> (\<exists>r. f = Returns r)"
proof -
  have "mux_inv m1 \<and> (\<exists>r. g = Returns r)" if "dispatch_output h data m = (g, m1)" for data g m1
    using dispatch_output_refines [OF assms(1), of h data] that by auto
  with assms show ?thesis
    by (auto simp: read_and_dispatch_def split: prod.splits result.splits if_splits)
qed

lemma shutdown_with_inv:
  "mux_inv m \<Longrightarrow> shutdown_with sig disp ifc m s = (r, m', s') \<Longrightarrow> mux_inv m'"
  by (auto simp: shutdown_with_def close_all_sessions_def mux_inv_def
      split: prod.splits result.splits)

lemma mux_exec_inv:
  assumes "mux_inv m" "mux_exec h disp ifc op m s = (Returns (), m', s')"
  shows "mux_inv m'"
proof (cases op)
  case OCreate
  then show ?thesis using assms create_session_refines(3) [OF assms(1), of h] by (auto split: prod.splits)
next
  case (OSend k d)
  then show ?thesis using assms send_to_session_refines(1) [OF assms(1)] by (auto split: prod.splits)
next
  case (OBroadcast d)
  then show ?thesis using assms broadcast_refines(1) [OF assms(1)] by (auto split: prod.splits)
next
  case (ORead k)
  then show ?thesis using assms read_from_session_refines(1) [OF assms(1)] by (auto split: prod.splits)
next
  case OReadAll
  then show ?thesis using assms read_all_sessions_eq [OF assms(1), of h] by (auto split: prod.splits)
next
  case (ORemove k)
  then show ?thesis using assms remove_session_refines(1) [OF assms(1)] by (auto split: prod.splits)
next
  case (OMerge ks)
  then show ?thesis using assms merge_sessions_Returns [OF assms(1)] by (auto split: prod.splits)
next
  case (OSplit k)
  then show ?thesis using assms split_session_inv [OF assms(1)] by (auto split: prod.splits)
next
  case OCloseAll
  then show ?thesis using assms close_all_sessions_refines(1) [OF assms(1)] by (auto split: prod.splits)
next
  case OPoll
  then obtain f where "read_and_dispatch h disp ifc m s = (f, m', s')"
    using assms(2) by (auto split: prod.splits)
  from read_and_dispatch_inv [OF assms(1) this] show ?thesis by simp
next
  case OShutdown
  then show ?thesis using assms shutdown_with_inv [OF assms(1)]
    by (auto simp: mux_shutdown_pty_def split: prod.splits)
next
  case OForce
  then show ?thesis using assms shutdown_with_inv [OF assms(1)]
    by (auto simp: force_shutdown_pty_def split: prod.splits)
qed

lemma mux_reach_inv: "mux_reach h disp ifc m s \<Longrightarrow> mux_inv m"
  by (induction rule: mux_reach.induct) (auto intro: mux_exec_inv)

text \<open>In a reachable state every call returns, except a merge whose first session exists.\<close>

lemma mux_exec_returns:
  assumes "mux_inv m" "\<And>k ks. op = OMerge (k # ks) \<Longrightarrow> view m k = None"
  shows "fst (mux_exec h disp ifc op m s) = Returns ()"
proof (cases op)
  case (ORead k)
  obtain r m' where "read_from_session k m = (r, m')" by fastforce
  with read_from_session_refines(2) [OF assms(1) this] ORead show ?thesis
    by (auto split: option.splits)
next
  case OReadAll
  then show ?thesis using read_all_sessions_eq [OF assms(1)] by simp
next
  case (OMerge ks)
  then show ?thesis using assms(2) merge_sessions_none by (cases ks) auto
next
  case (OSplit k)
  then show ?thesis using split_session_inv [OF assms(1)] by (auto split: prod.splits)
next
  case OPoll
  obtain f m' s' where r: "read_and_dispatch h disp ifc m s = (f, m', s')" by (metis prod_cases3)
  with read_and_dispatch_inv [OF assms(1) this] OPoll show ?thesis by auto
qed (simp_all add: split_def)

section \<open>The retry delay of the background read task\<close>

lemma task_run_errors:
  "d \<in> {1..32} \<Longrightarrow> snd (task_run (replicate n (Polled (Err e))) (Some d)) =
     map (\<lambda>i. min (d * 2 ^ i) 32) [0..<n]"
proof (induction n arbitrary: d)
  case 0
  then show ?case by simp
next
  case (Suc n)
  have "snd (task_run (replicate n (Polled (Err e))) (Some (min (d * 2) 32))) =
      map (\<lambda>i. min (min (d * 2) 32 * 2 ^ i) 32) [0..<n]"
    using Suc.prems by (intro Suc.IH) auto
  also have "\<dots> = map (\<lambda>i. min (d * 2 ^ Suc i) 32) [0..<n]"
  proof (intro map_cong refl)
    fix i
    show "min (min (d * 2) 32 * 2 ^ i) 32 = min (d * 2 ^ Suc i) (32::nat)"
    proof (cases "d * 2 \<le> 32")
      case True
      then show ?thesis by (simp add: mult.assoc)
    next
      case False
      have "d * 1 \<le> d * 2 ^ i" by (intro mult_le_mono) auto
      then have "16 \<le> d * 2 ^ i" using False by linarith
      then have "32 \<le> d * 2 ^ Suc i" by simp
      moreover have "min (d * 2) 32 = 32" using False by simp
      moreover have "(32::nat) * 1 \<le> 32 * 2 ^ i" by (intro mult_le_mono) auto
      ultimately show ?thesis by simp
    qed
  qed
  finally have "snd (task_run (replicate n (Polled (Err e))) (Some (min (d * 2) 32))) =
      map (\<lambda>i. min (d * 2 ^ Suc i) 32) [0..<n]" .
  moreover have "[0..<Suc n] = 0 # map Suc [0..<n]"
    by (metis map_Suc_upt upt_conv_Cons zero_less_Suc)
  ultimately show ?case using Suc.prems by (simp add: split_def comp_def)
qed

lemma task_turn_bound:
  "d \<in> {1..32} \<Longrightarrow> task_turn p d = (Some d', slept) \<Longrightarrow> d' \<in> {1..32} \<and> slept \<le> 32"
  by (cases "(p, d)" rule: task_turn.cases) auto

end
