(* ===== verification/Commands.thy ===== *)
theory Commands
  imports Pty_Prelude
begin

text \<open>
  \<open>src/pty/commands.rs\<close>: the commands the handle sends to the command-handler thread and the
  results it gets back. Each command of the source carries the \<open>oneshot\<close> sender its result is
  sent to; in the model a command is processed by a function that returns the result.
\<close>

text \<open>\<open>SerializableBytes\<close>: a byte vector; both \<open>From\<close> conversions copy the bytes.\<close>

datatype serializable_bytes = SerializableBytes bytes

fun as_slice :: "serializable_bytes \<Rightarrow> bytes" where
  "as_slice (SerializableBytes bs) = bs"

definition from_bytes :: "bytes \<Rightarrow> serializable_bytes" where
  "from_bytes bs = SerializableBytes bs"

definition into_bytes :: "serializable_bytes \<Rightarrow> bytes" where
  "into_bytes sb = as_slice sb"

datatype pty_command =
    Write bytes
  | Read
  | Resize u16 u16
  | Execute string
  | Close
  | ForceKill
  | KillProcess i32
  | WaitPid i32
  | CloseMasterFd
  | Broadcast bytes
  | ReadAll
  | ReadFromSession u32
  | ReadAllSessions
  | MergeSessions "u32 list"
  | SplitSession u32
  | ListSessions
  | SetEnv string string
  | ChangeShell string
  | Status
  | SetLogLevel string
  | ShutdownPty
  | CreateSession
  | RemoveSession u32
  | CloseAllSessions
  | SendToSession u32 bytes

datatype pty_result =
    Success string
  | Data serializable_bytes
  | Failure string

lemma as_slice_from_bytes [simp]: "as_slice (from_bytes bs) = bs"
  by (simp add: from_bytes_def)

lemma into_bytes_from_bytes [simp]: "into_bytes (from_bytes bs) = bs"
  by (simp add: into_bytes_def)

end
