(* ===== verification/Utf8.thy ===== *)
theory Utf8
  imports Pty_Prelude
begin

text \<open>
  \<open>String::from_utf8_lossy\<close> of the standard library, which the PTY renderer, the output
  handler, the command handler and the handle all apply to the bytes read from the terminal:
  valid UTF-8 is kept, each maximal invalid piece becomes one replacement character
  U+FFFD (bytes EF BF BD).
\<close>

unbundle bit_operations_syntax

definition is_cont :: "u8 \<Rightarrow> bool" where
  "is_cont b = (b AND 192 = 128)"

definition in_range :: "u8 \<Rightarrow> u8 \<Rightarrow> u8 \<Rightarrow> bool" where
  "in_range lo hi b = (lo \<le> b \<and> b \<le> hi)"

text \<open>\<open>core::str::utf8_char_width\<close>; 0 for a byte that starts no character.\<close>

definition char_width :: "u8 \<Rightarrow> nat" where
  "char_width b =
     (if b < 128 then 1
      else if in_range 194 223 b then 2
      else if in_range 224 239 b then 3
      else if in_range 240 244 b then 4
      else 0)"

definition second3 :: "u8 \<Rightarrow> u8 \<Rightarrow> bool" where
  "second3 a b =
     (if a = 224 then in_range 160 191 b
      else if a = 237 then in_range 128 159 b
      else in_range 128 191 b)"

definition second4 :: "u8 \<Rightarrow> u8 \<Rightarrow> bool" where
  "second4 a b =
     (if a = 240 then in_range 144 191 b
      else if a = 244 then in_range 128 143 b
      else in_range 128 191 b)"

text \<open>
  The byte at an index, 0 past the end (the \<open>safe_get\<close> of \<open>core::str::lossy\<close>).
\<close>

definition safe_get :: "bytes \<Rightarrow> nat \<Rightarrow> u8" where
  "safe_get bs i = (if i < length bs then bs ! i else 0)"

text \<open>
  One step on a nonempty input: whether its front is a valid character, and how many bytes the
  character, or the invalid piece, takes.
\<close>

definition front :: "bytes \<Rightarrow> bool \<times> nat" where
  "front bs =
     (let a = safe_get bs 0; b = safe_get bs 1; c = safe_get bs 2; d = safe_get bs 3
      in if char_width a = 1 then (True, 1)
         else if char_width a = 2 then (if is_cont b then (True, 2) else (False, 1))
         else if char_width a = 3 then
           (if \<not> second3 a b then (False, 1)
            else if \<not> is_cont c then (False, 2)
            else (True, 3))
         else if char_width a = 4 then
           (if \<not> second4 a b then (False, 1)
            else if \<not> is_cont c then (False, 2)
            else if \<not> is_cont d then (False, 3)
            else (True, 4))
         else (False, 1))"

lemma front_pos: "0 < snd (front bs)"
  by (simp add: front_def Let_def)

definition replacement :: bytes where
  "replacement = [239, 191, 189]"

function lossy :: "bytes \<Rightarrow> bytes" where
  "lossy bs =
     (if bs = [] then []
      else case front bs of
             (ok, n) \<Rightarrow> (if ok then take n bs else replacement) @ lossy (drop n bs))"
  by pat_completeness auto
termination
proof (relation "measure length")
  fix bs :: bytes and ok n
  assume "bs \<noteq> []" and "(ok, n) = front bs"
  moreover from this have "0 < n" using front_pos [of bs] by (metis snd_conv)
  ultimately show "(drop n bs, bs) \<in> measure length" by simp
qed simp

declare lossy.simps [simp del]

definition from_utf8_lossy :: "bytes \<Rightarrow> string" where
  "from_utf8_lossy bs = bytes_string (lossy bs)"

text \<open>Whether a byte sequence is valid UTF-8: the same walk, refusing an invalid piece.\<close>

function valid_utf8 :: "bytes \<Rightarrow> bool" where
  "valid_utf8 bs =
     (if bs = [] then True
      else case front bs of (ok, n) \<Rightarrow> ok \<and> valid_utf8 (drop n bs))"
  by pat_completeness auto
termination
proof (relation "measure length")
  fix bs :: bytes and ok n
  assume "bs \<noteq> []" and "(ok, n) = front bs"
  moreover from this have "0 < n" using front_pos [of bs] by (metis snd_conv)
  ultimately show "(drop n bs, bs) \<in> measure length" by simp
qed simp

declare valid_utf8.simps [simp del]

section \<open>Valid text is kept\<close>

lemma lossy_Nil [simp]: "lossy [] = []"
  by (subst lossy.simps) simp

lemma valid_utf8_Nil [simp]: "valid_utf8 []"
  by (subst valid_utf8.simps) simp

lemma lossy_valid: "valid_utf8 bs \<Longrightarrow> lossy bs = bs"
proof (induction bs rule: valid_utf8.induct)
  case (1 bs)
  show ?case
  proof (cases "bs = []")
    case True
    then show ?thesis by simp
  next
    case False
    obtain ok n where f: "front bs = (ok, n)" by (cases "front bs")
    from "1.prems" False f have ok: ok and v: "valid_utf8 (drop n bs)"
      by (subst (asm) valid_utf8.simps, simp)+
    from "1.IH" [OF False f [symmetric]] f v have "lossy (drop n bs) = drop n bs" by simp
    with False f ok show ?thesis by (subst lossy.simps) simp
  qed
qed

lemma front_ascii: "b < 128 \<Longrightarrow> front (b # bs) = (True, 1)"
  by (simp add: front_def safe_get_def char_width_def Let_def)

lemma lossy_ascii_Cons: "b < 128 \<Longrightarrow> lossy (b # bs) = b # lossy bs"
  by (subst lossy.simps) (simp add: front_ascii)

lemma valid_utf8_ascii_Cons: "b < 128 \<Longrightarrow> valid_utf8 (b # bs) = valid_utf8 bs"
  by (subst valid_utf8.simps) (simp add: front_ascii)

lemma valid_utf8_ascii: "list_all (\<lambda>b. b < 128) bs \<Longrightarrow> valid_utf8 bs"
  by (induction bs) (auto simp: valid_utf8_ascii_Cons)

lemma from_utf8_lossy_valid: "valid_utf8 bs \<Longrightarrow> as_bytes (from_utf8_lossy bs) = bs"
  by (simp add: from_utf8_lossy_def lossy_valid)

lemma from_utf8_lossy_single_high:
  assumes "128 \<le> b"
  shows "from_utf8_lossy [b] = bytes_string replacement"
proof -
  have "\<not> b < 128" using assms by simp
  moreover have "char_width b \<noteq> 1"
    using \<open>\<not> b < 128\<close> by (simp add: char_width_def)
  ultimately have "front [b] = (False, 1)"
    by (simp add: front_def safe_get_def Let_def is_cont_def second3_def second4_def in_range_def)
  then show ?thesis
    by (simp add: from_utf8_lossy_def lossy.simps [of "[b]"])
qed

section \<open>The result is always valid\<close>

lemma front_replacement: "front (replacement @ bs) = (True, 3)"
  by (simp add: front_def replacement_def safe_get_def char_width_def second3_def is_cont_def
      in_range_def Let_def)

lemma valid_utf8_replacement: "valid_utf8 (replacement @ bs) = valid_utf8 bs"
  by (subst valid_utf8.simps) (simp add: front_replacement, simp add: replacement_def)

lemma is_cont_0 [simp]: "\<not> is_cont 0"
  by (simp add: is_cont_def)

lemma second_0 [simp]: "\<not> second3 a 0" "\<not> second4 a 0"
  by (simp_all add: second3_def second4_def in_range_def)

lemma front_ok_length: "front bs = (True, n) \<Longrightarrow> bs \<noteq> [] \<Longrightarrow> n \<le> length bs"
  by (auto simp: front_def safe_get_def Let_def Suc_le_eq split: if_splits) (cases bs; auto)

lemma safe_get_take:
  "i < n \<Longrightarrow> n \<le> length bs \<Longrightarrow> safe_get (take n bs @ cs) i = safe_get bs i"
  by (simp add: safe_get_def nth_append)

lemma front_ok_take:
  assumes "front bs = (True, n)" "bs \<noteq> []"
  shows "front (take n bs @ cs) = (True, n)"
  using front_ok_length [OF assms] assms(1)
  by (auto simp: front_def Let_def safe_get_take split: if_splits)

lemma valid_utf8_lossy: "valid_utf8 (lossy bs)"
proof (induction bs rule: lossy.induct)
  case (1 bs)
  show ?case
  proof (cases "bs = []")
    case True
    then show ?thesis by simp
  next
    case False
    obtain ok n where f: "front bs = (ok, n)" by (cases "front bs")
    have IH: "valid_utf8 (lossy (drop n bs))"
      using "1.IH" [OF False f [symmetric]] f by simp
    show ?thesis
    proof (cases ok)
      case True
      let ?r = "take n bs @ lossy (drop n bs)"
      have n: "n \<le> length bs" using front_ok_length False f True by simp
      have "front ?r = (True, n)" using front_ok_take f True False by simp
      moreover have "drop n ?r = lossy (drop n bs)" using n by simp
      moreover have "?r \<noteq> []" using front_pos [of bs] f False by simp
      ultimately have "valid_utf8 ?r" using IH by (subst valid_utf8.simps) simp
      with False f True show ?thesis by (subst lossy.simps) simp
    next
      case bad: False
      with False f IH show ?thesis
        by (subst lossy.simps) (simp add: valid_utf8_replacement)
    qed
  qed
qed

lemma lossy_idem [simp]: "lossy (lossy bs) = lossy bs"
  by (rule lossy_valid [OF valid_utf8_lossy])

end
