(* ===== verification/Command_Handler.thy ===== *)
theory Command_Handler
  imports Session_Table Commands Utf8
begin

text \<open>
  \<open>src/pty/command_handler.rs\<close>: the thread that takes commands from the channel, runs the
  handler of each on the shared PTY process or multiplexer, and sends the result to the
  command's responder. A handler is a function of the world, which returns the result it sends
  and the new world. A call that hangs, panics or forks sends nothing.
\<close>

section \<open>The world of the handler thread\<close>

text \<open>
  The two shared cells \<open>Arc<Mutex<Option<..>>>\<close> (a multiplexer comes with the process it was
  built on), the state of the operating system, and the maximum log level.
\<close>

record 's world =
  os :: 's
  hpty :: "pty_process option"
  hmux :: "(pty_process \<times> mux) option"
  max_level :: log_level

text \<open>
  What the handlers take as given: the system calls, the visit order of the session table, and
  the \<open>Display\<close> of an N-API error, which is third-party code.
\<close>

record 's ctx =
  c_sys :: "'s sys"
  c_hash :: "u32 \<Rightarrow> nat"
  c_napi :: "napi_error \<Rightarrow> string"

definition no_pty :: io_error where
  "no_pty = Custom BrokenPipe ''PTY process not initialized''"

definition no_mux :: io_error where
  "no_mux = Custom BrokenPipe ''Multiplexer not initialized''"

definition show_err :: "'s ctx \<Rightarrow> io_error \<Rightarrow> string" where
  "show_err c e = show_io (c_sys c) e"

text \<open>\<open>io::Error::new(ErrorKind::Other, format!("..: {}", e))\<close> on an error of the multiplexer.\<close>

definition mux_failed :: "'s ctx \<Rightarrow> string \<Rightarrow> napi_error \<Rightarrow> io_error" where
  "mux_failed c what e = Custom OtherKind (what @ '': '' @ c_napi c e)"

text \<open>Locking the PTY cell and running an operation that borrows the process.\<close>

definition with_pty ::
  "(pty_process \<Rightarrow> 's \<Rightarrow> ('a, io_error) result \<times> 's) \<Rightarrow> 's world \<Rightarrow> ('a, io_error) result \<times> 's world" where
  "with_pty f w =
     (case hpty w of
        Some p \<Rightarrow> (case f p (os w) of (r, s) \<Rightarrow> (r, w\<lparr>os := s\<rparr>))
      | None \<Rightarrow> (Err no_pty, w))"

text \<open>The same for the multiplexer; the error of the operation is wrapped.\<close>

definition with_mux ::
  "'s ctx \<Rightarrow> string \<Rightarrow> ('s pty_iface \<Rightarrow> mux \<Rightarrow> 's \<Rightarrow> ('a, napi_error) result \<times> mux \<times> 's)
     \<Rightarrow> 's world \<Rightarrow> ('a, io_error) result \<times> 's world" where
  "with_mux c what f w =
     (case hmux w of
        Some (p, m) \<Rightarrow>
          (case f (process_iface (c_sys c) p) m (os w) of
             (r, m1, s1) \<Rightarrow> (map_err (mux_failed c what) r, w\<lparr>os := s1, hmux := Some (p, m1)\<rparr>))
      | None \<Rightarrow> (Err no_mux, w))"

text \<open>The final match: success text or failure text.\<close>

fun reply :: "'s ctx \<Rightarrow> ('a \<Rightarrow> pty_result) \<Rightarrow> string \<Rightarrow> ('a, io_error) result \<Rightarrow> pty_result" where
  "reply c ok what (Ok x) = ok x"
| "reply c ok what (Err e) = Failure (what @ '': '' @ show_err c e)"

section \<open>Handlers of the multiplexer commands\<close>

definition handle_create_session :: "'s ctx \<Rightarrow> 's world \<Rightarrow> pty_result flow \<times> 's world" where
  "handle_create_session c w =
     (case with_mux c ''Failed to create session''
             (\<lambda>ifc m s. case create_session (c_hash c) m of (r, m1) \<Rightarrow> (r, m1, s)) w of
        (r, w1) \<Rightarrow>
          (Returns (reply c (\<lambda>sid. Success (''Session ID: '' @ show_u32 sid)) ''CreateSession error'' r), w1))"

definition handle_remove_session :: "'s ctx \<Rightarrow> u32 \<Rightarrow> 's world \<Rightarrow> pty_result flow \<times> 's world" where
  "handle_remove_session c sid w =
     (case with_mux c ''Failed to remove session''
             (\<lambda>ifc m s. case remove_session sid m of (r, m1) \<Rightarrow> (r, m1, s)) w of
        (r, w1) \<Rightarrow>
          (Returns (reply c (\<lambda>_. Success (''Removed session '' @ show_u32 sid)) ''RemoveSession error'' r), w1))"

definition handle_send_to_session ::
  "'s ctx \<Rightarrow> u32 \<Rightarrow> bytes \<Rightarrow> 's world \<Rightarrow> pty_result flow \<times> 's world" where
  "handle_send_to_session c sid data w =
     (case with_mux c (''Failed to send data to session '' @ show_u32 sid)
             (\<lambda>ifc m s. send_to_session (show_err c) ifc sid data m s) w of
        (r, w1) \<Rightarrow>
          (Returns (reply c (\<lambda>_. Success (''Data sent to session '' @ show_u32 sid))
             ''SendToSession error'' r), w1))"

definition handle_close_all_sessions :: "'s ctx \<Rightarrow> 's world \<Rightarrow> pty_result flow \<times> 's world" where
  "handle_close_all_sessions c w =
     (case with_mux c ''Failed to close all sessions''
             (\<lambda>ifc m s. case close_all_sessions m of (r, m1) \<Rightarrow> (r, m1, s)) w of
        (r, w1) \<Rightarrow>
          (Returns (reply c (\<lambda>_. Success ''Closed all sessions successfully'')
             ''CloseAllSessions error'' r), w1))"

definition handle_list_sessions :: "'s ctx \<Rightarrow> 's world \<Rightarrow> pty_result flow \<times> 's world" where
  "handle_list_sessions c w =
     (case with_mux c ''Failed to list sessions''
             (\<lambda>ifc m s. (list_sessions (c_hash c) m, m, s)) w of
        (r, w1) \<Rightarrow>
          (Returns (reply c (\<lambda>ids. Success (''Sessions: '' @ show_u32_list ids))
             ''ListSessions error'' r), w1))"

definition handle_broadcast :: "'s ctx \<Rightarrow> bytes \<Rightarrow> 's world \<Rightarrow> pty_result flow \<times> 's world" where
  "handle_broadcast c data w =
     (case with_mux c ''Failed to broadcast data''
             (\<lambda>ifc m s. broadcast (show_err c) ifc data m s) w of
        (r, w1) \<Rightarrow>
          (Returns (reply c (\<lambda>_. Success ''Broadcast successful'') ''Broadcast error'' r), w1))"

text \<open>
  The four handlers below keep the multiplexer locked while they send their answer. Where the
  operation hangs they send none and the cell stays locked, with the table as the operation left it.
\<close>

definition mux_missing :: pty_result where
  "mux_missing = Failure ''Multiplexer not initialized''"

definition handle_read_from_session :: "'s ctx \<Rightarrow> u32 \<Rightarrow> 's world \<Rightarrow> pty_result flow \<times> 's world" where
  "handle_read_from_session c sid w =
     (case hmux w of
        None \<Rightarrow> (Returns mux_missing, w)
      | Some (p, m) \<Rightarrow>
          (case read_from_session sid m of
             (Returns r, m1) \<Rightarrow>
               (Returns (case map_err (mux_failed c (''Failed to read from session '' @ show_u32 sid)) r of
                   Ok data \<Rightarrow> Success (from_utf8_lossy data)
                 | Err e \<Rightarrow> Failure (show_err c e)), w\<lparr>hmux := Some (p, m1)\<rparr>)
           | (_, m1) \<Rightarrow> (Hangs, w\<lparr>hmux := Some (p, m1)\<rparr>)))"

definition show_session_data :: "session_data \<Rightarrow> string" where
  "show_session_data d =
     ''Session '' @ show_u32 (sd_session_id d) @ '': '' @ from_utf8_lossy (sd_data d)"

definition handle_read_all_sessions :: "'s ctx \<Rightarrow> 's world \<Rightarrow> pty_result flow \<times> 's world" where
  "handle_read_all_sessions c w =
     (case hmux w of
        None \<Rightarrow> (Returns mux_missing, w)
      | Some (p, m) \<Rightarrow>
          (case read_all_sessions (c_hash c) m of
             (Returns (Ok ds), m1) \<Rightarrow>
               (Returns (Success (join [CHR 0x0A] (map show_session_data ds))), w\<lparr>hmux := Some (p, m1)\<rparr>)
           | (Returns (Err e), m1) \<Rightarrow>
               (Returns (Failure (''Failed to read sessions: '' @ c_napi c e)), w\<lparr>hmux := Some (p, m1)\<rparr>)
           | (_, m1) \<Rightarrow> (Hangs, w\<lparr>hmux := Some (p, m1)\<rparr>)))"

definition handle_merge_sessions :: "'s ctx \<Rightarrow> u32 list \<Rightarrow> 's world \<Rightarrow> pty_result flow \<times> 's world" where
  "handle_merge_sessions c ids w =
     (case hmux w of
        None \<Rightarrow> (Returns mux_missing, w)
      | Some (p, m) \<Rightarrow>
          (case merge_sessions ids m of
             (Returns (Ok _), m1) \<Rightarrow>
               (Returns (Success (''Merged sessions '' @ show_u32_list ids)), w\<lparr>hmux := Some (p, m1)\<rparr>)
           | (Returns (Err e), m1) \<Rightarrow>
               (Returns (Failure (''MergeSessions error: '' @ c_napi c e)), w\<lparr>hmux := Some (p, m1)\<rparr>)
           | (_, m1) \<Rightarrow> (Hangs, w\<lparr>hmux := Some (p, m1)\<rparr>)))"

definition handle_split_session :: "'s ctx \<Rightarrow> u32 \<Rightarrow> 's world \<Rightarrow> pty_result flow \<times> 's world" where
  "handle_split_session c sid w =
     (case hmux w of
        None \<Rightarrow> (Returns mux_missing, w)
      | Some (p, m) \<Rightarrow>
          (case split_session (c_hash c) sid m of
             (Returns (Ok _), m1) \<Rightarrow>
               (Returns (Success (''Split session '' @ show_u32 sid @ '' into sub-sessions'')),
                w\<lparr>hmux := Some (p, m1)\<rparr>)
           | (Returns (Err e), m1) \<Rightarrow>
               (Returns (Failure (''SplitSession error: '' @ c_napi c e)), w\<lparr>hmux := Some (p, m1)\<rparr>)
           | (_, m1) \<Rightarrow> (Hangs, w\<lparr>hmux := Some (p, m1)\<rparr>)))"

section \<open>Handlers of the process commands\<close>

definition handle_write :: "'s ctx \<Rightarrow> bytes \<Rightarrow> 's world \<Rightarrow> pty_result flow \<times> 's world" where
  "handle_write c data w =
     (case with_pty (\<lambda>p. write_data (c_sys c) p data) w of
        (r, w1) \<Rightarrow>
          (Returns (reply c (\<lambda>n. Success (''Wrote '' @ show_nat n @ '' bytes'')) ''Write error'' r), w1))"

definition handle_read :: "'s ctx \<Rightarrow> 's world \<Rightarrow> pty_result flow \<times> 's world" where
  "handle_read c w =
     (case with_pty (\<lambda>p. read_data (c_sys c) p 4096) w of
        (r, w1) \<Rightarrow> (Returns (reply c (\<lambda>data. Data (from_bytes data)) ''Read error'' r), w1))"

definition handle_read_all :: "'s ctx \<Rightarrow> 's world \<Rightarrow> pty_result flow \<times> 's world" where
  "handle_read_all c w =
     (case with_pty (\<lambda>p. read_data (c_sys c) p 4096) w of
        (r, w1) \<Rightarrow> (Returns (reply c (\<lambda>data. Data (from_bytes data)) ''ReadAll error'' r), w1))"

definition handle_resize :: "'s ctx \<Rightarrow> u16 \<Rightarrow> u16 \<Rightarrow> 's world \<Rightarrow> pty_result flow \<times> 's world" where
  "handle_resize c cols rows w =
     (case with_pty (\<lambda>p. resize (c_sys c) p cols rows) w of
        (r, w1) \<Rightarrow>
          (Returns (reply c (\<lambda>_. Success (''Resized to cols: '' @ show_u16 cols @ '', rows: '' @ show_u16 rows))
             ''Resize error'' r), w1))"

text \<open>The command and a newline are written; the source quotes the command in the answer.\<close>

definition handle_execute :: "'s ctx \<Rightarrow> string \<Rightarrow> 's world \<Rightarrow> pty_result flow \<times> 's world" where
  "handle_execute c cmd w =
     (case with_pty (\<lambda>p. write_data (c_sys c) p (as_bytes (cmd @ [CHR 0x0A]))) w of
        (r, w1) \<Rightarrow>
          (Returns (reply c (\<lambda>_. Success (''Executed command '' @ [CHR 0x27] @ cmd @ [CHR 0x27]))
             (''Execution error for command '' @ [CHR 0x27] @ cmd @ [CHR 0x27]) r), w1))"

text \<open>
  The common body of \<open>Close\<close>, \<open>ForceKill\<close> and \<open>ShutdownPty\<close>: the process is taken out of
  its cell, signalled and waited for with the errors only logged, and its descriptor is closed.
\<close>

definition end_process :: "'s ctx \<Rightarrow> i32 \<Rightarrow> i32 \<Rightarrow> pty_process \<Rightarrow> 's \<Rightarrow> (unit, io_error) result \<times> 's" where
  "end_process c sig opts p s =
     close_master_fd (c_sys c) p
       (snd (waitpid (c_sys c) p opts (snd (kill_process (c_sys c) p sig s))))"

definition take_pty ::
  "'s ctx \<Rightarrow> i32 \<Rightarrow> i32 \<Rightarrow> (unit, io_error) result \<Rightarrow> 's world \<Rightarrow> (unit, io_error) result \<times> 's world" where
  "take_pty c sig opts absent w =
     (case hpty w of
        Some p \<Rightarrow> (case end_process c sig opts p (os w) of (r, s) \<Rightarrow> (r, w\<lparr>os := s, hpty := None\<rparr>))
      | None \<Rightarrow> (absent, w))"

definition handle_close :: "'s ctx \<Rightarrow> 's world \<Rightarrow> pty_result flow \<times> 's world" where
  "handle_close c w =
     (case take_pty c SIGTERM WNOHANG (Ok ()) w of
        (r, w1) \<Rightarrow> (Returns (reply c (\<lambda>_. Success ''PTY closed successfully'') ''Close error'' r), w1))"

definition handle_force_kill :: "'s ctx \<Rightarrow> 's world \<Rightarrow> pty_result flow \<times> 's world" where
  "handle_force_kill c w =
     (case take_pty c SIGKILL 0 (Err no_pty) w of
        (r, w1) \<Rightarrow>
          (Returns (reply c (\<lambda>_. Success ''Force killed PTY process successfully'')
             ''Force kill error'' r), w1))"

definition handle_shutdown_pty :: "'s ctx \<Rightarrow> 's world \<Rightarrow> pty_result flow \<times> 's world" where
  "handle_shutdown_pty c w =
     (case take_pty c SIGTERM WNOHANG (Ok ()) w of
        (r, w1) \<Rightarrow>
          (Returns (reply c (\<lambda>_. Success ''PTY shutdown successfully'') ''ShutdownPty error'' r), w1))"

definition handle_kill_process :: "'s ctx \<Rightarrow> i32 \<Rightarrow> 's world \<Rightarrow> pty_result flow \<times> 's world" where
  "handle_kill_process c sig w =
     (case with_pty (\<lambda>p. kill_process (c_sys c) p sig) w of
        (r, w1) \<Rightarrow>
          (Returns (reply c (\<lambda>_. Success (''Sent signal '' @ show_i32 sig @ '' successfully''))
             ''KillProcess error'' r), w1))"

definition handle_waitpid :: "'s ctx \<Rightarrow> i32 \<Rightarrow> 's world \<Rightarrow> pty_result flow \<times> 's world" where
  "handle_waitpid c opts w =
     (case with_pty (\<lambda>p. waitpid (c_sys c) p opts) w of
        (r, w1) \<Rightarrow> (Returns (reply c (\<lambda>pd. Success (show_i32 pd)) ''WaitPid error'' r), w1))"

definition handle_close_master_fd :: "'s ctx \<Rightarrow> 's world \<Rightarrow> pty_result flow \<times> 's world" where
  "handle_close_master_fd c w =
     (case with_pty (close_master_fd (c_sys c)) w of
        (r, w1) \<Rightarrow> (Returns (reply c (\<lambda>_. Success ''Closed master_fd successfully'') ''Close error'' r), w1))"

text \<open>\<open>set_env\<close> can panic: the thread unwinds and the responder is dropped unused.\<close>

definition handle_set_env :: "'s ctx \<Rightarrow> string \<Rightarrow> string \<Rightarrow> 's world \<Rightarrow> pty_result flow \<times> 's world" where
  "handle_set_env c key val w =
     (let answer = reply c (\<lambda>_. Success ''Environment variable set successfully'') ''SetEnv error''
      in case hpty w of
           None \<Rightarrow> (Returns (answer (Err no_pty)), w)
         | Some p \<Rightarrow>
             (case set_env (c_sys c) p key val (os w) of
                (Returns r, s) \<Rightarrow> (Returns (answer r), w\<lparr>os := s\<rparr>)
              | (Panics, s) \<Rightarrow> (Panics, w\<lparr>os := s\<rparr>)
              | (Hangs, s) \<Rightarrow> (Hangs, w\<lparr>os := s\<rparr>)
              | (InChild, s) \<Rightarrow> (InChild, w\<lparr>os := s\<rparr>)))"

definition handle_change_shell :: "'s ctx \<Rightarrow> string \<Rightarrow> 's world \<Rightarrow> pty_result flow \<times> 's world" where
  "handle_change_shell c shell_path w =
     (let answer = reply c (\<lambda>_. Success ''Shell changed successfully'') ''ChangeShell error''
      in case hpty w of
           None \<Rightarrow> (Returns (answer (Err no_pty)), w)
         | Some p \<Rightarrow>
             (case change_shell (c_sys c) p shell_path (os w) of
                (Returns r, p1, s) \<Rightarrow> (Returns (answer r), w\<lparr>os := s, hpty := Some p1\<rparr>)
              | (Panics, p1, s) \<Rightarrow> (Panics, w\<lparr>os := s, hpty := Some p1\<rparr>)
              | (Hangs, p1, s) \<Rightarrow> (Hangs, w\<lparr>os := s, hpty := Some p1\<rparr>)
              | (InChild, p1, s) \<Rightarrow> (InChild, w\<lparr>os := s, hpty := Some p1\<rparr>)))"

definition handle_status :: "'s ctx \<Rightarrow> 's world \<Rightarrow> pty_result flow \<times> 's world" where
  "handle_status c w =
     (case with_pty (pty_status (c_sys c)) w of
        (r, w1) \<Rightarrow> (Returns (reply c Success ''Status error'' r), w1))"

definition handle_set_log_level :: "'s ctx \<Rightarrow> string \<Rightarrow> 's world \<Rightarrow> pty_result flow \<times> 's world" where
  "handle_set_log_level c level w =
     (let answer = reply c (\<lambda>_. Success ''Log level set successfully'') ''SetLogLevel error''
      in case hpty w of
           None \<Rightarrow> (Returns (answer (Err no_pty)), w)
         | Some p \<Rightarrow> (Returns (answer (Ok ())), w\<lparr>max_level := process_log_level level\<rparr>))"

section \<open>The loop\<close>

fun handle :: "'s ctx \<Rightarrow> pty_command \<Rightarrow> 's world \<Rightarrow> pty_result flow \<times> 's world" where
  "handle c CreateSession w = handle_create_session c w"
| "handle c (RemoveSession sid) w = handle_remove_session c sid w"
| "handle c CloseAllSessions w = handle_close_all_sessions c w"
| "handle c ListSessions w = handle_list_sessions c w"
| "handle c (Write data) w = handle_write c data w"
| "handle c Read w = handle_read c w"
| "handle c (Resize cols rows) w = handle_resize c cols rows w"
| "handle c (Execute cmd) w = handle_execute c cmd w"
| "handle c Close w = handle_close c w"
| "handle c ForceKill w = handle_force_kill c w"
| "handle c (KillProcess sig) w = handle_kill_process c sig w"
| "handle c (WaitPid opts) w = handle_waitpid c opts w"
| "handle c CloseMasterFd w = handle_close_master_fd c w"
| "handle c (Broadcast data) w = handle_broadcast c data w"
| "handle c (SendToSession sid data) w = handle_send_to_session c sid data w"
| "handle c ReadAll w = handle_read_all c w"
| "handle c (ReadFromSession sid) w = handle_read_from_session c sid w"
| "handle c ReadAllSessions w = handle_read_all_sessions c w"
| "handle c (MergeSessions ids) w = handle_merge_sessions c ids w"
| "handle c (SplitSession sid) w = handle_split_session c sid w"
| "handle c (SetEnv key val) w = handle_set_env c key val w"
| "handle c (ChangeShell path) w = handle_change_shell c path w"
| "handle c Status w = handle_status c w"
| "handle c (SetLogLevel level) w = handle_set_log_level c level w"
| "handle c ShutdownPty w = handle_shutdown_pty c w"

text \<open>
  \<open>receiver.recv()\<close> gives the next command, or an error once every sender is gone. The loop ends
  after \<open>ShutdownPty\<close> and on that error; \<open>Waiting\<close> is a loop blocked in \<open>recv\<close>. A handler
  that does not return ends the thread or leaves it stuck.
\<close>

datatype recv = Received pty_command | Disconnected

datatype loop_state = Waiting | Stopped | Stuck | Crashed | Forked

fun handle_commands :: "'s ctx \<Rightarrow> recv list \<Rightarrow> 's world \<Rightarrow> pty_result list \<times> loop_state \<times> 's world" where
  "handle_commands c [] w = ([], Waiting, w)"
| "handle_commands c (Disconnected # es) w = ([], Stopped, w)"
| "handle_commands c (Received cmd # es) w =
     (case handle c cmd w of
        (Returns r, w1) \<Rightarrow>
          (if cmd = ShutdownPty then ([r], Stopped, w1)
           else (case handle_commands c es w1 of (rs, st, w2) \<Rightarrow> (r # rs, st, w2)))
      | (Hangs, w1) \<Rightarrow> ([], Stuck, w1)
      | (Panics, w1) \<Rightarrow> ([], Crashed, w1)
      | (InChild, w1) \<Rightarrow> ([], Forked, w1))"

lemmas [handler_defs] =
  handle_create_session_def handle_remove_session_def handle_send_to_session_def
  handle_close_all_sessions_def handle_list_sessions_def handle_broadcast_def
  handle_read_from_session_def handle_read_all_sessions_def handle_merge_sessions_def
  handle_split_session_def handle_write_def handle_read_def handle_read_all_def
  handle_resize_def handle_execute_def handle_close_def handle_force_kill_def
  handle_shutdown_pty_def handle_kill_process_def handle_waitpid_def handle_close_master_fd_def
  handle_set_env_def handle_change_shell_def handle_status_def handle_set_log_level_def

end
