(* ===== verification/Handler_Laws.thy ===== *)
theory Handler_Laws
  imports Command_Handler
begin

text \<open>
  What the command handlers guarantee: what each can change, how each ends, what answers look
  like, and what the loop does with a sequence of commands.
\<close>

section \<open>What a handler can change\<close>

fun mux_command :: "pty_command \<Rightarrow> bool" where
  "mux_command CreateSession = True"
| "mux_command (RemoveSession sid) = True"
| "mux_command CloseAllSessions = True"
| "mux_command ListSessions = True"
| "mux_command (Broadcast data) = True"
| "mux_command (SendToSession sid data) = True"
| "mux_command (ReadFromSession sid) = True"
| "mux_command ReadAllSessions = True"
| "mux_command (MergeSessions ids) = True"
| "mux_command (SplitSession sid) = True"
| "mux_command _ = False"

lemma with_pty_frame:
  "with_pty f w = (r, w') \<Longrightarrow> hmux w' = hmux w \<and> hpty w' = hpty w \<and> max_level w' = max_level w"
  by (auto simp: with_pty_def split: option.splits prod.splits)

lemma with_mux_frame:
  "with_mux c what f w = (r, w') \<Longrightarrow> hpty w' = hpty w \<and> max_level w' = max_level w"
  by (auto simp: with_mux_def split: option.splits prod.splits)

lemma take_pty_frame:
  "take_pty c sig opts a w = (r, w') \<Longrightarrow> hmux w' = hmux w \<and> hpty w' = None \<and> max_level w' = max_level w"
  by (auto simp: take_pty_def split: option.splits prod.splits)

lemmas cell_frames = with_pty_frame with_mux_frame take_pty_frame

lemma handle_mux_frame:
  assumes "handle c cmd w = (f, w')" "mux_command cmd"
  shows "hpty w' = hpty w \<and> max_level w' = max_level w"
  using assms
  by (cases cmd) (auto simp: handler_defs split: prod.splits option.splits flow.splits result.splits
      dest: cell_frames)

lemma handle_pty_frame:
  assumes "handle c cmd w = (f, w')" "\<not> mux_command cmd"
  shows "hmux w' = hmux w"
  using assms
  by (cases cmd) (auto simp: handler_defs Let_def split: prod.splits option.splits flow.splits
      dest: cell_frames)

section \<open>The invariant of the world and the ways a handler ends\<close>

definition world_inv :: "'s world \<Rightarrow> bool" where
  "world_inv w \<longleftrightarrow> (\<forall>p m. hmux w = Some (p, m) \<longrightarrow> mux_inv m)"

lemma with_mux_inv:
  assumes "with_mux c what f w = (r, w')" "world_inv w"
    and "\<And>ifc m s r' m' s'. mux_inv m \<Longrightarrow> f ifc m s = (r', m', s') \<Longrightarrow> mux_inv m'"
  shows "world_inv w'"
  using assms by (auto simp: with_mux_def world_inv_def split: option.splits prod.splits)

definition existing_merge :: "'s world \<Rightarrow> pty_command \<Rightarrow> bool" where
  "existing_merge w cmd \<longleftrightarrow>
     (\<exists>k ks p m. cmd = MergeSessions (k # ks) \<and> hmux w = Some (p, m) \<and> view m k \<noteq> None)"

definition panicking_env :: "'s ctx \<Rightarrow> 's world \<Rightarrow> pty_command \<Rightarrow> bool" where
  "panicking_env c w cmd \<longleftrightarrow>
     (\<exists>key val p. cmd = SetEnv key val \<and> hpty w = Some p \<and>
        fst (is_running (c_sys c) p (os w)) = Ok True \<and> \<not> env_name_ok key val)"

lemma set_env_flow:
  "fst (set_env sys p key val s) \<noteq> Hangs" "fst (set_env sys p key val s) \<noteq> InChild"
  "fst (set_env sys p key val s) = Panics \<longleftrightarrow>
     fst (is_running sys p s) = Ok True \<and> \<not> env_name_ok key val"
  by (auto simp: set_env_def split: prod.splits result.splits bool.splits)

lemma change_shell_flow:
  "fst (change_shell sys p sh s) \<noteq> Hangs" "fst (change_shell sys p sh s) \<noteq> Panics"
  by (auto simp: change_shell_def spawn_new_shell_def Let_def split: prod.splits result.splits if_splits)

lemma handle_set_env_flow:
  "fst (handle_set_env c key val w) = Panics \<longleftrightarrow> panicking_env c w (SetEnv key val)"
  "fst (handle_set_env c key val w) \<noteq> Hangs" "fst (handle_set_env c key val w) \<noteq> InChild"
  using set_env_flow [of "c_sys c" "the (hpty w)" key val "os w"]
  by (auto simp: handle_set_env_def panicking_env_def Let_def split: option.splits prod.splits flow.splits)

lemma handle_change_shell_flow:
  "fst (handle_change_shell c sh w) \<noteq> Panics" "fst (handle_change_shell c sh w) \<noteq> Hangs"
  using change_shell_flow [of "c_sys c" "the (hpty w)" sh "os w"]
  by (auto simp: handle_change_shell_def Let_def split: option.splits prod.splits flow.splits)

lemma handle_merge_cases:
  assumes "world_inv w" "handle_merge_sessions c ids w = (f, w')"
  shows "(existing_merge w (MergeSessions ids) \<longrightarrow> f = Hangs) \<and>
         (\<not> existing_merge w (MergeSessions ids) \<longrightarrow> w' = w \<and> (\<exists>t. f = Returns (Failure t)))"
proof (cases "hmux w")
  case None
  then show ?thesis using assms(2)
    by (auto simp: handle_merge_sessions_def existing_merge_def mux_missing_def)
next
  case (Some pm)
  obtain p m where pm: "pm = (p, m)" by fastforce
  have inv: "mux_inv m" using assms(1) Some pm by (simp add: world_inv_def)
  have same: "w\<lparr>hmux := Some (p, m)\<rparr> = w" using Some pm by simp
  show ?thesis
  proof (cases ids)
    case Nil
    then show ?thesis using assms(2) Some pm same
      by (auto simp: handle_merge_sessions_def existing_merge_def merge_sessions_none)
  next
    case (Cons k ks)
    show ?thesis
    proof (cases "view m k")
      case None
      then show ?thesis using assms(2) Some pm same Cons
        by (auto simp: handle_merge_sessions_def existing_merge_def merge_sessions_none)
    next
      case (Some io)
      then obtain ses where "fmlookup (sessions m) k = Some ses" by (auto simp: view_def)
      from merge_sessions_hangs [OF inv this, of ks] show ?thesis
        using assms(2) \<open>hmux w = Some pm\<close> pm Cons Some
        by (auto simp: handle_merge_sessions_def existing_merge_def split: prod.splits flow.splits)
    qed
  qed
qed

lemma handle_read_from_session_inv:
  assumes "world_inv w" "handle_read_from_session c sid w = (f, w')"
  shows "world_inv w' \<and> (\<exists>r. f = Returns r)"
proof (cases "hmux w")
  case None
  then show ?thesis using assms by (auto simp: handle_read_from_session_def)
next
  case (Some pm)
  obtain p m where pm: "pm = (p, m)" by fastforce
  have inv: "mux_inv m" using assms(1) Some pm by (simp add: world_inv_def)
  obtain g m' where g: "read_from_session sid m = (g, m')" by fastforce
  have "mux_inv m'" "\<exists>r. g = Returns r"
    using read_from_session_refines [OF inv g] by (auto split: option.splits)
  then show ?thesis using assms Some pm g
    by (auto simp: handle_read_from_session_def world_inv_def)
qed

lemma handle_read_all_sessions_inv:
  assumes "world_inv w" "handle_read_all_sessions c w = (f, w')"
  shows "w' = w \<and> (\<exists>r. f = Returns r)"
proof (cases "hmux w")
  case None
  then show ?thesis using assms by (auto simp: handle_read_all_sessions_def)
next
  case (Some pm)
  obtain p m where pm: "pm = (p, m)" by fastforce
  have inv: "mux_inv m" using assms(1) Some pm by (simp add: world_inv_def)
  have "w\<lparr>hmux := Some (p, m)\<rparr> = w" using Some pm by simp
  then show ?thesis using assms Some pm read_all_sessions_eq [OF inv, of "c_hash c"]
    by (auto simp: handle_read_all_sessions_def)
qed

lemma handle_split_session_inv:
  assumes "world_inv w" "handle_split_session c sid w = (f, w')"
  shows "world_inv w' \<and> (\<exists>r. f = Returns r)"
proof (cases "hmux w")
  case None
  then show ?thesis using assms by (auto simp: handle_split_session_def)
next
  case (Some pm)
  obtain p m where pm: "pm = (p, m)" by fastforce
  have inv: "mux_inv m" using assms(1) Some pm by (simp add: world_inv_def)
  obtain g m' where g: "split_session (c_hash c) sid m = (g, m')" by fastforce
  from split_session_inv [OF inv g] assms Some pm g show ?thesis
    by (auto simp: handle_split_session_def world_inv_def split: result.splits)
qed

lemmas mux_handler_invs = handle_read_from_session_inv handle_read_all_sessions_inv
  handle_split_session_inv handle_merge_cases

lemma world_inv_cong: "hmux w' = hmux w \<Longrightarrow> world_inv w' = world_inv w"
  by (simp add: world_inv_def)

lemma handle_inv:
  assumes "world_inv w" "handle c cmd w = (Returns r, w')"
  shows "world_inv w'"
proof (cases "mux_command cmd")
  case False
  then show ?thesis using handle_pty_frame [OF assms(2)] assms(1) world_inv_cong by blast
next
  case True
  note inv = with_mux_inv [OF _ assms(1)]
  show ?thesis
  proof (cases cmd)
    case CreateSession
    then show ?thesis using assms(2)
      by (auto simp: handle_create_session_def split: prod.splits
          elim!: inv dest: create_session_refines(3) [of _ "c_hash c"])
  next
    case (RemoveSession sid)
    then show ?thesis using assms(2)
      by (auto simp: handle_remove_session_def split: prod.splits elim!: inv
          dest: remove_session_refines(1))
  next
    case CloseAllSessions
    then show ?thesis using assms(2)
      by (auto simp: handle_close_all_sessions_def split: prod.splits elim!: inv)
         (metis close_all_sessions_refines(1) snd_conv)
  next
    case ListSessions
    then show ?thesis using assms(2)
      by (auto simp: handle_list_sessions_def split: prod.splits elim!: inv)
  next
    case (Broadcast data)
    then show ?thesis using assms(2)
      by (auto simp: handle_broadcast_def split: prod.splits elim!: inv dest: broadcast_refines(1))
  next
    case (SendToSession sid data)
    then show ?thesis using assms(2)
      by (auto simp: handle_send_to_session_def split: prod.splits elim!: inv
          dest: send_to_session_refines(1))
  next
    case (ReadFromSession sid)
    then show ?thesis using assms(2) mux_handler_invs(1) [OF assms(1), of c sid] by auto
  next
    case ReadAllSessions
    then show ?thesis using assms mux_handler_invs(2) [OF assms(1), of c] by auto
  next
    case (MergeSessions ids)
    then show ?thesis using assms mux_handler_invs(4) [OF assms(1), of c ids] by auto
  next
    case (SplitSession sid)
    then show ?thesis using assms(2) mux_handler_invs(3) [OF assms(1), of c sid] by auto
  qed (use True in simp_all)
qed

lemma handle_returns:
  assumes "world_inv w" "\<not> existing_merge w cmd" "\<not> panicking_env c w cmd"
    "\<And>path. cmd \<noteq> ChangeShell path"
  shows "\<exists>r. fst (handle c cmd w) = Returns r"
proof (cases cmd)
  case (ReadFromSession sid)
  then show ?thesis using mux_handler_invs(1) [OF assms(1), of c sid] by (simp add: prod_eq_iff)
next
  case ReadAllSessions
  then show ?thesis using mux_handler_invs(2) [OF assms(1), of c] by (simp add: prod_eq_iff)
next
  case (MergeSessions ids)
  then show ?thesis using mux_handler_invs(4) [OF assms(1), of c ids] assms(2)
    by (simp add: prod_eq_iff) blast
next
  case (SplitSession sid)
  then show ?thesis using mux_handler_invs(3) [OF assms(1), of c sid] by (simp add: prod_eq_iff)
next
  case (SetEnv key val)
  then show ?thesis using handle_set_env_flow [of c key val w] assms(3)
    by (cases "fst (handle_set_env c key val w)") auto
next
  case (ChangeShell path)
  then show ?thesis using assms(4) by simp
next
  case (SetLogLevel level)
  then show ?thesis by (simp add: handle_set_log_level_def Let_def split: option.splits)
qed (simp_all add: handler_defs split_def)

text \<open>A handler hangs on a merge of an existing session and on nothing else.\<close>

lemma handle_hangs_iff:
  assumes "world_inv w"
  shows "fst (handle c cmd w) = Hangs \<longleftrightarrow> existing_merge w cmd"
proof
  assume hang: "fst (handle c cmd w) = Hangs"
  show "existing_merge w cmd"
  proof (rule ccontr)
    assume no: "\<not> existing_merge w cmd"
    have p: "\<not> panicking_env c w cmd"
      using hang handle_set_env_flow(2) [of c _ _ w] unfolding panicking_env_def
      by (metis handle.simps(21))
    have s: "cmd \<noteq> ChangeShell path" for path
      using hang handle_change_shell_flow(2) [of c path w] by (cases cmd) auto
    show False using handle_returns [OF assms no p s] hang by auto
  qed
next
  assume m: "existing_merge w cmd"
  then obtain ids where ids: "cmd = MergeSessions ids" by (auto simp: existing_merge_def)
  obtain f w' where f: "handle_merge_sessions c ids w = (f, w')" by fastforce
  show "fst (handle c cmd w) = Hangs"
    using handle_merge_cases [OF assms f] m f ids by simp
qed

section \<open>After the process is gone\<close>

lemma handle_no_pty:
  assumes "hpty w = None" "\<not> mux_command cmd" "cmd \<noteq> Close" "cmd \<noteq> ShutdownPty"
  shows "\<exists>what. handle c cmd w =
    (Returns (Failure (what @ '': PTY process not initialized'')), w)"
  using assms by (cases cmd) (auto simp: handler_defs with_pty_def take_pty_def show_err_def no_pty_def)

lemma handle_ends_pty:
  assumes "cmd \<in> {Close, ForceKill, ShutdownPty}"
  shows "hpty (snd (handle c cmd w)) = None"
  using assms
  by (auto simp: handler_defs split: prod.splits dest: take_pty_frame)

lemma handle_keeps_no_pty:
  assumes "hpty w = None"
  shows "hpty (snd (handle c cmd w)) = None"
proof (cases "mux_command cmd")
  case True
  then show ?thesis using handle_mux_frame [OF surjective_pairing True, of c w] assms by simp
next
  case False
  then show ?thesis
    using handle_no_pty [OF assms False, of c] handle_ends_pty [of cmd c w] assms
    by (cases "cmd \<in> {Close, ShutdownPty}") auto
qed

section \<open>The shape of the answers\<close>

lemma handle_data:
  "fst (handle c cmd w) = Returns (Data d) \<Longrightarrow> cmd = Read \<or> cmd = ReadAll"
  by (cases cmd) (auto simp: handler_defs mux_missing_def Let_def elim!: reply.elims
      split: prod.splits option.splits flow.splits result.splits)

section \<open>The loop\<close>

lemma handle_commands_append:
  "handle_commands c (es @ fs) w =
     (case handle_commands c es w of
        (rs, Waiting, w1) \<Rightarrow> (case handle_commands c fs w1 of (rs', st, w2) \<Rightarrow> (rs @ rs', st, w2))
      | (rs, st, w1) \<Rightarrow> (rs, st, w1))"
proof (induction c es w rule: handle_commands.induct)
  case (1 c w)
  then show ?case by simp
next
  case (2 c es w)
  then show ?case by simp
next
  case (3 c cmd es w)
  then show ?case
    by (auto split: flow.splits prod.splits loop_state.splits)
qed

lemma handle_commands_replies:
  "handle_commands c es w = (rs, st, w') \<Longrightarrow>
     length rs \<le> length es \<and> (st = Waiting \<longrightarrow> length rs = length es)"
  by (induction c es w arbitrary: rs st w' rule: handle_commands.induct)
    (auto split: flow.splits prod.splits if_splits)

lemma handle_commands_inv:
  "world_inv w \<Longrightarrow> handle_commands c es w = (rs, Waiting, w') \<Longrightarrow> world_inv w'"
  by (induction c es w arbitrary: rs w' rule: handle_commands.induct)
    (auto split: flow.splits prod.splits if_splits dest: handle_inv)

lemma handle_commands_no_pty:
  "hpty w = None \<Longrightarrow> hpty (snd (snd (handle_commands c es w))) = None"
proof (induction c es w rule: handle_commands.induct)
  case (3 c cmd es w)
  have "hpty (snd (handle c cmd w)) = None" by (rule handle_keeps_no_pty [OF 3(2)])
  with 3(1) show ?case by (auto split: flow.splits prod.splits)
qed simp_all

section \<open>The shape of an answer\<close>

text \<open>What the methods of the handle expect of the answer to their command.\<close>

fun answers :: "pty_command \<Rightarrow> pty_result \<Rightarrow> bool" where
  "answers cmd (Data sb) = (cmd = Read \<or> cmd = ReadAll)"
| "answers cmd (Success t) =
     (cmd \<noteq> Read \<and> cmd \<noteq> ReadAll \<and>
      (\<forall>opts. cmd = WaitPid opts \<longrightarrow> (\<exists>pd. t = show_i32 pd)) \<and>
      (cmd = CreateSession \<longrightarrow> (\<exists>k. t = ''Session ID: '' @ show_u32 k)) \<and>
      (cmd = Status \<longrightarrow> t \<in> {''Running'', ''Not Running'', ''Unknown''}))"
| "answers cmd (Failure t) = True"

lemma answers_reply:
  "(\<And>x. r = Ok x \<Longrightarrow> answers cmd (ok x)) \<Longrightarrow> answers cmd (reply c ok what r)"
  by (cases r) auto

lemma with_pty_status:
  "fst (with_pty (pty_status sys) w) = Ok t \<Longrightarrow> t \<in> {''Running'', ''Not Running'', ''Unknown''}"
  by (auto simp: with_pty_def pty_status_def split: option.splits prod.splits if_splits)

end
