(* ===== verification/Linux_Process.thy ===== *)
theory Linux_Process
  imports Pty_Process Utf8
begin

text \<open>
  \<open>src/platform/linux.rs\<close>: the PTY process of Linux. The operations are those of the macOS file,
  written out again; the PTY is opened in five calls, which a second record of system calls holds.
  The record \<open>pty_process\<close> is shared: the two structs have the same fields. Constants and errno
  values are those of Linux.
\<close>

section \<open>System calls\<close>

text \<open>
  \<open>ptsname\<close> gives the bytes of a name in a buffer of the C library, which the code wraps as an
  owned \<open>CString\<close>: dropping that gives the buffer to the allocator, which never allocated it, with a
  result the language leaves undefined. \<open>l_drop_name\<close> is what happens, false when the program is
  aborted.
\<close>

record 's pty_calls =
  l_posix_openpt :: "i32 \<Rightarrow> 's \<Rightarrow> (i32 \<times> i32) \<times> 's"
  l_grantpt :: "i32 \<Rightarrow> 's \<Rightarrow> (i32 \<times> i32) \<times> 's"
  l_unlockpt :: "i32 \<Rightarrow> 's \<Rightarrow> (i32 \<times> i32) \<times> 's"
  l_ptsname :: "i32 \<Rightarrow> 's \<Rightarrow> (bytes option \<times> i32) \<times> 's"
  l_open :: "bytes \<Rightarrow> i32 \<Rightarrow> 's \<Rightarrow> (i32 \<times> i32) \<times> 's"
  l_drop_name :: "'s \<Rightarrow> bool \<times> 's"

definition O_RDWR :: i32 where "O_RDWR = 2"
definition O_NOCTTY :: i32 where "O_NOCTTY = 256"

definition linux_os_error :: "i32 \<Rightarrow> io_error" where
  "linux_os_error errno =
     Os (if errno = 11 then WouldBlock
         else if errno = 32 then BrokenPipe
         else if errno = 107 then NotConnected
         else OtherOs) errno"

text \<open>How a call ends that may be aborted.\<close>

datatype 'a ending = Ends "'a flow" | Aborts

definition drop_name :: "'s pty_calls \<Rightarrow> 'a flow \<Rightarrow> 's \<Rightarrow> 'a ending \<times> 's" where
  "drop_name lx r s = (case l_drop_name lx s of (alive, s') \<Rightarrow> (if alive then Ends r else Aborts, s'))"

section \<open>Reading, writing, signals\<close>

definition linux_write_data :: "'s sys \<Rightarrow> pty_process \<Rightarrow> bytes \<Rightarrow> 's \<Rightarrow> (nat, io_error) result \<times> 's" where
  "linux_write_data sys p data s =
     (case k_write sys (master_fd p) data s of
        ((bytes_written, errno), s') \<Rightarrow>
          if bytes_written < 0 then (Err (linux_os_error errno), s') else (Ok (nat bytes_written), s'))"

definition linux_read_data :: "'s sys \<Rightarrow> pty_process \<Rightarrow> nat \<Rightarrow> 's \<Rightarrow> (bytes, io_error) result \<times> 's" where
  "linux_read_data sys p len s =
     (case k_read sys (master_fd p) len s of
        ((bytes_read, buffer, errno), s') \<Rightarrow>
          if bytes_read < 0 then (Err (linux_os_error errno), s')
          else (Ok (take (nat bytes_read) buffer), s'))"

definition linux_resize :: "'s sys \<Rightarrow> pty_process \<Rightarrow> u16 \<Rightarrow> u16 \<Rightarrow> 's \<Rightarrow> (unit, io_error) result \<times> 's" where
  "linux_resize sys p cols rows s =
     (case k_set_winsize sys (master_fd p) rows cols s of
        ((ret, errno), s') \<Rightarrow> if ret \<noteq> 0 then (Err (linux_os_error errno), s') else (Ok (), s'))"

definition linux_kill_process :: "'s sys \<Rightarrow> pty_process \<Rightarrow> i32 \<Rightarrow> 's \<Rightarrow> (unit, io_error) result \<times> 's" where
  "linux_kill_process sys p sig s =
     (case k_kill sys (pid p) sig s of
        ((ret, errno), s') \<Rightarrow> if ret \<noteq> 0 then (Err (linux_os_error errno), s') else (Ok (), s'))"

definition linux_waitpid :: "'s sys \<Rightarrow> pty_process \<Rightarrow> i32 \<Rightarrow> 's \<Rightarrow> (i32, io_error) result \<times> 's" where
  "linux_waitpid sys p options s =
     (case k_waitpid sys (pid p) options s of
        ((ret, errno), s') \<Rightarrow> if ret = -1 then (Err (linux_os_error errno), s') else (Ok ret, s'))"

definition linux_close_master_fd :: "'s sys \<Rightarrow> pty_process \<Rightarrow> 's \<Rightarrow> (unit, io_error) result \<times> 's" where
  "linux_close_master_fd sys p s =
     (case k_close sys (master_fd p) s of
        ((ret, errno), s') \<Rightarrow> if ret \<noteq> 0 then (Err (linux_os_error errno), s') else (Ok (), s'))"

definition linux_force_kill :: "'s sys \<Rightarrow> pty_process \<Rightarrow> 's \<Rightarrow> (unit, io_error) result \<times> 's" where
  "linux_force_kill sys p s = linux_kill_process sys p SIGKILL s"

definition linux_is_running :: "'s sys \<Rightarrow> pty_process \<Rightarrow> 's \<Rightarrow> (bool, io_error) result \<times> 's" where
  "linux_is_running sys p s =
     (case k_kill sys (pid p) 0 s of
        ((ret, errno), s') \<Rightarrow>
          if ret = 0 then (Ok True, s')
          else if ret = -1 then
            (if errno = ESRCH then (Ok False, s') else (Err (linux_os_error errno), s'))
          else (Ok False, s'))"

definition linux_status :: "'s sys \<Rightarrow> pty_process \<Rightarrow> 's \<Rightarrow> (string, io_error) result \<times> 's" where
  "linux_status sys p s =
     (case k_kill sys (pid p) 0 s of
        ((ret, errno), s') \<Rightarrow>
          if ret = 0 then (Ok ''Running'', s')
          else if ret = -1 then
            (if errno = ESRCH then (Ok ''Not Running'', s') else (Err (linux_os_error errno), s'))
          else (Ok ''Unknown'', s'))"

definition linux_shutdown_pty :: "'s sys \<Rightarrow> pty_process \<Rightarrow> 's \<Rightarrow> (unit, io_error) result \<times> 's" where
  "linux_shutdown_pty sys p s =
     (case linux_kill_process sys p SIGTERM s of
        (Err e, s1) \<Rightarrow> (Err e, s1)
      | (Ok _, s1) \<Rightarrow>
          (case linux_waitpid sys p 0 s1 of
             (Ok _, s2) \<Rightarrow> linux_close_master_fd sys p s2
           | (Err e, s2) \<Rightarrow>
               (case linux_force_kill sys p s2 of
                  (Err e', s3) \<Rightarrow> (Err e', s3)
                | (Ok _, s3) \<Rightarrow>
                    (case linux_close_master_fd sys p s3 of
                       (Err e', s4) \<Rightarrow> (Err e', s4)
                     | (Ok _, s4) \<Rightarrow> (Err e, s4)))))"

definition linux_set_env ::
  "'s sys \<Rightarrow> pty_process \<Rightarrow> string \<Rightarrow> string \<Rightarrow> 's \<Rightarrow> (unit, io_error) result flow \<times> 's" where
  "linux_set_env sys p key val s =
     (case linux_is_running sys p s of
        (Err e, s1) \<Rightarrow> (Returns (Err e), s1)
      | (Ok False, s1) \<Rightarrow> (Returns (Err (Custom NotConnected ''PTY process is not running'')), s1)
      | (Ok True, s1) \<Rightarrow>
          (if env_name_ok key val then
             (case linux_write_data sys p (as_bytes (''export '' @ key @ ''='' @ val @ [CHR 0x0A]))
                     (k_setenv sys key val s1) of
                (Err e, s2) \<Rightarrow> (Returns (Err e), s2)
              | (Ok _, s2) \<Rightarrow> (Returns (Ok ()), s2))
           else (Panics, s1)))"

text \<open>\<open>set_log_level\<close> never fails: the level it installs.\<close>

definition linux_log_level :: "string \<Rightarrow> log_level" where
  "linux_log_level level =
     (case level_named (to_lowercase level) of Some l \<Rightarrow> l | None \<Rightarrow> LInfo)"

section \<open>Opening a PTY\<close>

text \<open>A failed \<open>close\<close> changes the errno read after it.\<close>

definition close_then_error :: "'s sys \<Rightarrow> i32 \<Rightarrow> i32 \<Rightarrow> 's \<Rightarrow> io_error \<times> 's" where
  "close_then_error sys fd errno s =
     (case k_close sys fd s of
        ((ret, errno'), s') \<Rightarrow> (linux_os_error (if ret \<noteq> 0 then errno' else errno), s'))"

definition linux_cleanup_fd :: "'s sys \<Rightarrow> i32 \<Rightarrow> i32 \<Rightarrow> i32 \<Rightarrow> 's \<Rightarrow> i32 \<times> 's" where
  "linux_cleanup_fd sys master slave errno s =
     (case k_close sys master s of
        ((ret1, errno1), s1) \<Rightarrow>
      case k_close sys slave s1 of
        ((ret2, errno2), s2) \<Rightarrow>
          (if ret2 \<noteq> 0 then errno2 else if ret1 \<noteq> 0 then errno1 else errno, s2))"

text \<open>
  The calls up to the name, which \<open>new\<close> and \<open>open_new_pty\<close> share word for word.
\<close>

definition open_master :: "'s sys \<Rightarrow> 's pty_calls \<Rightarrow> 's \<Rightarrow> (i32 \<times> bytes, io_error) result \<times> 's" where
  "open_master sys lx s =
     (case l_posix_openpt lx (or O_RDWR O_NOCTTY) s of
        ((master, errno), s1) \<Rightarrow>
          if sint master < 0 then (Err (linux_os_error errno), s1)
          else case l_grantpt lx master s1 of
            ((ret, errno), s2) \<Rightarrow>
              if ret \<noteq> 0 then (case close_then_error sys master errno s2 of (e, s3) \<Rightarrow> (Err e, s3))
              else case l_unlockpt lx master s2 of
                ((ret, errno), s3) \<Rightarrow>
                  if ret \<noteq> 0 then (case close_then_error sys master errno s3 of (e, s4) \<Rightarrow> (Err e, s4))
                  else case l_ptsname lx master s3 of
                    ((None, errno), s4) \<Rightarrow> (case close_then_error sys master errno s4 of (e, s5) \<Rightarrow> (Err e, s5))
                  | ((Some nm, errno), s4) \<Rightarrow> (Ok (master, nm), s4))"

text \<open>
  The name has to be UTF-8; if not, the function returns with the master open. The name is dropped
  on every return after it was wrapped.
\<close>

definition open_new_pty :: "'s sys \<Rightarrow> 's pty_calls \<Rightarrow> 's \<Rightarrow> (i32 \<times> i32, io_error) result ending \<times> 's" where
  "open_new_pty sys lx s =
     (case open_master sys lx s of
        (Err e, s1) \<Rightarrow> (Ends (Returns (Err e)), s1)
      | (Ok (master, nm), s1) \<Rightarrow>
          (if \<not> valid_utf8 nm then drop_name lx (Returns (Err (Custom OtherKind ''Invalid PTY name''))) s1
           else case l_open lx nm O_RDWR s1 of
             ((slave, errno), s2) \<Rightarrow>
               if sint slave < 0 then
                 (case close_then_error sys master errno s2 of (e, s3) \<Rightarrow> drop_name lx (Returns (Err e)) s3)
               else drop_name lx (Returns (Ok (master, slave))) s2))"

section \<open>The child\<close>

definition linux_duplicate_fds :: "'s sys \<Rightarrow> i32 \<Rightarrow> 's \<Rightarrow> bool \<times> 's" where
  "linux_duplicate_fds sys slave_fd s =
     (case k_dup2 sys slave_fd 0 s of
        ((ret, _), s1) \<Rightarrow>
          if sint ret < 0 then (False, k_exit sys 1 s1)
          else case k_dup2 sys slave_fd 1 s1 of
            ((ret, _), s2) \<Rightarrow>
              if sint ret < 0 then (False, k_exit sys 1 s2)
              else case k_dup2 sys slave_fd 2 s2 of
                ((ret, _), s3) \<Rightarrow>
                  if sint ret < 0 then (False, k_exit sys 1 s3) else (True, s3))"

definition linux_setup_child :: "'s sys \<Rightarrow> i32 \<Rightarrow> 's \<Rightarrow> 's" where
  "linux_setup_child sys slave_fd s =
     (case k_setsid sys s of
        ((ret, _), s1) \<Rightarrow>
          if sint ret < 0 then k_exit sys 1 s1
          else case k_set_winsize sys slave_fd 24 80 s1 of
            ((ret, _), s2) \<Rightarrow>
              if sint ret < 0 then k_exit sys 1 s2
              else case linux_duplicate_fds sys slave_fd s2 of
                (False, s3) \<Rightarrow> s3
              | (True, s3) \<Rightarrow>
                  (case k_exec sys ''/bin/bash'' [''bash''] (snd (k_close sys slave_fd s3)) of
                     (ok, s5) \<Rightarrow> if ok then s5 else k_exit sys 1 s5))"

section \<open>Creating a process and changing its shell\<close>

definition linux_new_process :: "'s sys \<Rightarrow> 's pty_calls \<Rightarrow> 's \<Rightarrow> (pty_process, io_error) result ending \<times> 's" where
  "linux_new_process sys lx s =
     (case open_master sys lx s of
        (Err e, s1) \<Rightarrow> (Ends (Returns (Err e)), s1)
      | (Ok (master, nm), s1) \<Rightarrow>
          (if \<not> valid_utf8 nm then drop_name lx (Returns (Err (Custom OtherKind ''Invalid PTY name''))) s1
           else case l_open lx nm O_RDWR s1 of
             ((slave, errno), s2) \<Rightarrow>
               if sint slave < 0 then
                 (case close_then_error sys master errno s2 of (e, s3) \<Rightarrow> drop_name lx (Returns (Err e)) s3)
               else case k_fork sys s2 of
                 ((ret, errno), s3) \<Rightarrow>
                   if ret = -1 then
                     (case linux_cleanup_fd sys master slave errno s3 of
                        (errno', s4) \<Rightarrow> drop_name lx (Returns (Err (linux_os_error errno'))) s4)
                   else if ret = 0 then (Ends InChild, linux_setup_child sys slave s3)
                   else drop_name lx (Returns (Ok \<lparr>master_fd = master, pid = ret, command = ''/bin/bash''\<rparr>))
                          (snd (k_close sys slave s3))))"

text \<open>A path with a NUL byte panics, in the parent, once the new PTY is open.\<close>

definition linux_spawn_new_shell ::
  "'s sys \<Rightarrow> 's pty_calls \<Rightarrow> pty_process \<Rightarrow> string \<Rightarrow> 's
     \<Rightarrow> (unit, io_error) result ending \<times> pty_process \<times> 's" where
  "linux_spawn_new_shell sys lx p shell_path s =
     (case linux_close_master_fd sys p s of
        (Err e, s1) \<Rightarrow> (Ends (Returns (Err e)), p, s1)
      | (Ok _, s1) \<Rightarrow>
          (case open_new_pty sys lx s1 of
             (Ends (Returns (Ok (master, slave))), s2) \<Rightarrow>
               (let p1 = p\<lparr>master_fd := master\<rparr> in
                if CHR 0x00 \<in> set shell_path then (Ends Panics, p1, s2)
                else case k_fork sys s2 of
                  ((ret, errno), s3) \<Rightarrow>
                    if ret = -1 then
                      (case linux_cleanup_fd sys master slave errno s3 of
                         (errno', s4) \<Rightarrow> (Ends (Returns (Err (linux_os_error errno'))), p1, s4))
                    else if ret = 0 then (Ends InChild, p1, linux_setup_child sys slave s3)
                    else (Ends (Returns (Ok ())), p1\<lparr>pid := ret, command := shell_path\<rparr>,
                          snd (k_close sys slave s3)))
           | (Ends (Returns (Err e)), s2) \<Rightarrow> (Ends (Returns (Err e)), p, s2)
           | (_, s2) \<Rightarrow> (Aborts, p, s2)))"

definition linux_change_shell ::
  "'s sys \<Rightarrow> 's pty_calls \<Rightarrow> pty_process \<Rightarrow> string \<Rightarrow> 's
     \<Rightarrow> (unit, io_error) result ending \<times> pty_process \<times> 's" where
  "linux_change_shell sys lx p shell_path s =
     (case linux_kill_process sys p SIGTERM s of
        (Err e, s1) \<Rightarrow> (Ends (Returns (Err e)), p, s1)
      | (Ok _, s1) \<Rightarrow>
          (case linux_waitpid sys p 0 s1 of (_, s2) \<Rightarrow> linux_spawn_new_shell sys lx p shell_path s2))"

end
