(* ===== verification/Process_Objects.thy ===== *)
theory Process_Objects
  imports Linux_Process
begin

text \<open>
  The JavaScript side of a PTY process, on both platforms: the objects a process is written to and
  read from, and the \<open>Multiplexer\<close> of the platform files, a table of descriptors that is not the
  session multiplexer of \<open>src/pty/multiplexer.rs\<close>. Creating an object and setting a property are
  taken to succeed.
\<close>

section \<open>The table of descriptors\<close>

record proc_mux =
  pm_sessions :: "(u32, i32) fmap"

definition proc_mux_new :: proc_mux where
  "proc_mux_new = \<lparr>pm_sessions = fmempty\<rparr>"

definition proc_send_to_session ::
  "'s sys \<Rightarrow> proc_mux \<Rightarrow> u32 \<Rightarrow> bytes \<Rightarrow> 's \<Rightarrow> (unit, napi_error) result \<times> 's" where
  "proc_send_to_session sys m session_id buffer s =
     (case fmlookup (pm_sessions m) session_id of
        None \<Rightarrow> (Err (from_reason (''Session ID '' @ show_u32 session_id @ '' not found'')), s)
      | Some fd \<Rightarrow>
          (case k_write sys fd buffer s of
             ((bytes_written, errno), s') \<Rightarrow>
               if bytes_written < 0 then
                 (Err (from_reason (''Write to session '' @ show_u32 session_id @ '' failed: '' @
                         show_io sys (os_error errno))), s')
               else (Ok (), s')))"

text \<open>
  \<open>send_to_pty\<close> sends on a blocking thread, which does not panic; \<open>disp\<close> is the \<open>Display\<close> of an
  N-API error.
\<close>

definition send_to_pty ::
  "(napi_error \<Rightarrow> string) \<Rightarrow> 's sys \<Rightarrow> proc_mux \<Rightarrow> bytes \<Rightarrow> 's \<Rightarrow> (unit, napi_error) result \<times> 's" where
  "send_to_pty disp sys m data s =
     (case proc_send_to_session sys m 0 data s of (r, s') \<Rightarrow> (map_err (\<lambda>e. from_reason (disp e)) r, s'))"

definition linux_send_to_session ::
  "proc_mux \<Rightarrow> u32 \<Rightarrow> bytes \<Rightarrow> 's \<Rightarrow> (unit, napi_error) result \<times> 's" where
  "linux_send_to_session m session_id buffer s = (Ok (), s)"

definition linux_send_to_pty :: "proc_mux \<Rightarrow> bytes \<Rightarrow> 's \<Rightarrow> (unit, napi_error) result \<times> 's" where
  "linux_send_to_pty m data s = linux_send_to_session m 0 data s"

section \<open>Objects\<close>

text \<open>
  A value of a property: a number as \<open>get_int32\<close> reads it, a string, or an object with the native
  value it wraps, if any.
\<close>

datatype js_value = JsNumber i32 | JsString string | JsObject "(string \<times> js_value) list" "proc_mux option"

type_synonym js_object = "(string \<times> js_value) list"

definition js_set :: "string \<Rightarrow> js_value \<Rightarrow> js_object \<Rightarrow> js_object" where
  "js_set key v obj = (key, v) # filter (\<lambda>kv. fst kv \<noteq> key) obj"

definition mux_object :: js_value where
  "mux_object = JsObject (js_set ''type'' (JsString ''Multiplexer'') []) None"

definition into_js_object :: "pty_process \<Rightarrow> js_object" where
  "into_js_object p =
     js_set ''multiplexer'' mux_object
       (js_set ''command'' (JsString (command p))
         (js_set ''master_fd'' (JsNumber (master_fd p)) (js_set ''pid'' (JsNumber (pid p)) [])))"

text \<open>
  A field of the wrong type, or an object that wraps nothing, is an error of the N-API crate,
  whose text for a field is \<open>type_err\<close>.
\<close>

definition missing :: "string \<Rightarrow> napi_error" where
  "missing key = from_reason (''Missing '' @ [CHR 0x27] @ key @ [CHR 0x27] @ '' field'')"

definition js_number :: "(string \<Rightarrow> napi_error) \<Rightarrow> string \<Rightarrow> js_object \<Rightarrow> (i32, napi_error) result" where
  "js_number type_err key obj =
     (case map_of obj key of
        None \<Rightarrow> Err (missing key)
      | Some (JsNumber n) \<Rightarrow> Ok n
      | Some v \<Rightarrow> Err (type_err key))"

definition js_string :: "(string \<Rightarrow> napi_error) \<Rightarrow> string \<Rightarrow> js_object \<Rightarrow> (string, napi_error) result" where
  "js_string type_err key obj =
     (case map_of obj key of
        None \<Rightarrow> Err (missing key)
      | Some (JsString t) \<Rightarrow> Ok t
      | Some v \<Rightarrow> Err (type_err key))"

definition from_js_object :: "(string \<Rightarrow> napi_error) \<Rightarrow> js_object \<Rightarrow> (pty_process, napi_error) result" where
  "from_js_object type_err obj =
     (case js_number type_err ''pid'' obj of
        Err e \<Rightarrow> Err e
      | Ok pd \<Rightarrow>
          (case js_number type_err ''master_fd'' obj of
             Err e \<Rightarrow> Err e
           | Ok fd \<Rightarrow>
               (case js_string type_err ''command'' obj of
                  Err e \<Rightarrow> Err e
                | Ok cmd \<Rightarrow> Ok \<lparr>master_fd = fd, pid = pd, command = cmd\<rparr>)))"

text \<open>On Linux the table is read from the object too, which has to wrap one.\<close>

definition unwrap_mux :: "napi_error \<Rightarrow> js_value \<Rightarrow> (proc_mux, napi_error) result" where
  "unwrap_mux err v = (case v of JsObject props (Some m) \<Rightarrow> Ok m | _ \<Rightarrow> Err err)"

definition linux_from_js_object ::
  "(string \<Rightarrow> napi_error) \<Rightarrow> js_object \<Rightarrow> (pty_process \<times> proc_mux, napi_error) result" where
  "linux_from_js_object type_err obj =
     (case js_number type_err ''pid'' obj of
        Err e \<Rightarrow> Err e
      | Ok pd \<Rightarrow>
          (case js_number type_err ''master_fd'' obj of
             Err e \<Rightarrow> Err e
           | Ok fd \<Rightarrow>
               (case js_string type_err ''command'' obj of
                  Err e \<Rightarrow> Err e
                | Ok cmd \<Rightarrow>
                    map_ok (\<lambda>m. (\<lparr>master_fd = fd, pid = pd, command = cmd\<rparr>, m))
                      (case map_of obj ''multiplexer'' of
                         Some v \<Rightarrow> unwrap_mux (type_err ''multiplexer'') v
                       | None \<Rightarrow> Ok proc_mux_new))))"

definition linux_into_js_object :: "pty_process \<Rightarrow> js_object" where
  "linux_into_js_object p =
     js_set ''multiplexer'' mux_object
       (js_set ''command'' (JsString (command p))
         (js_set ''master_fd'' (JsNumber (master_fd p)) (js_set ''pid'' (JsNumber (pid p)) [])))"

definition linux_pid :: "(string \<Rightarrow> napi_error) \<Rightarrow> js_object \<Rightarrow> (i32, napi_error) result" where
  "linux_pid type_err obj = map_ok (\<lambda>pm. pid (fst pm)) (linux_from_js_object type_err obj)"

definition send_to_pty_js ::
  "(napi_error \<Rightarrow> string) \<Rightarrow> (string \<Rightarrow> napi_error) \<Rightarrow> 's sys \<Rightarrow> js_value \<Rightarrow> bytes \<Rightarrow> 's
     \<Rightarrow> (unit, napi_error) result \<times> 's" where
  "send_to_pty_js disp type_err sys v data s =
     (case unwrap_mux (type_err ''multiplexer'') v of
        Err e \<Rightarrow> (Err e, s)
      | Ok m \<Rightarrow> send_to_pty disp sys m data s)"

definition linux_send_to_pty_js ::
  "(string \<Rightarrow> napi_error) \<Rightarrow> js_value \<Rightarrow> bytes \<Rightarrow> 's \<Rightarrow> (unit, napi_error) result \<times> 's" where
  "linux_send_to_pty_js type_err v data s =
     (case unwrap_mux (type_err ''multiplexer'') v of
        Err e \<Rightarrow> (Err e, s)
      | Ok m \<Rightarrow> linux_send_to_pty m data s)"

text \<open>The helper of \<open>src/pty/handle.rs\<close>.\<close>

definition pty_process_to_js_object :: "pty_process \<Rightarrow> js_object" where
  "pty_process_to_js_object p =
     js_set ''command'' (JsString (command p)) (js_set ''pid'' (JsNumber (pid p)) [])"

lemmas js_defs = js_set_def js_number_def js_string_def missing_def mux_object_def unwrap_mux_def

section \<open>Round trips\<close>

lemma from_js_object_into [simp]: "from_js_object type_err (into_js_object p) = Ok p"
  by (cases p) (simp add: from_js_object_def into_js_object_def js_defs)

lemma from_js_object_handle:
  "from_js_object type_err (pty_process_to_js_object p) =
     Err (from_reason (''Missing '' @ [CHR 0x27] @ ''master_fd'' @ [CHR 0x27] @ '' field''))"
  by (simp add: from_js_object_def pty_process_to_js_object_def js_defs)

lemma linux_from_js_object_into:
  "linux_from_js_object type_err (linux_into_js_object p) = Err (type_err ''multiplexer'')"
  by (simp add: linux_from_js_object_def linux_into_js_object_def js_defs)

lemma show_u32_0: "show_u32 0 = ''0''"
  by code_simp

lemma send_to_pty_new:
  "send_to_pty disp sys proc_mux_new data s =
     (Err (from_reason (disp (from_reason ''Session ID 0 not found''))), s)"
  by (simp add: send_to_pty_def proc_send_to_session_def proc_mux_new_def show_u32_0)

end
