(* ===== verification/Handle.thy ===== *)
theory Handle
  imports Handler_Laws Process_Objects
begin

text \<open>
  \<open>src/pty/handle.rs\<close>: the handle JavaScript programs hold. A method sends one command over the
  bounded channel to the command-handler thread and awaits the answer with a timeout; what the
  call can end in is a \<open>call_result\<close>, and \<open>call\<close> is the channel: it takes the timeout in
  milliseconds and the command. The section on the channel gives the one whose other end is
  \<open>handle_commands\<close>. Third-party code is a parameter: the JSON parser of \<open>serde_json\<close>, and the
  text of a failed send.
\<close>

section \<open>Calls over the channel\<close>

text \<open>
  \<open>Dropped\<close>: the responder went away unused. \<open>Never\<close>: the method waits for ever, because the
  send blocks on a full channel.
\<close>

datatype call_result = SendFailed string | Answered pty_result | Dropped | TimedOut | Never

type_synonym 'w channel = "nat \<Rightarrow> pty_command \<Rightarrow> 'w \<Rightarrow> call_result \<times> 'w"

definition unknown :: "string \<Rightarrow> napi_error" where
  "unknown msg = napi_err UnknownStatus msg"

text \<open>\<open>map_to_napi_error\<close>, with the text its argument displays as.\<close>

definition map_to_napi_error :: "string \<Rightarrow> napi_error" where
  "map_to_napi_error msg = from_reason msg"

text \<open>
  The arms all methods share: a failed send, a dropped responder, a timeout. The strings are the
  method's own.
\<close>

fun settle :: "string \<Rightarrow> string \<Rightarrow> string \<Rightarrow> (pty_result \<Rightarrow> ('a, napi_error) result) \<Rightarrow> call_result
    \<Rightarrow> ('a, napi_error) result flow" where
  "settle unsent dropped late answer (SendFailed e) = Returns (Err (map_to_napi_error (unsent @ '': '' @ e)))"
| "settle unsent dropped late answer (Answered r) = Returns (answer r)"
| "settle unsent dropped late answer Dropped = Returns (Err (unknown dropped))"
| "settle unsent dropped late answer TimedOut = Returns (Err (unknown late))"
| "settle unsent dropped late answer Never = Hangs"

definition ask :: "'w channel \<Rightarrow> nat \<Rightarrow> pty_command \<Rightarrow> string \<Rightarrow> string \<Rightarrow> string
    \<Rightarrow> (pty_result \<Rightarrow> ('a, napi_error) result) \<Rightarrow> 'w \<Rightarrow> ('a, napi_error) result flow \<times> 'w" where
  "ask call ms cmd unsent dropped late answer w =
     (case call ms cmd w of (r, w1) \<Rightarrow> (settle unsent dropped late answer r, w1))"

text \<open>The answer of a method without a result, and of one whose result is a parsed text.\<close>

fun done_or :: "string \<Rightarrow> pty_result \<Rightarrow> (unit, napi_error) result" where
  "done_or unexpected (Success t) = Ok ()"
| "done_or unexpected (Failure msg) = Err (unknown msg)"
| "done_or unexpected (Data d) = Err (unknown unexpected)"

fun parsed_or :: "string \<Rightarrow> (string \<Rightarrow> ('a, napi_error) result) \<Rightarrow> pty_result \<Rightarrow> ('a, napi_error) result" where
  "parsed_or unexpected parse (Success t) = parse t"
| "parsed_or unexpected parse (Failure msg) = Err (unknown msg)"
| "parsed_or unexpected parse (Data d) = Err (unknown unexpected)"

section \<open>Methods on the process\<close>

definition h_write :: "'w channel \<Rightarrow> string \<Rightarrow> 'w \<Rightarrow> (unit, napi_error) result flow \<times> 'w" where
  "h_write call data w =
     ask call 5000 (Write (as_bytes data)) ''Failed to send write command''
       ''Write operation receiver dropped'' ''Write operation timed out''
       (done_or ''Write operation returned unexpected data'') w"

definition h_force_kill :: "'w channel \<Rightarrow> u32 \<Rightarrow> 'w \<Rightarrow> (unit, napi_error) result flow \<times> 'w" where
  "h_force_kill call force_timeout_ms w =
     ask call (unat force_timeout_ms) ForceKill ''Failed to send force kill command''
       ''Force kill operation receiver dropped'' ''Force kill operation timed out''
       (done_or ''Force kill operation returned unexpected result'') w"

text \<open>
  \<open>resize\<close> and \<open>close\<close> force-kill the process when the answer is a failure or does not come in
  time.
\<close>

definition or_force_kill :: "'w channel \<Rightarrow> string \<Rightarrow> string \<Rightarrow> string
    \<Rightarrow> call_result \<times> 'w \<Rightarrow> (unit, napi_error) result flow \<times> 'w" where
  "or_force_kill call unsent dropped unexpected rw =
     (case rw of
        (SendFailed e, w1) \<Rightarrow> (Returns (Err (map_to_napi_error (unsent @ '': '' @ e))), w1)
      | (Answered (Success t), w1) \<Rightarrow> (Returns (Ok ()), w1)
      | (Answered (Failure msg), w1) \<Rightarrow> h_force_kill call 5000 w1
      | (Answered (Data d), w1) \<Rightarrow> (Returns (Err (unknown unexpected)), w1)
      | (Dropped, w1) \<Rightarrow> (Returns (Err (unknown dropped)), w1)
      | (TimedOut, w1) \<Rightarrow> h_force_kill call 5000 w1
      | (Never, w1) \<Rightarrow> (Hangs, w1))"

definition h_resize :: "'w channel \<Rightarrow> u16 \<Rightarrow> u16 \<Rightarrow> 'w \<Rightarrow> (unit, napi_error) result flow \<times> 'w" where
  "h_resize call cols rows w =
     or_force_kill call ''Failed to send resize command'' ''Resize operation receiver dropped''
       ''Resize operation returned unexpected result'' (call 5000 (Resize cols rows) w)"

definition h_close :: "'w channel \<Rightarrow> 'w \<Rightarrow> (unit, napi_error) result flow \<times> 'w" where
  "h_close call w =
     or_force_kill call ''Failed to send close command'' ''Close operation receiver dropped''
       ''Close operation returned unexpected result'' (call 10000 Close w)"

fun text_of :: "pty_result \<Rightarrow> (string, napi_error) result" where
  "text_of (Data bytes) = Ok (from_utf8_lossy (as_slice bytes))"
| "text_of (Success msg) = Ok msg"
| "text_of (Failure msg) = Err (unknown msg)"

definition h_read :: "'w channel \<Rightarrow> 'w \<Rightarrow> (string, napi_error) result flow \<times> 'w" where
  "h_read call w =
     ask call 5000 Read ''Failed to send read command'' ''Read operation receiver dropped''
       ''Read operation timed out'' text_of w"

definition h_execute :: "'w channel \<Rightarrow> string \<Rightarrow> 'w \<Rightarrow> (string, napi_error) result flow \<times> 'w" where
  "h_execute call cmd w =
     ask call 5000 (Execute cmd) ''Failed to send execute command''
       ''Execute operation receiver dropped'' ''Execute operation timed out'' text_of w"

definition parse_pid :: "string \<Rightarrow> (i32, napi_error) result" where
  "parse_pid t = map_err (\<lambda>_. unknown ''Failed to parse PID'') (parse_i32 t)"

definition h_waitpid :: "'w channel \<Rightarrow> i32 \<Rightarrow> 'w \<Rightarrow> (i32, napi_error) result flow \<times> 'w" where
  "h_waitpid call opts w =
     ask call 5000 (WaitPid opts) ''Failed to send waitpid command''
       ''Waitpid operation receiver dropped'' ''Waitpid operation timed out''
       (parsed_or ''Waitpid operation returned unexpected result'' parse_pid) w"

definition h_set_env :: "'w channel \<Rightarrow> string \<Rightarrow> string \<Rightarrow> 'w \<Rightarrow> (unit, napi_error) result flow \<times> 'w" where
  "h_set_env call key val w =
     ask call 5000 (SetEnv key val) ''Failed to send set_env command''
       ''SetEnv operation receiver dropped'' ''SetEnv operation timed out''
       (done_or ''SetEnv operation returned unexpected result'') w"

definition h_change_shell :: "'w channel \<Rightarrow> string \<Rightarrow> 'w \<Rightarrow> (unit, napi_error) result flow \<times> 'w" where
  "h_change_shell call shell_path w =
     ask call 5000 (ChangeShell shell_path) ''Failed to send change shell command''
       ''Change shell operation receiver dropped'' ''Change shell operation timed out''
       (done_or ''Change shell operation returned unexpected result'') w"

definition h_status :: "'w channel \<Rightarrow> 'w \<Rightarrow> (string, napi_error) result flow \<times> 'w" where
  "h_status call w =
     ask call 5000 Status ''Failed to send status command''
       ''Status operation receiver dropped'' ''Status operation timed out''
       (parsed_or ''Status operation returned unexpected result'' Ok) w"

text \<open>
  \<open>get_pid\<close> and \<open>log_pid\<close> ask the process of the handle's own multiplexer, \<open>set_log_level\<close>
  the logger; none uses the channel. \<open>from_io\<close> is the conversion of an I/O error to an N-API
  error that the N-API crate provides.
\<close>

definition h_get_pid :: "(io_error \<Rightarrow> napi_error) \<Rightarrow> 's pty_iface \<Rightarrow> 's \<Rightarrow> (i32, napi_error) result \<times> 's" where
  "h_get_pid from_io ifc s = (case if_get_pid ifc s of (r, s1) \<Rightarrow> (map_err from_io r, s1))"

definition h_log_pid :: "(io_error \<Rightarrow> napi_error) \<Rightarrow> 's pty_iface \<Rightarrow> 's \<Rightarrow> (unit, napi_error) result \<times> 's" where
  "h_log_pid from_io ifc s = (case h_get_pid from_io ifc s of (r, s1) \<Rightarrow> (map_ok (\<lambda>_. ()) r, s1))"

definition h_set_log_level :: "string \<Rightarrow> log_level \<Rightarrow> (unit, napi_error) result \<times> log_level" where
  "h_set_log_level level lv =
     (case level_named (to_lowercase level) of
        Some l \<Rightarrow> (Ok (), l)
      | None \<Rightarrow> (Err (napi_err InvalidArg ''Invalid log level''), lv))"

section \<open>Methods on sessions\<close>

text \<open>\<open>serde_json::from_str\<close> at the three types the methods parse.\<close>

record json =
  j_ids :: "string \<Rightarrow> u32 list option"
  j_pair :: "string \<Rightarrow> (u32 \<times> u32) option"
  j_sessions :: "string \<Rightarrow> (u32 \<times> string) list option"

record split_session_result =
  session1 :: u32
  session2 :: u32

definition deserialize :: "string \<Rightarrow> 'a option \<Rightarrow> ('a, napi_error) result" where
  "deserialize msg r = (case r of Some x \<Rightarrow> Ok x | None \<Rightarrow> Err (map_to_napi_error msg))"

definition parse_session_id :: "string \<Rightarrow> (u32, napi_error) result" where
  "parse_session_id t = map_err (\<lambda>_. unknown ''Failed to parse session ID'') (parse_u32 t)"

definition h_create_session :: "'w channel \<Rightarrow> 'w \<Rightarrow> (u32, napi_error) result flow \<times> 'w" where
  "h_create_session call w =
     ask call 5000 CreateSession ''Failed to send create session command''
       ''Create session operation receiver dropped'' ''Create session operation timed out''
       (parsed_or ''Create session operation returned unexpected result'' parse_session_id) w"

definition h_close_all_sessions :: "'w channel \<Rightarrow> 'w \<Rightarrow> (unit, napi_error) result flow \<times> 'w" where
  "h_close_all_sessions call w =
     ask call 5000 CloseAllSessions ''Failed to send close all sessions command''
       ''Close all sessions operation receiver dropped'' ''Close all sessions operation timed out''
       (done_or ''Close all sessions operation returned unexpected data'') w"

definition h_list_sessions :: "json \<Rightarrow> 'w channel \<Rightarrow> 'w \<Rightarrow> (u32 list, napi_error) result flow \<times> 'w" where
  "h_list_sessions js call w =
     ask call 5000 ListSessions ''Failed to send list sessions command''
       ''List sessions operation receiver dropped'' ''List sessions operation timed out''
       (parsed_or ''List sessions operation returned unexpected data''
          (\<lambda>t. deserialize ''Failed to deserialize session IDs'' (j_ids js t))) w"

definition h_send_to_session :: "'w channel \<Rightarrow> u32 \<Rightarrow> bytes \<Rightarrow> 'w \<Rightarrow> (unit, napi_error) result flow \<times> 'w" where
  "h_send_to_session call sid data w =
     ask call 5000 (SendToSession sid data) ''Failed to send to session command''
       ''Send to session operation receiver dropped'' ''Send to session operation timed out''
       (done_or ''Send to session operation returned unexpected data'') w"

definition h_broadcast :: "'w channel \<Rightarrow> bytes \<Rightarrow> 'w \<Rightarrow> (unit, napi_error) result flow \<times> 'w" where
  "h_broadcast call data w =
     ask call 5000 (Broadcast data) ''Failed to send broadcast command''
       ''Broadcast operation receiver dropped'' ''Broadcast operation timed out''
       (done_or ''Broadcast operation returned unexpected data'') w"

definition h_read_from_session :: "'w channel \<Rightarrow> u32 \<Rightarrow> 'w \<Rightarrow> (string, napi_error) result flow \<times> 'w" where
  "h_read_from_session call sid w =
     ask call 5000 (ReadFromSession sid) ''Failed to send read from session command''
       ''Read from session operation receiver dropped'' ''Read from session timed out''
       (parsed_or ''Read from session operation returned unexpected data'' Ok) w"

definition h_read_all_sessions ::
  "json \<Rightarrow> 'w channel \<Rightarrow> 'w \<Rightarrow> ((u32 \<times> string) list, napi_error) result flow \<times> 'w" where
  "h_read_all_sessions js call w =
     ask call 5000 ReadAllSessions ''Failed to send read all sessions command''
       ''Read all sessions operation receiver dropped'' ''Read all sessions timed out''
       (parsed_or ''Read all sessions operation returned unexpected data''
          (\<lambda>t. deserialize ''Failed to deserialize session data'' (j_sessions js t))) w"

definition h_remove_session :: "'w channel \<Rightarrow> u32 \<Rightarrow> 'w \<Rightarrow> (unit, napi_error) result flow \<times> 'w" where
  "h_remove_session call sid w =
     ask call 5000 (RemoveSession sid) ''Failed to send remove session command''
       ''Remove session operation receiver dropped'' ''Remove session operation timed out''
       (done_or ''Remove session operation returned unexpected data'') w"

definition h_merge_sessions :: "'w channel \<Rightarrow> u32 list \<Rightarrow> 'w \<Rightarrow> (unit, napi_error) result flow \<times> 'w" where
  "h_merge_sessions call ids w =
     (if ids = [] then (Returns (Err (napi_err InvalidArg ''No session IDs provided for merging'')), w)
      else ask call 5000 (MergeSessions ids) ''Failed to send merge sessions command''
             ''Merge sessions operation receiver dropped'' ''Merge sessions operation timed out''
             (done_or ''Merge sessions operation returned unexpected data'') w)"

definition h_split_session ::
  "json \<Rightarrow> 'w channel \<Rightarrow> u32 \<Rightarrow> 'w \<Rightarrow> (split_session_result, napi_error) result flow \<times> 'w" where
  "h_split_session js call sid w =
     ask call 5000 (SplitSession sid) ''Failed to send split session command''
       ''Split session operation receiver dropped'' ''Split session operation timed out''
       (parsed_or ''Split session operation returned unexpected data''
          (\<lambda>t. map_ok (\<lambda>(a, b). \<lparr>session1 = a, session2 = b\<rparr>)
                 (deserialize ''Failed to deserialize split session data'' (j_pair js t)))) w"

lemmas [handle_defs] =
  h_write_def h_force_kill_def h_resize_def h_close_def h_read_def h_execute_def h_waitpid_def
  h_set_env_def h_change_shell_def h_status_def h_create_session_def h_close_all_sessions_def
  h_list_sessions_def h_send_to_session_def h_broadcast_def h_read_from_session_def
  h_read_all_sessions_def h_remove_session_def h_merge_sessions_def h_split_session_def

section \<open>The channel to the handler thread\<close>

text \<open>
  One client that makes one call at a time. The channel holds at most 100 commands
  (\<open>bounded(100)\<close>). A thread that waits for a command takes it at once; \<open>lateness\<close> says, call by
  call, whether the answer misses the timeout of the method, in which case the command is
  processed all the same. A stuck thread takes no more commands: they fill the channel, and a
  send on a full channel blocks. Once the thread has ended the receiver is gone and a send fails,
  with the text \<open>send_err\<close> of the channel crate. In the child of a fork there is no caller.
\<close>

record 's link =
  lworld :: "'s world"
  lstate :: loop_state
  queued :: nat
  lateness :: "bool list"

definition channel_capacity :: nat where
  "channel_capacity = 100"

fun next_late :: "bool list \<Rightarrow> bool" where
  "next_late [] = False"
| "next_late (b # bs) = b"

definition state_after :: "pty_command \<Rightarrow> pty_result flow \<Rightarrow> loop_state" where
  "state_after cmd f =
     (case f of
        Returns r \<Rightarrow> if cmd = ShutdownPty then Stopped else Waiting
      | Hangs \<Rightarrow> Stuck
      | Panics \<Rightarrow> Crashed
      | InChild \<Rightarrow> Forked)"

definition handler_call :: "string \<Rightarrow> 's ctx \<Rightarrow> 's link channel" where
  "handler_call send_err c ms cmd l =
     (case lstate l of
        Waiting \<Rightarrow>
          (case handle c cmd (lworld l) of
             (f, w1) \<Rightarrow>
               (let l1 = l\<lparr>lworld := w1, lstate := state_after cmd f, lateness := tl (lateness l)\<rparr>
                in case f of
                     Returns r \<Rightarrow> (if next_late (lateness l) then TimedOut else Answered r, l1)
                   | Hangs \<Rightarrow> (TimedOut, l1)
                   | Panics \<Rightarrow> (Dropped, l1)
                   | InChild \<Rightarrow> (Never, l1)))
      | Stuck \<Rightarrow>
          (if queued l < channel_capacity then (TimedOut, l\<lparr>queued := queued l + 1\<rparr>) else (Never, l))
      | Forked \<Rightarrow> (Never, l)
      | _ \<Rightarrow> (SendFailed send_err, l))"

text \<open>
  \<open>Drop\<close>: the shutdown command is sent and its answer not awaited; nothing happens when the send
  fails.
\<close>

definition h_drop :: "'s link channel \<Rightarrow> 's link \<Rightarrow> 's link" where
  "h_drop call l = snd (call 0 ShutdownPty l)"

text \<open>
  The background read task of the handle: it ends on the shutdown signal and, unlike the task of
  the multiplexer, on the first error.
\<close>

definition handle_task_turn ::
  "(u32 \<Rightarrow> nat) \<Rightarrow> (io_error \<Rightarrow> string) \<Rightarrow> 's pty_iface \<Rightarrow> bool \<Rightarrow> mux \<times> 's \<Rightarrow> bool \<times> (mux \<times> 's)" where
  "handle_task_turn h disp ifc signalled ms =
     (if signalled then (False, ms)
      else case read_and_dispatch h disp ifc (fst ms) (snd ms) of
        (Returns (Ok _), m1, s1) \<Rightarrow> (True, (m1, s1))
      | (_, m1, s1) \<Rightarrow> (False, (m1, s1)))"

section \<open>The construction of a handle\<close>

text \<open>\<open>PtyMultiplexer::new\<close>: the process read back from the object, and an empty table.\<close>

definition mux_new :: "(string \<Rightarrow> napi_error) \<Rightarrow> js_object \<Rightarrow> (pty_process \<times> mux, napi_error) result" where
  "mux_new type_err obj = map_ok (\<lambda>p. (p, new_mux)) (from_js_object type_err obj)"

text \<open>\<open>PtyHandle::new\<close>, up to the threads it starts: the world of the handler thread.\<close>

definition h_new ::
  "(string \<Rightarrow> napi_error) \<Rightarrow> 's ctx \<Rightarrow> log_level \<Rightarrow> 's \<Rightarrow> ('s world, napi_error) result flow \<times> 's" where
  "h_new type_err c lv s =
     (case new_process (c_sys c) s of
        (Returns (Err e), s1) \<Rightarrow>
          (Returns (Err (napi_err GenericFailure
             (''Failed to initialize PTY process: '' @ show_err c e))), s1)
      | (Returns (Ok p), s1) \<Rightarrow>
          (case mux_new type_err (pty_process_to_js_object p) of
             Err e \<Rightarrow> (Returns (Err (napi_err GenericFailure
                         (''Failed to initialize multiplexer: '' @ c_napi c e))), s1)
           | Ok pm \<Rightarrow>
               (Returns (Ok \<lparr>os = s1, hpty = Some p, hmux = Some pm, max_level = lv\<rparr>), s1))
      | (Panics, s1) \<Rightarrow> (Panics, s1)
      | (Hangs, s1) \<Rightarrow> (Hangs, s1)
      | (InChild, s1) \<Rightarrow> (InChild, s1))"

end
