(* ===== verification/Handle_Laws.thy ===== *)
theory Handle_Laws
  imports Handle
begin

text \<open>
  What the methods of the handle guarantee: the shape of the answers they rely on, the command
  channel as an interface with the lemmas proved against it and its interpretation on the handler
  thread, the behaviour of the methods on a stuck thread, and the construction of a handle.
\<close>

section \<open>What the methods rely on\<close>

text \<open>The answers the handler thread gives to each command, as far as the methods parse them.\<close>

fun answer_shape :: "pty_command \<Rightarrow> pty_result \<Rightarrow> bool" where
  "answer_shape cmd (Failure msg) = True"
| "answer_shape cmd (Data d) = (cmd = Read \<or> cmd = ReadAll)"
| "answer_shape cmd (Success t) =
     (case cmd of
        CreateSession \<Rightarrow> (\<exists>sid. t = ''Session ID: '' @ show_u32 sid)
      | ListSessions \<Rightarrow> (\<exists>ids. t = ''Sessions: '' @ show_u32_list ids)
      | SplitSession sid \<Rightarrow> t = ''Split session '' @ show_u32 sid @ '' into sub-sessions''
      | ReadAllSessions \<Rightarrow> (\<exists>ds. t = join [CHR 0x0A] (map show_session_data ds))
      | MergeSessions ids \<Rightarrow> False
      | WaitPid opts \<Rightarrow> (\<exists>pd. t = show_i32 pd)
      | Status \<Rightarrow> t \<in> {''Running'', ''Not Running'', ''Unknown''}
      | Read \<Rightarrow> False
      | ReadAll \<Rightarrow> False
      | _ \<Rightarrow> True)"

lemma reply_shape:
  assumes "\<And>x. answer_shape cmd (ok x)"
  shows "answer_shape cmd (reply c ok what r)"
  using assms by (cases r) auto

lemma handle_shape:
  assumes "world_inv w" "fst (handle c cmd w) = Returns r"
  shows "answer_shape cmd r"
proof (cases cmd)
  case (ReadFromSession sid)
  then show ?thesis using handle_data [of c cmd w] assms(2) by (cases r) auto
next
  case ReadAllSessions
  show ?thesis
    using assms(2) unfolding ReadAllSessions
    by (auto simp: handle_read_all_sessions_def mux_missing_def
        split: option.splits prod.splits flow.splits result.splits)
next
  case (MergeSessions ids)
  then show ?thesis using handle_merge_cases [OF assms(1), of c ids] assms(2)
    by (cases "existing_merge w (MergeSessions ids)") (auto simp: prod_eq_iff)
next
  case (SplitSession sid)
  then show ?thesis using assms(2)
    by (auto simp: handle_split_session_def mux_missing_def
        split: option.splits prod.splits flow.splits result.splits)
next
  case Status
  obtain x w1 where x: "with_pty (pty_status (c_sys c)) w = (x, w1)" by fastforce
  have "x = Ok t \<Longrightarrow> t \<in> {''Running'', ''Not Running'', ''Unknown''}" for t
    using x by (auto simp: with_pty_def pty_status_def split: option.splits prod.splits if_splits)
  then show ?thesis using assms(2) x unfolding Status
    by (cases x) (auto simp: handle_status_def)
next
  case (SetEnv key val)
  then show ?thesis using handle_data [of c cmd w] assms(2) by (cases r) auto
next
  case (ChangeShell path)
  then show ?thesis using handle_data [of c cmd w] assms(2) by (cases r) auto
next
  case (SetLogLevel level)
  then show ?thesis using handle_data [of c cmd w] assms(2) by (cases r) auto
qed (use assms(2) in \<open>auto simp: handler_defs split_def intro!: reply_shape\<close>)

text \<open>The law of the JSON grammar: an array starts, after white space, with a square bracket.\<close>

definition json_space :: "char \<Rightarrow> bool" where
  "json_space ch \<longleftrightarrow> ch \<in> {CHR '' '', CHR 0x09, CHR 0x0A, CHR 0x0D}"

definition array_text :: "string \<Rightarrow> bool" where
  "array_text t \<longleftrightarrow> (\<exists>rest. dropWhile json_space t = CHR ''['' # rest)"

definition json_law :: "json \<Rightarrow> bool" where
  "json_law js \<longleftrightarrow> (\<forall>t. \<not> array_text t \<longrightarrow> j_ids js t = None \<and> j_pair js t = None \<and> j_sessions js t = None)"

lemma json_lawD:
  "json_law js \<Longrightarrow> \<not> array_text t \<Longrightarrow> j_ids js t = None \<and> j_pair js t = None \<and> j_sessions js t = None"
  by (simp add: json_law_def)

lemma not_array_prefix [simp]:
  "\<not> array_text (''Sessions: '' @ t)" "\<not> array_text (''Split session '' @ t)"
  by (simp_all add: array_text_def json_space_def)

lemma not_array_data [simp]: "\<not> array_text (join [CHR 0x0A] (map show_session_data ds))"
proof (cases ds)
  case Nil
  then show ?thesis by (simp add: array_text_def)
next
  case (Cons d es)
  then show ?thesis
    by (cases es) (simp_all add: array_text_def json_space_def show_session_data_def)
qed

lemma shape_not_array:
  "answer_shape ListSessions (Success t) \<Longrightarrow> \<not> array_text t"
  "answer_shape (SplitSession sid) (Success t) \<Longrightarrow> \<not> array_text t"
  "answer_shape ReadAllSessions (Success t) \<Longrightarrow> \<not> array_text t"
  by (auto simp: array_text_def json_space_def) (use not_array_data in \<open>auto simp: array_text_def json_space_def\<close>)

lemma parse_session_id_reply: "\<not> is_ok (parse_session_id (''Session ID: '' @ t))"
proof -
  have "\<not> is_ok (parse_u32 (''Session ID: '' @ t))"
    by (rule parse_u32_bad_digit [of "CHR '':''"]) (simp_all add: digit_val_def)
  then show ?thesis by (simp add: parse_session_id_def)
qed

lemma parse_session_id_reply_Err:
  "parse_session_id (''Session ID: '' @ t) = Err (unknown ''Failed to parse session ID'')"
  using parse_session_id_reply [of t] unfolding parse_session_id_def
  by (cases "parse_u32 (''Session ID: '' @ t)") simp_all

section \<open>The command channel as an interface\<close>

text \<open>
  A channel whose answers have the shape the methods are written for, with an invariant every call
  keeps. The methods are verified against it; the handler thread provides it below.
\<close>

locale command_channel =
  fixes call :: "'w channel"
    and inv :: "'w \<Rightarrow> bool"
  assumes shape: "inv w \<Longrightarrow> call ms cmd w = (Answered r, w') \<Longrightarrow> answer_shape cmd r"
    and keeps: "inv w \<Longrightarrow> call ms cmd w = (res, w') \<Longrightarrow> inv w'"
begin

lemma ask_ok:
  assumes "ask call ms cmd unsent dropped late answer w = (Returns (Ok x), w')"
  shows "\<exists>r. call ms cmd w = (Answered r, w') \<and> answer r = Ok x"
  using assms by (auto simp: ask_def split: prod.splits elim!: settle.elims)

lemma ask_keeps:
  "inv w \<Longrightarrow> ask call ms cmd unsent dropped late answer w = (res, w') \<Longrightarrow> inv w'"
  by (auto simp: ask_def split: prod.splits dest: keeps)

lemma parsed_ok:
  assumes "inv w" "ask call ms cmd u d l (parsed_or unexpected parse) w = (Returns (Ok x), w')"
  shows "\<exists>t. call ms cmd w = (Answered (Success t), w') \<and> answer_shape cmd (Success t) \<and> parse t = Ok x"
proof -
  from ask_ok [OF assms(2)] obtain r where r: "call ms cmd w = (Answered r, w')"
    "parsed_or unexpected parse r = Ok x" by blast
  with shape [OF assms(1) r(1)] show ?thesis by (cases r) auto
qed

lemma parsed_fst:
  assumes "inv w" "fst (ask call ms cmd u d l (parsed_or unexpected parse) w) = Returns (Ok x)"
  shows "\<exists>t. answer_shape cmd (Success t) \<and> parse t = Ok x"
  using parsed_ok [OF assms(1), of ms cmd u d l unexpected parse x] assms(2)
  by (cases "ask call ms cmd u d l (parsed_or unexpected parse) w") auto

text \<open>\<open>Session ID: 1\<close> is not a number: a session id is never returned.\<close>

lemma create_session_not_ok:
  assumes "inv w"
  shows "fst (h_create_session call w) \<noteq> Returns (Ok sid)"
proof
  assume "fst (h_create_session call w) = Returns (Ok sid)"
  from parsed_fst [OF assms this [unfolded h_create_session_def]] obtain t where "answer_shape CreateSession (Success t)" "parse_session_id t = Ok sid"
    by blast
  then show False using parse_session_id_reply by (auto simp: is_ok_iff)
qed

lemma list_sessions_not_ok:
  assumes "inv w" "json_law js"
  shows "fst (h_list_sessions js call w) \<noteq> Returns (Ok ids)"
proof
  assume "fst (h_list_sessions js call w) = Returns (Ok ids)"
  from parsed_fst [OF assms(1) this [unfolded h_list_sessions_def]] obtain t where "answer_shape ListSessions (Success t)"
      "deserialize ''Failed to deserialize session IDs'' (j_ids js t) = Ok ids"
    by blast
  then show False using json_lawD [OF assms(2) shape_not_array(1)] by (auto simp: deserialize_def)
qed

lemma split_session_not_ok:
  assumes "inv w" "json_law js"
  shows "fst (h_split_session js call sid w) \<noteq> Returns (Ok ids)"
proof
  assume "fst (h_split_session js call sid w) = Returns (Ok ids)"
  from parsed_fst [OF assms(1) this [unfolded h_split_session_def]] obtain t where "answer_shape (SplitSession sid) (Success t)"
      "map_ok (\<lambda>(a, b). \<lparr>session1 = a, session2 = b\<rparr>)
         (deserialize ''Failed to deserialize split session data'' (j_pair js t)) = Ok ids"
    by blast
  then show False using json_lawD [OF assms(2) shape_not_array(2)] by (auto simp: deserialize_def)
qed

lemma read_all_sessions_not_ok:
  assumes "inv w" "json_law js"
  shows "fst (h_read_all_sessions js call w) \<noteq> Returns (Ok ds)"
proof
  assume "fst (h_read_all_sessions js call w) = Returns (Ok ds)"
  from parsed_fst [OF assms(1) this [unfolded h_read_all_sessions_def]] obtain t where "answer_shape ReadAllSessions (Success t)"
      "deserialize ''Failed to deserialize session data'' (j_sessions js t) = Ok ds"
    by blast
  then show False using json_lawD [OF assms(2) shape_not_array(3)] by (auto simp: deserialize_def)
qed

lemma merge_sessions_not_ok:
  assumes "inv w"
  shows "fst (h_merge_sessions call ids w) \<noteq> Returns (Ok ())"
proof
  assume ok: "fst (h_merge_sessions call ids w) = Returns (Ok ())"
  then have "ids \<noteq> []" by (auto simp: h_merge_sessions_def)
  with ok obtain w' where "ask call 5000 (MergeSessions ids) ''Failed to send merge sessions command''
      ''Merge sessions operation receiver dropped'' ''Merge sessions operation timed out''
      (done_or ''Merge sessions operation returned unexpected data'') w = (Returns (Ok ()), w')"
    by (auto simp: h_merge_sessions_def prod_eq_iff)
  from ask_ok [OF this] obtain r where r: "call 5000 (MergeSessions ids) w = (Answered r, w')"
      "done_or ''Merge sessions operation returned unexpected data'' r = Ok ()"
    by blast
  then show False using shape [OF assms r(1)] by (cases r) auto
qed

text \<open>A process id that comes back is one the thread sent, and every one it sends is parsed.\<close>

lemma waitpid_ok:
  assumes "inv w" "call 5000 (WaitPid opts) w = (Answered (Success t), w')"
  shows "\<exists>pd. t = show_i32 pd \<and> h_waitpid call opts w = (Returns (Ok pd), w')"
proof -
  from shape [OF assms] obtain pd where "t = show_i32 pd" by auto
  then show ?thesis
    using assms(2) by (auto simp: h_waitpid_def ask_def parse_pid_def num_simps)
qed

lemma status_ok:
  assumes "inv w" "fst (h_status call w) = Returns (Ok t)"
  shows "t \<in> {''Running'', ''Not Running'', ''Unknown''}"
proof -
  from parsed_fst [OF assms(1) assms(2) [unfolded h_status_def]] obtain t' where
    "answer_shape Status (Success t')" "Ok t' = (Ok t :: (string, napi_error) result)"
    by blast
  then show ?thesis by simp
qed

end

text \<open>The handler thread is such a channel.\<close>

definition link_inv :: "'s link \<Rightarrow> bool" where
  "link_inv l \<longleftrightarrow> (lstate l = Waiting \<longrightarrow> world_inv (lworld l))"

lemma handler_call_shape:
  assumes "link_inv l" "handler_call send_err c ms cmd l = (Answered r, l')"
  shows "answer_shape cmd r"
  using assms handle_shape [of "lworld l" c cmd]
  by (auto simp: handler_call_def link_inv_def Let_def split: loop_state.splits prod.splits
      flow.splits if_splits)

lemma handler_call_inv:
  assumes "link_inv l" "handler_call send_err c ms cmd l = (res, l')"
  shows "link_inv l'"
  using assms handle_inv [of "lworld l" c cmd]
  by (auto simp: handler_call_def link_inv_def state_after_def Let_def split: loop_state.splits prod.splits
      flow.splits if_splits)

interpretation handler_channel: command_channel "handler_call send_err c" link_inv for send_err c
  by unfold_locales (fact handler_call_shape, fact handler_call_inv)

section \<open>A stuck thread\<close>

lemma handler_call_stuck:
  assumes "lstate l = Stuck"
  shows "handler_call send_err c ms cmd l =
    (if queued l < 100 then (TimedOut, l\<lparr>queued := queued l + 1\<rparr>) else (Never, l))"
  using assms by (simp add: handler_call_def channel_capacity_def)

lemma handler_call_merge:
  assumes "link_inv l" "lstate l = Waiting" "existing_merge (lworld l) (MergeSessions ids)"
  shows "fst (handler_call send_err c ms (MergeSessions ids) l) = TimedOut \<and>
    lstate (snd (handler_call send_err c ms (MergeSessions ids) l)) = Stuck"
proof -
  have "world_inv (lworld l)" using assms(1,2) by (simp add: link_inv_def)
  then have "fst (handle c (MergeSessions ids) (lworld l)) = Hangs"
    using handle_hangs_iff assms(3) by blast
  then show ?thesis using assms(2)
    by (auto simp: handler_call_def state_after_def Let_def split: prod.splits)
qed

fun calls :: "'w channel \<Rightarrow> (nat \<times> pty_command) list \<Rightarrow> 'w \<Rightarrow> call_result list \<times> 'w" where
  "calls call [] w = ([], w)"
| "calls call ((ms, cmd) # cs) w =
     (case call ms cmd w of (r, w1) \<Rightarrow> (case calls call cs w1 of (rs, w2) \<Rightarrow> (r # rs, w2)))"

lemma calls_stuck:
  assumes "lstate l = Stuck" "queued l \<le> 100"
  shows "fst (calls (handler_call send_err c) cs l) =
      replicate (min (length cs) (100 - queued l)) TimedOut @
      replicate (length cs - (100 - queued l)) Never \<and>
    lworld (snd (calls (handler_call send_err c) cs l)) = lworld l"
  using assms
proof (induction cs arbitrary: l)
  case Nil
  then show ?case by simp
next
  case (Cons a cs)
  obtain ms cmd where a: "a = (ms, cmd)" by fastforce
  show ?case
  proof (cases "queued l < 100")
    case True
    define l1 where "l1 = l\<lparr>queued := queued l + 1\<rparr>"
    have "lstate l1 = Stuck" "queued l1 \<le> 100" "queued l1 = Suc (queued l)" "lworld l1 = lworld l"
      using Cons.prems(1) True by (simp_all add: l1_def)
    moreover have "calls (handler_call send_err c) (a # cs) l =
        (TimedOut # fst (calls (handler_call send_err c) cs l1), snd (calls (handler_call send_err c) cs l1))"
      using handler_call_stuck [OF Cons.prems(1)] True by (simp add: a l1_def split_def)
    moreover have "100 - queued l = Suc (100 - queued l1)" using True by (simp add: l1_def)
    ultimately show ?thesis using Cons.IH [of l1] by simp
  next
    case False
    then have "queued l = 100" using Cons.prems(2) by simp
    moreover have "calls (handler_call send_err c) (a # cs) l =
        (Never # fst (calls (handler_call send_err c) cs l), snd (calls (handler_call send_err c) cs l))"
      using handler_call_stuck [OF Cons.prems(1)] False by (simp add: a split_def)
    ultimately show ?thesis using Cons.IH [OF Cons.prems] by simp
  qed
qed

lemma calls_stays_stuck:
  "lstate l = Stuck \<Longrightarrow> lstate (snd (calls (handler_call send_err c) cs l)) = Stuck"
  by (induction cs arbitrary: l) (auto simp: handler_call_stuck split_def)

section \<open>Constructing a handle\<close>

lemma h_new_not_ok: "fst (h_new type_err c lv s) \<noteq> Returns (Ok w)"
  by (auto simp: h_new_def mux_new_def from_js_object_handle split: prod.splits flow.splits result.splits)

lemma h_new_leaks:
  assumes "new_process (c_sys c) s = (Returns (Ok p), s1)"
  shows "h_new type_err c lv s = (Returns (Err (napi_err GenericFailure
    (''Failed to initialize multiplexer: '' @ c_napi c (from_reason
      (''Missing '' @ [CHR 0x27] @ ''master_fd'' @ [CHR 0x27] @ '' field''))))), s1)"
  using assms by (simp add: h_new_def mux_new_def from_js_object_handle)


section \<open>Resizing, closing and waiting through the thread\<close>

lemma handler_call_waiting:
  assumes "lstate l = Waiting" "handle c cmd (lworld l) = (Returns r, w)" "\<not> next_late (lateness l)"
  shows "handler_call send_err c ms cmd l =
    (Answered r, l\<lparr>lworld := w, lstate := (if cmd = ShutdownPty then Stopped else Waiting),
                  lateness := tl (lateness l)\<rparr>)"
  using assms by (simp add: handler_call_def state_after_def Let_def)

text \<open>
  A resize whose answer is no success ends with a force kill, after which there is no process;
  and when the kill goes well the method reports success.
\<close>

lemma force_kill_takes_pty:
  assumes "lstate l = Waiting"
  shows "hpty (lworld (snd (h_force_kill (handler_call send_err c) ms l))) = None"
  using assms handle_ends_pty [of ForceKill c "lworld l"]
  by (auto simp: h_force_kill_def ask_def handler_call_def Let_def state_after_def
      split: prod.splits flow.splits)

lemma resize_call_waiting:
  assumes "lstate l = Waiting"
  shows "lstate (snd (handler_call send_err c ms (Resize cols rows) l)) = Waiting \<and>
    (\<exists>r. fst (handler_call send_err c ms (Resize cols rows) l) \<in> {TimedOut, Answered r} \<and>
         (\<forall>d. r \<noteq> Data d))"
proof -
  obtain x w1 where "with_pty (\<lambda>p. resize (c_sys c) p cols rows) (lworld l) = (x, w1)" by fastforce
  then show ?thesis using assms
    by (cases x) (auto simp: handler_call_def handle_resize_def Let_def state_after_def)
qed

lemma resize_failed_kills:
  assumes "lstate l = Waiting"
    "\<And>t. fst (handler_call send_err c 5000 (Resize cols rows) l) \<noteq> Answered (Success t)"
  shows "hpty (lworld (snd (h_resize (handler_call send_err c) cols rows l))) = None"
proof -
  obtain res l1 where call: "handler_call send_err c 5000 (Resize cols rows) l = (res, l1)" by fastforce
  with resize_call_waiting [OF assms(1), of send_err c 5000 cols rows] have
    l1: "lstate l1 = Waiting" and "\<exists>r. res \<in> {TimedOut, Answered r} \<and> (\<forall>d. r \<noteq> Data d)" by auto
  then obtain msg where "res = TimedOut \<or> res = Answered (Failure msg)"
    using assms(2) call by (metis fst_conv insert_iff pty_result.exhaust singletonD)
  then have "h_resize (handler_call send_err c) cols rows l = h_force_kill (handler_call send_err c) 5000 l1"
    by (auto simp: h_resize_def or_force_kill_def call)
  then show ?thesis using force_kill_takes_pty [OF l1] by simp
qed

lemma resize_failed_ok:
  assumes "lstate l = Waiting" "hpty (lworld l) = Some p"
    and "resize (c_sys c) p cols rows (os (lworld l)) = (Err e, s1)"
    and "end_process c SIGKILL 0 p s1 = (Ok (), s2)"
    and "lateness l = []"
  shows "fst (h_resize (handler_call send_err c) cols rows l) = Returns (Ok ())"
  using assms
  by (simp add: h_resize_def or_force_kill_def handler_call_def handle_resize_def with_pty_def Let_def
      state_after_def h_force_kill_def ask_def handle_force_kill_def take_pty_def)

text \<open>After a close every method on the process answers that there is none.\<close>

lemma write_after_close:
  assumes "lstate l = Waiting" "hpty (lworld l) = None" "\<not> next_late (lateness l)"
  shows "fst (h_write (handler_call send_err c) t l) =
    Returns (Err (unknown ''Write error: PTY process not initialized''))"
  using assms
  by (simp add: h_write_def ask_def handler_call_def handle_write_def with_pty_def Let_def
      show_err_def no_pty_def)

lemma waitpid_through_thread:
  assumes "lstate l = Waiting" "hpty (lworld l) = Some p" "\<not> next_late (lateness l)"
  shows "fst (h_waitpid (handler_call send_err c) opts l) = Returns
    (case fst (waitpid (c_sys c) p opts (os (lworld l))) of
       Ok pd \<Rightarrow> Ok pd
     | Err e \<Rightarrow> Err (unknown (''WaitPid error: '' @ show_err c e)))"
  using assms
  by (auto simp: h_waitpid_def ask_def handler_call_def handle_waitpid_def with_pty_def Let_def
      parse_pid_def num_simps split: prod.splits result.splits)

section \<open>The background task of the handle\<close>

text \<open>It stops on the first error of the descriptor, where the multiplexer's own task retries.\<close>

lemma handle_task_stops:
  assumes "if_read_data ifc 4096 s = (Err e, s1)" "kind e \<noteq> WouldBlock"
  shows "handle_task_turn h disp ifc False (m, s) = (False, (m, s1))"
  using assms by (simp add: handle_task_turn_def read_and_dispatch_def)

lemma handle_task_delivers:
  assumes "mux_inv m" "if_read_data ifc 4096 s = (Ok d, s1)"
  shows "\<exists>m1. handle_task_turn h disp ifc False (m, s) = (True, (m1, s1)) \<and> mux_inv m1 \<and>
    view m1 = (\<lambda>k. map_option (\<lambda>(i, out). (i, out @ d)) (view m k))"
proof (cases "d = []")
  case True
  have "view m = (\<lambda>k. map_option (\<lambda>(i, out). (i, out @ [])) (view m k))"
    by (simp add: fun_eq_iff option.map_id0)
  then show ?thesis using assms True by (simp add: handle_task_turn_def read_and_dispatch_def)
next
  case False
  then show ?thesis using assms(2) dispatch_output_refines [OF assms(1), of h d]
    by (auto simp: handle_task_turn_def read_and_dispatch_def)
qed

end
