(* ===== verification/Process_Properties.thy ===== *)
theory Process_Properties
  imports Sample_Kernel
begin

text \<open>
  The properties of a PTY process, with their applications to the sample kernel.
\<close>

section \<open>Descriptors\<close>

text \<open>The descriptors a new process leaves open. A process that is created owns exactly one new
  open descriptor, its master side. A creation that fails leaves the table as it was or, when it is
  a step of \<open>open_pty\<close> after \<open>openpty\<close> that fails, leaves both new descriptors open.\<close>

theorem new_process_fds:
  assumes "fd_laws sys fds" "new_process sys s = (Returns r, s')"
  shows "case r of
      Ok p \<Rightarrow> master_fd p \<notin> fds s \<and> fds s' = insert (master_fd p) (fds s)
    | Err e \<Rightarrow> fds s' = fds s \<or>
        ((\<exists>m sl. fresh_pair (fds s) m sl (fds s')) \<and> open_pty sys s = (Err e, s'))"
proof (cases r)
  case (Ok p)
  then show ?thesis using new_process_ok_fds [OF assms(1)] assms(2) by simp
next
  case (Err e)
  show ?thesis
  proof (cases "open_pty sys s")
    case (Pair x s1)
    show ?thesis
    proof (cases x)
      case (Err e')
      then have "e' = e" "s1 = s'" using assms(2) Pair \<open>r = Err e\<close> by (auto simp: new_process_def)
      with open_pty_err_fds [OF assms(1), of s e' s1] Err Pair \<open>r = Err e\<close> show ?thesis by auto
    next
      case (Ok msl)
      obtain m sl where msl: "msl = (m, sl)" by fastforce
      obtain ret errno s2 where f: "k_fork sys s1 = ((ret, errno), s2)" by (metis prod.collapse)
      have "ret = -1" using assms(2) Pair Ok msl f \<open>r = Err e\<close>
        by (auto simp: new_process_def split: if_splits prod.splits)
      with new_process_fork_failed [OF assms(1), of s m sl s1 errno s2] Pair Ok msl f assms(2)
      show ?thesis using \<open>r = Err e\<close> by auto
    qed
  qed
qed

theorem new_process_fds_witness:
  "(case Err (os_error 25) of
      Ok p \<Rightarrow> master_fd p \<notin> {5} \<and> {8, 9, 5} = insert (master_fd p) {5}
    | Err e \<Rightarrow> {8, 9, 5} = {5 :: i32} \<or>
        ((\<exists>m sl. fresh_pair {5 :: i32} m sl {8, 9, 5}) \<and>
         open_pty demo_sys (demo_kern\<lparr>win_fails := True\<rparr>) =
           (Err e, demo_kern\<lparr>win_fails := True, kfds := [8, 9, 5], knext := 10\<rparr>)))"
proof -
  have "new_process demo_sys (demo_kern\<lparr>win_fails := True\<rparr>) =
      (Returns (Err (os_error 25)), demo_kern\<lparr>win_fails := True, kfds := [8, 9, 5], knext := 10\<rparr>)"
    by (simp add: new_process_def open_pty_def demo_sys_def demo_kern_def)
  from new_process_fds [OF demo_fd_laws this] show ?thesis by (simp add: demo_kern_def)
qed

text \<open>A change of shell whose fork fails. When the old descriptor has been closed and a new pair
  opened, a fork that fails closes both new descriptors and reports its own error,
  unless a close reports one, but the process record keeps the number of the closed master descriptor.\<close>

theorem change_shell_fork_failed:
  assumes "fd_laws sys fds" "close_succeeds sys fds"
    and "kill_process sys p SIGTERM s = (Ok (), s1)" "waitpid sys p 0 s1 = (w, s2)"
    and "close_master_fd sys p s2 = (Ok (), s3)"
    and "open_pty sys s3 = (Ok (m, sl), s4)" "k_fork sys s4 = ((-1, errno), s5)"
  shows "\<exists>s'. change_shell sys p sh s = (Returns (Err (os_error errno)), p\<lparr>master_fd := m\<rparr>, s') \<and>
    master_fd (p\<lparr>master_fd := m\<rparr>) \<notin> fds s'"
  using spawn_new_shell_fork_failed [OF assms(1,2,5,6,7), of sh] assms(3,4)
  by (auto simp: change_shell_def)

theorem change_shell_fork_failed_witness:
  "\<exists>s'. change_shell demo_sys demo_proc ''/bin/zsh'' (demo_kern\<lparr>fork_fails := True\<rparr>) =
      (Returns (Err (os_error 35)), demo_proc\<lparr>master_fd := 8\<rparr>, s') \<and>
    master_fd (demo_proc\<lparr>master_fd := 8\<rparr>) \<notin> set (kfds s')"
proof -
  let ?k = "demo_kern\<lparr>fork_fails := True\<rparr>" and ?k1 = "demo_kern\<lparr>fork_fails := True, kpids := []\<rparr>"
  let ?k3 = "demo_kern\<lparr>fork_fails := True, kpids := [], kfds := []\<rparr>"
  let ?k4 = "demo_kern\<lparr>fork_fails := True, kpids := [], kfds := [8, 9], kwin := (40, 100), knext := 10\<rparr>"
  have "kill_process demo_sys demo_proc SIGTERM ?k = (Ok (), ?k1)"
    "waitpid demo_sys demo_proc 0 ?k1 = (Ok 42, ?k1)"
    "close_master_fd demo_sys demo_proc ?k1 = (Ok (), ?k3)"
    "open_pty demo_sys ?k3 = (Ok (8, 9), ?k4)"
    "k_fork demo_sys ?k4 = ((-1, 35), ?k4)"
    by (simp_all add: kill_process_def waitpid_def close_master_fd_def open_pty_def demo_sys_def
        demo_kern_def demo_proc_def SIGTERM_def)
  from change_shell_fork_failed [OF demo_fd_laws demo_close_succeeds this] show ?thesis .
qed

section \<open>Size, environment and status\<close>

text \<open>A successful resize. \<open>resize\<close> returns success exactly when the size was set, the process
  took the signal, and the kernel then reports the size asked for.\<close>

theorem resize_ok:
  "fst (resize sys p cols rows s) = Ok () \<longleftrightarrow>
     (\<exists>e1 s1 r2 e2 s2 e3 s3.
        k_set_winsize sys (master_fd p) rows cols s = ((0, e1), s1) \<and>
        k_kill sys (pid p) SIGWINCH s1 = ((r2, e2), s2) \<and> r2 \<noteq> -1 \<and>
        k_get_winsize sys (master_fd p) s2 = ((0, rows, cols, e3), s3))"
  by (rule resize_ok_iff)

text \<open>Setting a variable. \<open>set_env\<close> succeeds exactly when the process runs, the name and value
  can be set in the parent, and the export command, a line without quotes, is written.\<close>

theorem set_env_ok:
  "set_env sys p key val s = (Returns (Ok ()), s') \<longleftrightarrow>
     (\<exists>s1 n. is_running sys p s = (Ok True, s1) \<and> env_name_ok key val \<and>
        write_data sys p (as_bytes (''export '' @ key @ ''='' @ val @ [CHR 0x0A])) (k_setenv sys key val s1)
          = (Ok n, s'))"
  by (auto simp: set_env_def split: prod.splits result.splits bool.splits)

text \<open>Status and liveness. \<open>status\<close> and \<open>is_running\<close> make the same system call and agree: the
  status is Running exactly when the process is alive, and each fails exactly when the other does.\<close>

theorem status_agrees:
  "snd (pty_status sys p s) = snd (is_running sys p s) \<and>
   (fst (pty_status sys p s) = Ok ''Running'' \<longleftrightarrow> fst (is_running sys p s) = Ok True) \<and>
   (\<forall>e. fst (pty_status sys p s) = Err e \<longleftrightarrow> fst (is_running sys p s) = Err e)"
  by (rule pty_status_is_running)

end
