(* ===== verification/Session_Properties.thy ===== *)
theory Session_Properties
  imports Session_Table
begin

text \<open>
  The properties of the session multiplexer, with their applications to a multiplexer of two
  sessions.
\<close>

definition two_sessions :: mux where
  "two_sessions =
     \<lparr>sessions = fmap_of_list
        [(1, \<lparr>stream_id = 1, input_buffer = [97], output_buffer = 0\<rparr>),
         (2, \<lparr>stream_id = 2, input_buffer = [98], output_buffer = 1\<rparr>)],
      bufs = [[1, 2, 3], [4]], locked = [], shutdown_sent = False\<rparr>"

lemma two_sessions_lookup:
  "fmlookup (sessions two_sessions) k =
     (if k = 1 then Some \<lparr>stream_id = 1, input_buffer = [97], output_buffer = 0\<rparr>
      else if k = 2 then Some \<lparr>stream_id = 2, input_buffer = [98], output_buffer = 1\<rparr> else None)"
  by (simp add: two_sessions_def fmlookup_of_list)

lemma two_sessions_inv: "mux_inv two_sessions"
  unfolding mux_inv_def two_sessions_lookup by (auto simp: two_sessions_def split: if_splits)

lemma two_sessions_view:
  "view two_sessions k = (if k = 1 then Some ([97], [1, 2, 3]) else if k = 2 then Some ([98], [4]) else None)"
  unfolding view_def two_sessions_lookup by (simp add: two_sessions_def)

section \<open>Runs\<close>

text \<open>C9: calls on a multiplexer return. In every state reached by calls that returned, the session
  table is well formed, and the next call returns unless it is a merge whose first session exists.\<close>

theorem reachable_calls_return:
  assumes "mux_reach h disp ifc m s"
  shows "mux_inv m \<and> (fst (mux_exec h disp ifc op m s) = Returns () \<longleftrightarrow>
    \<not> (\<exists>k ks. op = OMerge (k # ks) \<and> view m k \<noteq> None))"
proof -
  have inv: "mux_inv m" by (rule mux_reach_inv [OF assms])
  have "fst (mux_exec h disp ifc (OMerge (k # ks)) m s) \<noteq> Returns ()" if "view m k \<noteq> None" for k ks
  proof -
    from that obtain ses where "fmlookup (sessions m) k = Some ses" by (auto simp: view_def)
    from merge_sessions_hangs [OF inv this, of ks] show ?thesis by (auto split: prod.splits)
  qed
  then show ?thesis using inv mux_exec_returns [OF inv, of op h disp ifc s] by blast
qed

theorem reachable_calls_return_witness:
  "fst (mux_exec unat (show_io demo_sys) (process_iface demo_sys demo_proc) (OMerge [1])
      (snd (create_session unat new_mux)) demo_kern) \<noteq> Returns ()"
proof -
  have reach: "mux_reach unat (show_io demo_sys) (process_iface demo_sys demo_proc)
      (snd (create_session unat new_mux)) demo_kern"
    by (rule mux_reach.step [OF mux_reach.start, of _ _ _ OCreate]) (simp add: split_def)
  have v: "view (snd (create_session unat new_mux)) 1 \<noteq> None"
  proof -
    have "view new_mux = Map.empty" by (rule ext) (simp add: view_def new_mux_def)
    then have "next_id unat new_mux = 1"
      using max_key_None_iff [of unat new_mux] by (simp add: next_id_def)
    then show ?thesis using create_session_refines(2) [OF mux_inv_new, of unat] by simp
  qed
  have "\<exists>k ks. OMerge [1] = OMerge (k # ks) \<and> view (snd (create_session unat new_mux)) k \<noteq> None"
    by (rule exI [of _ 1], rule exI [of _ "[]"]) (rule conjI [OF refl v])
  then show ?thesis using reachable_calls_return [OF reach, of "OMerge [1]"] by (simp only:) simp
qed

section \<open>Merging\<close>

text \<open>C26: how a merge ends. It reports an error when no id is given or the first session does not
  exist; otherwise it waits for ever for a lock it holds itself. It never succeeds.\<close>

theorem merge_outcome:
  assumes "mux_inv m"
  shows "fst (merge_sessions ids m) =
    (case ids of
       [] \<Rightarrow> Returns (Err (from_reason ''No session IDs provided for merging''))
     | k # ks \<Rightarrow>
         if view m k = None
         then Returns (Err (from_reason (''Primary session ID '' @ show_u32 k @ '' not found'')))
         else Hangs)"
proof (cases ids)
  case Nil
  then show ?thesis by (simp add: merge_sessions_none)
next
  case (Cons k ks)
  show ?thesis
  proof (cases "fmlookup (sessions m) k")
    case None
    then have "view m k = None" by (simp add: view_None_iff)
    then show ?thesis using Cons by (simp add: merge_sessions_none)
  next
    case (Some ses)
    then show ?thesis using Cons merge_sessions_hangs [OF assms Some] by (simp add: view_None_iff)
  qed
qed

theorem merge_outcome_witness:
  "fst (merge_sessions [1, 2] two_sessions) = Hangs"
  using merge_outcome [OF two_sessions_inv, of "[1, 2]"] by (simp add: two_sessions_view)

text \<open>What a merge destroys. When the call hangs, the merged sessions are gone, their outputs
  are appended to the first session's, their inputs are lost, and a buffer stays locked.\<close>

theorem merge_loses_input:
  assumes "mux_inv m" "view m k = Some (i, out)" "k \<notin> set ks" "distinct ks"
  shows "\<exists>m'. merge_sessions (k # ks) m = (Hangs, m') \<and> locked m' \<noteq> [] \<and>
     view m' = (\<lambda>j. if j \<in> set ks then None else view m j)
       (k \<mapsto> (i, out @ concat (map (\<lambda>j. snd (the (view m j))) (filter (\<lambda>j. j \<in> dom (view m)) ks))))"
  by (rule merge_sessions_hung_state [OF assms])

theorem merge_loses_input_witness:
  "\<exists>m'. merge_sessions [1, 2] two_sessions = (Hangs, m') \<and> locked m' \<noteq> [] \<and>
     view m' 1 = Some ([97], [1, 2, 3, 4]) \<and> view m' 2 = None"
  using merge_loses_input [OF two_sessions_inv, of 1 "[97]" "[1, 2, 3]" "[2]"]
  by (auto simp: two_sessions_view dom_def)

section \<open>Output and input of a session\<close>

text \<open>C10: a session reads its output once and in order. After any deliveries of the background task a
  read returns the unread output followed by everything delivered, a second read returns nothing,
  and no other session loses anything.\<close>

theorem read_exactly_once:
  assumes "mux_inv m" "view m k = Some (i, out)"
  shows "\<exists>m'. read_from_session k (fold (\<lambda>d m. snd (dispatch_output h d m)) ds m) =
      (Returns (Ok (out @ concat ds)), m') \<and> mux_inv m' \<and>
    fst (read_from_session k m') = Returns (Ok []) \<and>
    (\<forall>j. j \<noteq> k \<longrightarrow> view m' j = map_option (\<lambda>(i, out). (i, out @ concat ds)) (view m j))"
  using mux_table.read_after_deliver [OF assms, of h ds] unfolding mux_table.deliver_def .

theorem read_exactly_once_witness:
  "\<exists>m'. read_from_session 1 (fold (\<lambda>d m. snd (dispatch_output unat d m)) [[7], [8]] two_sessions) =
      (Returns (Ok [1, 2, 3, 7, 8]), m') \<and>
    fst (read_from_session 1 m') = Returns (Ok []) \<and> view m' 2 = Some ([98], [4, 7, 8])"
  using read_exactly_once [OF two_sessions_inv, of 1 "[97]" "[1, 2, 3]" unat "[[7], [8]]"]
  by (force simp: two_sessions_view)

text \<open>A new session. As long as the largest id is not in use the id is new, larger than every
  other, and the session starts empty; the other sessions do not change.\<close>

theorem create_session_fresh:
  assumes "mux_inv m" "- 1 \<notin> dom (view m)"
  shows "\<exists>k m'. create_session h m = (Ok k, m') \<and> mux_inv m' \<and>
    k \<notin> dom (view m) \<and> k \<noteq> 0 \<and> (\<forall>j \<in> dom (view m). j < k) \<and> view m' = (view m)(k \<mapsto> ([], []))"
  using create_session_refines [OF assms(1)] next_id_fresh [OF assms(2)]
  by (metis prod.collapse)

theorem create_session_fresh_witness:
  "\<exists>k m'. create_session unat two_sessions = (Ok k, m') \<and> mux_inv m' \<and>
    k \<notin> {1, 2} \<and> k \<noteq> 0 \<and> view m' = (view two_sessions)(k \<mapsto> ([], []))"
proof -
  have "dom (view two_sessions) = {1, 2}" by (auto simp: two_sessions_view dom_def split: if_splits)
  then show ?thesis using create_session_fresh [OF two_sessions_inv, of unat] by auto
qed

text \<open>C39: the ids wrap. Once the largest id is in use the next session gets the id 0 and replaces the
  session that has it, with an empty one.\<close>

theorem create_session_wraps:
  assumes "mux_inv m" "- 1 \<in> dom (view m)"
  shows "\<exists>m'. create_session h m = (Ok 0, m') \<and> view m' = (view m)(0 \<mapsto> ([], []))"
proof -
  obtain k where k: "max_key h m = Some k"
    using assms(2) max_key_None_iff [of h m] by (cases "max_key h m") auto
  have "- 1 \<le> k" by (rule max_key_Some(2) [OF k assms(2)])
  then have "k = - 1" by (simp add: word_order.extremum_unique)
  then have "next_id h m = 0" using k by (simp add: next_id_def)
  then show ?thesis using create_session_refines(1,2) [OF assms(1), of h] by (metis prod.collapse)
qed

definition full_mux :: mux where
  "full_mux = \<lparr>sessions = fmap_of_list
      [(0, \<lparr>stream_id = 0, input_buffer = [97], output_buffer = 0\<rparr>),
       (-1, \<lparr>stream_id = -1, input_buffer = [], output_buffer = 1\<rparr>)],
     bufs = [[1], []], locked = [], shutdown_sent = False\<rparr>"

theorem create_session_wraps_witness:
  "\<exists>m'. create_session unat full_mux = (Ok 0, m') \<and> view full_mux 0 = Some ([97], [1]) \<and>
    view m' 0 = Some ([], [])"
proof -
  have l: "fmlookup (sessions full_mux) k =
      (if k = 0 then Some \<lparr>stream_id = 0, input_buffer = [97], output_buffer = 0\<rparr>
       else if k = -1 then Some \<lparr>stream_id = -1, input_buffer = [], output_buffer = 1\<rparr> else None)" for k
    by (simp add: full_mux_def fmlookup_of_list)
  have inv: "mux_inv full_mux"
    unfolding mux_inv_def l by (auto simp: full_mux_def split: if_splits)
  have d: "- 1 \<in> dom (view full_mux)" by (simp add: view_def l dom_def)
  have v: "view full_mux 0 = Some ([97], [1])" by (simp add: view_def l) (simp add: full_mux_def)
  from create_session_wraps [OF inv d, of unat] obtain m' where
    "create_session unat full_mux = (Ok 0, m')" "view m' = (view full_mux)(0 \<mapsto> ([], []))" by blast
  then show ?thesis using v by simp
qed

text \<open>C11: a split keeps all data while the two largest ids, 2^32 - 1 and 2^32 - 2, are not in use, so that the
  new ids do not wrap. The two new sessions hold the halves of the input and of the output of the old one,
  which is gone; the halves put together are the old buffers, and no other session changes.\<close>

theorem split_session_keeps_data:
  assumes "mux_inv m" "view m sid = Some (i, out)" "- 1 \<notin> dom (view m)" "- 2 \<notin> dom (view m)"
  shows "\<exists>a b m' i1 o1 i2 o2. split_session h sid m = (Returns (Ok (a, b)), m') \<and> mux_inv m' \<and>
    a \<noteq> b \<and> a \<notin> dom (view m) \<and> b \<notin> dom (view m) \<and>
    view m' = (view m)(sid := None, a \<mapsto> (i1, o1), b \<mapsto> (i2, o2)) \<and>
    i1 @ i2 = i \<and> o1 @ o2 = out \<and> length i1 = length i div 2 \<and> length o1 = length out div 2"
proof -
  let ?a = "next_id h m" and ?b = "next_id h m + 1"
  have fresh: "?a \<notin> dom (view m)" "\<forall>j \<in> dom (view m). j < ?a" using next_id_fresh [OF assms(3)] by blast+
  have "?a \<noteq> - 1"
  proof
    assume "?a = - 1"
    then obtain k where "max_key h m = Some k" "k + 1 = - 1"
      by (auto simp: next_id_def split: option.splits)
    moreover from this(2) have "k = - 2" by (simp add: eq_diff_eq [symmetric])
    ultimately show False using max_key_Some(1) assms(4) by blast
  qed
  then have "?a < ?b" by (rule word_less_Suc)
  then have "?b \<notin> dom (view m)" using fresh(2) by (meson less_asym)
  note b = this less_imp_neq [OF \<open>?a < ?b\<close>]
  have sid: "sid \<noteq> ?a" "sid \<noteq> ?b" using assms(2) fresh(1) b(1) by auto
  obtain m' where m': "split_session h sid m = (Returns (Ok (?a, ?b)), m')" "mux_inv m'"
    "view m' = ((view m)(?a \<mapsto> (take (length i div 2) i, take (length out div 2) out),
       ?b \<mapsto> (drop (length i div 2) i, drop (length out div 2) out)))(sid := None)"
    using split_session_refines [OF assms(1,2) refl] by blast
  have "view m' = (view m)(sid := None, ?a \<mapsto> (take (length i div 2) i, take (length out div 2) out),
       ?b \<mapsto> (drop (length i div 2) i, drop (length out div 2) out))"
    unfolding m'(3) by (subst fun_upd_twist [OF sid(2) [symmetric]], subst fun_upd_twist [OF sid(1) [symmetric]]) (rule refl)
  moreover have "length (take (n div 2) xs) = n div 2" if "n = length xs" for n and xs :: bytes
    using that by simp
  ultimately show ?thesis using m'(1,2) b fresh(1) append_take_drop_id by blast
qed

theorem split_session_keeps_data_witness:
  "\<exists>a b m' i1 o1 i2 o2. split_session unat 1 two_sessions = (Returns (Ok (a, b)), m') \<and> mux_inv m' \<and>
    view m' = (view two_sessions)(1 := None, a \<mapsto> (i1, o1), b \<mapsto> (i2, o2)) \<and>
    i1 @ i2 = [97] \<and> o1 @ o2 = [1, 2, 3]"
proof -
  have d: "dom (view two_sessions) = {1, 2}" by (auto simp: two_sessions_view dom_def split: if_splits)
  have v: "view two_sessions 1 = Some ([97], [1, 2, 3])" by (simp add: two_sessions_view)
  have "- 1 \<notin> dom (view two_sessions)" "- 2 \<notin> dom (view two_sessions)" by (simp_all add: d)
  from split_session_keeps_data [OF two_sessions_inv v this, of unat] show ?thesis by blast
qed

text \<open>Sending to a session. The data is added to the input of that session and of no other, also
  when the write to the process fails; the answer is the result of that write.\<close>

theorem send_to_session_input:
  assumes "mux_inv m" "view m sid = Some (i, out)"
  shows "\<exists>m'. send_to_session disp ifc sid data m s =
      ((case fst (if_write_data ifc data s) of Ok n \<Rightarrow> Ok () | Err e \<Rightarrow> Err (convert_io_error disp e)),
       m', snd (if_write_data ifc data s)) \<and>
    mux_inv m' \<and> view m' = (view m)(sid \<mapsto> (i @ data, out))"
proof -
  obtain r m' s' where e: "send_to_session disp ifc sid data m s = (r, m', s')" by (metis prod_cases3)
  have "mux_inv m'" "view m' = (view m)(sid \<mapsto> (i @ data, out))"
    using send_to_session_refines [OF assms(1) e] assms(2) by simp_all
  moreover have "r = (case fst (if_write_data ifc data s) of Ok n \<Rightarrow> Ok () | Err e \<Rightarrow> Err (convert_io_error disp e))"
    "s' = snd (if_write_data ifc data s)"
    using send_to_session_result [of disp ifc sid data m s] assms(2) e
    by (auto split: result.splits)
  ultimately show ?thesis using e by auto
qed

theorem send_to_session_input_witness:
  "\<exists>m'. send_to_session (show_io demo_sys) (process_iface demo_sys (demo_proc\<lparr>master_fd := 77\<rparr>)) 2 [9]
      two_sessions demo_kern =
     (Err (from_reason ''error (os error 9)''), m', demo_kern) \<and> view m' 2 = Some ([98, 9], [4])"
proof -
  have w: "if_write_data (process_iface demo_sys (demo_proc\<lparr>master_fd := 77\<rparr>)) [9] demo_kern =
      (Err (os_error 9), demo_kern)"
    by (simp add: process_iface_def write_data_def demo_sys_def demo_kern_def demo_proc_def)
  have d: "convert_io_error (show_io demo_sys) (os_error 9) = from_reason ''error (os error 9)''"
    by code_simp
  have "view two_sessions 2 = Some ([98], [4])" by (simp add: two_sessions_view)
  from send_to_session_input [OF two_sessions_inv this, of "show_io demo_sys"
      "process_iface demo_sys (demo_proc\<lparr>master_fd := 77\<rparr>)" "[9]" demo_kern] w d
  show ?thesis by auto
qed

section \<open>Shutting down\<close>

text \<open>The shutdown of a multiplexer over a real process. Both shutdowns report success and empty
  the table without any system call: the process gets no signal, since the methods of the process
  interface that signal and wait do nothing.\<close>

theorem shutdown_signals_nothing:
  "mux_shutdown_pty disp (process_iface sys p) m s = (Ok (), m\<lparr>sessions := fmempty, shutdown_sent := True\<rparr>, s) \<and>
   force_shutdown_pty disp (process_iface sys p) m s = (Ok (), m\<lparr>sessions := fmempty, shutdown_sent := True\<rparr>, s)"
  by (simp add: mux_shutdown_pty_def force_shutdown_pty_def shutdown_with_def process_iface_def
      close_all_sessions_def)

section \<open>The background read task\<close>

text \<open>The retry delay. Over consecutive failures the task sleeps 1, 2, 4, 8, 16 and then always 32
  seconds, it never ends by itself, and a success resets the delay to one second.\<close>

theorem retry_delay:
  "snd (task_run (replicate n (Polled (Err e))) (Some 1)) = map (\<lambda>i. min (2 ^ i) 32) [0..<n] \<and>
   (\<exists>d \<in> {1..32}. fst (task_run (replicate n (Polled (Err e))) (Some 1)) = Some d) \<and>
   task_turn (Polled (Ok ())) d = (Some 1, 0)"
proof -
  have "\<exists>d' \<in> {1..32}. fst (task_run (replicate n (Polled (Err e))) (Some d)) = Some d'"
    if "d \<in> {1..32}" for d
    using that
  proof (induction n arbitrary: d)
    case (Suc n)
    have "min (d * 2) 32 \<in> {1..32}" using Suc.prems by auto
    then show ?case using Suc.IH by (auto simp: split_def)
  qed auto
  then show ?thesis using task_run_errors [of 1 n e] by auto
qed

end
