(* ===== verification/Handler_Properties.thy ===== *)
theory Handler_Properties
  imports Handler_Laws Session_Properties
begin

text \<open>
  The properties of the command handlers and their loop, with their applications to a world that
  holds a process of the sample kernel and a multiplexer of two sessions.
\<close>

definition demo_ctx :: "kern ctx" where
  "demo_ctx = \<lparr>c_sys = demo_sys, c_hash = unat, c_napi = err_reason\<rparr>"

definition demo_world :: "kern world" where
  "demo_world = \<lparr>os = demo_kern, hpty = Some demo_proc, hmux = Some (demo_proc, two_sessions),
                 max_level = LInfo\<rparr>"

lemma demo_world_inv: "world_inv demo_world"
  by (simp add: world_inv_def demo_world_def two_sessions_inv)

section \<open>One handler\<close>

text \<open>What a handler can change. The handler of a session command leaves the process cell and the
  log level alone, the handler of a process command leaves the multiplexer alone, also when it does
  not return.\<close>

theorem handler_frame:
  "if mux_command cmd
   then hpty (snd (handle c cmd w)) = hpty w \<and> max_level (snd (handle c cmd w)) = max_level w
   else hmux (snd (handle c cmd w)) = hmux w"
  using handle_mux_frame [OF surjective_pairing, of cmd c w] handle_pty_frame [OF surjective_pairing, of cmd c w]
  by simp

text \<open>The commands that block the handler thread. In a world whose session table is well formed a
  handler never returns exactly when it merges sessions of which the first exists.\<close>

theorem handler_hangs_iff:
  assumes "world_inv w"
  shows "fst (handle c cmd w) = Hangs \<longleftrightarrow>
    (\<exists>k ks p m. cmd = MergeSessions (k # ks) \<and> hmux w = Some (p, m) \<and> view m k \<noteq> None)"
  using handle_hangs_iff [OF assms, of c cmd] unfolding existing_merge_def .

theorem handler_hangs_iff_witness:
  "fst (handle demo_ctx (MergeSessions [2, 1]) demo_world) = Hangs \<and>
   fst (handle demo_ctx (MergeSessions [3, 1]) demo_world) \<noteq> Hangs"
  using handler_hangs_iff [OF demo_world_inv, of demo_ctx "MergeSessions [2, 1]"]
    handler_hangs_iff [OF demo_world_inv, of demo_ctx "MergeSessions [3, 1]"]
  by (simp add: demo_world_def two_sessions_view)

text \<open>The commands that end the handler thread by a panic. The thread panics exactly when it sets,
  for a process that runs, a variable whose name is empty or has an equals sign, or whose name or
  value has a zero character.\<close>

theorem handler_panics_iff:
  "fst (handle c cmd w) = Panics \<longleftrightarrow>
    (\<exists>key val p. cmd = SetEnv key val \<and> hpty w = Some p \<and>
       fst (is_running (c_sys c) p (os w)) = Ok True \<and>
       (key = [] \<or> CHR ''='' \<in> set key \<or> CHR 0x00 \<in> set key \<or> CHR 0x00 \<in> set val))"
proof (cases "\<exists>key val. cmd = SetEnv key val")
  case True
  then show ?thesis using handle_set_env_flow(1) [of c _ _ w]
    by (auto simp: panicking_env_def env_name_ok_def)
next
  case False
  have "fst (handle c cmd w) \<noteq> Panics"
    using False handle_change_shell_flow(1) [of c _ w]
    by (cases cmd) (auto simp: handler_defs Let_def mux_missing_def
        split: prod.splits option.splits flow.splits result.splits)
  then show ?thesis using False by blast
qed

text \<open>A process command without a process. Once the process is gone every process command but
  Close and ShutdownPty answers that there is none and changes nothing.\<close>

theorem handler_without_process:
  assumes "hpty w = None" "\<not> mux_command cmd" "cmd \<noteq> Close" "cmd \<noteq> ShutdownPty"
  shows "\<exists>what. handle c cmd w = (Returns (Failure (what @ '': PTY process not initialized'')), w)"
  by (rule handle_no_pty [OF assms])

theorem handler_without_process_witness:
  "\<exists>what. handle demo_ctx (Write [104]) (demo_world\<lparr>hpty := None\<rparr>) =
     (Returns (Failure (what @ '': PTY process not initialized'')), demo_world\<lparr>hpty := None\<rparr>)"
  by (rule handler_without_process) simp_all

section \<open>The loop\<close>

text \<open>C15: the loop answers every command, in order, as long as it runs. A loop that waits again after
  some commands has sent one answer for each and kept the session table well formed; then a
  ShutdownPty is answered and stops it, and no later command is looked at.\<close>

theorem loop_answers:
  assumes "world_inv w" "handle_commands c es w = (rs, Waiting, w')"
  shows "length rs = length es \<and> world_inv w' \<and>
    (\<exists>r. handle_commands c (es @ Received ShutdownPty # fs) w =
       (rs @ [r], Stopped, snd (handle_shutdown_pty c w')))"
proof -
  obtain r w2 where "handle_shutdown_pty c w' = (Returns r, w2)"
    by (cases "take_pty c SIGTERM WNOHANG (Ok ()) w'") (simp add: handle_shutdown_pty_def)
  then show ?thesis
    using handle_commands_replies [OF assms(2)] handle_commands_inv [OF assms] assms(2)
    by (simp add: handle_commands_append)
qed

theorem loop_answers_witness:
  "\<exists>r w'. handle_commands demo_ctx ([Received (Write [104])] @ Received ShutdownPty # [Received Read]) demo_world =
     ([Success ''Wrote 1 bytes''] @ [r], Stopped, w')"
proof -
  have n: "show_nat (Suc 0) = ''1''" by code_simp
  have e: "handle_commands demo_ctx [Received (Write [104])] demo_world =
      ([Success ''Wrote 1 bytes''], Waiting, demo_world\<lparr>os := demo_kern\<lparr>kout := [104]\<rparr>\<rparr>)"
    by (simp add: handle_write_def with_pty_def write_data_def demo_ctx_def demo_world_def demo_sys_def
        demo_kern_def demo_proc_def n)
  from loop_answers [OF demo_world_inv e] show ?thesis by blast
qed

text \<open>An ended process stays ended. After Close, ForceKill or ShutdownPty no sequence of commands
  gives the thread a process again, whatever the system calls returned.\<close>

theorem ended_for_good:
  assumes "cmd \<in> {Close, ForceKill, ShutdownPty}"
  shows "hpty (snd (snd (handle_commands c (Received cmd # es) w))) = None"
proof -
  have "hpty (snd (handle c cmd w)) = None" by (rule handle_ends_pty [OF assms])
  then show ?thesis using handle_commands_no_pty [of "snd (handle c cmd w)" c es]
    by (auto split: flow.splits prod.splits)
qed

theorem ended_for_good_witness:
  "hpty (snd (snd (handle_commands demo_ctx [Received ForceKill, Received (ChangeShell ''/bin/sh'')] demo_world))) = None"
  by (rule ended_for_good) simp

text \<open>C40: the shape of an answer. Only reads are answered with data, and a read that succeeds is; the answer
  to a wait is a process id in decimal, that to a creation names a session, and a status is one of
  three words. Every other answer is a text.\<close>

theorem answers_typed:
  assumes "handle c cmd w = (Returns r, w')"
  shows "answers cmd r"
proof (cases cmd)
  case Status
  then show ?thesis
    using assms with_pty_status [of "c_sys c" w]
    by (auto simp: handle_status_def split: prod.splits intro!: answers_reply)
next
  case (ReadFromSession k)
  then show ?thesis using assms
    by (auto simp: handler_defs mux_missing_def split: prod.splits option.splits flow.splits result.splits)
next
  case ReadAllSessions
  then show ?thesis using assms
    by (auto simp: handler_defs mux_missing_def split: prod.splits option.splits flow.splits result.splits)
next
  case (MergeSessions ks)
  then show ?thesis using assms
    by (auto simp: handler_defs mux_missing_def split: prod.splits option.splits flow.splits result.splits)
next
  case (SplitSession k)
  then show ?thesis using assms
    by (auto simp: handler_defs mux_missing_def split: prod.splits option.splits flow.splits result.splits)
next
  case (SetEnv key val)
  then show ?thesis using assms
    by (auto simp: handler_defs Let_def split: prod.splits option.splits flow.splits intro!: answers_reply)
next
  case (ChangeShell path)
  then show ?thesis using assms
    by (auto simp: handler_defs Let_def split: prod.splits option.splits flow.splits intro!: answers_reply)
next
  case (SetLogLevel l)
  then show ?thesis using assms
    by (auto simp: handler_defs Let_def split: option.splits intro!: answers_reply)
qed (use assms in \<open>auto simp: handler_defs split: prod.splits intro!: answers_reply\<close>)

theorem answers_typed_witness:
  "\<exists>t w. handle demo_ctx Status demo_world = (Returns (Success t), w) \<and> t \<in> {''Running'', ''Not Running'', ''Unknown''}"
proof -
  obtain t w where "handle demo_ctx Status demo_world = (Returns (Success t), w)"
    by (simp add: handle_status_def with_pty_def pty_status_def demo_ctx_def demo_world_def demo_sys_def demo_kern_def
        demo_proc_def)
  then show ?thesis using answers_typed [of demo_ctx Status demo_world "Success t" w] by auto
qed

end
