(* ===== verification/Vdom.thy ===== *)
theory Vdom
  imports Pty_Prelude
begin

text \<open>
  \<open>src/virtual_dom/mod.rs\<close>, \<open>styles.rs\<close> and \<open>diff.rs\<close>: the virtual DOM and the patches between
  two trees. The \<open>HashMap\<close>s of properties and styles are finite maps.
\<close>

section \<open>Nodes\<close>

type_synonym props = "(string, string) fmap"

datatype vnode = Text string | Element velement
  and velement = VElement (tag: string) (props: props) (styles: props) (children: "vnode list")

definition vnode_element :: "string \<Rightarrow> props \<Rightarrow> props \<Rightarrow> vnode list \<Rightarrow> vnode" where
  "vnode_element t p s cs = Element (VElement t p s cs)"

text \<open>\<open>find\<close>: the first node in pre-order that satisfies the predicate.\<close>

fun find_node :: "(vnode \<Rightarrow> bool) \<Rightarrow> vnode \<Rightarrow> vnode option"
  and find_nodes :: "(vnode \<Rightarrow> bool) \<Rightarrow> vnode list \<Rightarrow> vnode option" where
  "find_node P (Text s) = (if P (Text s) then Some (Text s) else None)"
| "find_node P (Element (VElement t p s cs)) =
     (if P (Element (VElement t p s cs)) then Some (Element (VElement t p s cs))
      else find_nodes P cs)"
| "find_nodes P [] = None"
| "find_nodes P (c # cs) = (case find_node P c of Some n \<Rightarrow> Some n | None \<Rightarrow> find_nodes P cs)"

text \<open>\<open>style\<close>: later pairs overwrite earlier ones with the same key.\<close>

definition style :: "(string \<times> string) list \<Rightarrow> props" where
  "style attributes = fold (\<lambda>(k, v) m. fmupd k v m) attributes fmempty"

text \<open>
  The styled nodes cross to JavaScript as JSON texts: \<open>to_json\<close> and \<open>of_json\<close> are \<open>serde_json\<close> on a
  node, with the \<open>Display\<close> of their errors.
\<close>

definition styled_text ::
  "(vnode \<Rightarrow> (string, string) result) \<Rightarrow> string \<Rightarrow> props \<Rightarrow> (string, napi_error) result" where
  "styled_text to_json content st =
     map_err from_reason (to_json (vnode_element ''text'' (fmupd ''content'' content fmempty) st []))"

fun parse_children :: "(string \<Rightarrow> (vnode, string) result) \<Rightarrow> string list \<Rightarrow> (vnode list, napi_error) result" where
  "parse_children of_json [] = Ok []"
| "parse_children of_json (j # js) =
     (case of_json j of
        Err e \<Rightarrow> Err (from_reason (''Failed to parse child VNode: '' @ e))
      | Ok n \<Rightarrow> map_ok ((#) n) (parse_children of_json js))"

definition styled_element ::
  "(vnode \<Rightarrow> (string, string) result) \<Rightarrow> (string \<Rightarrow> (vnode, string) result)
     \<Rightarrow> string \<Rightarrow> props \<Rightarrow> props \<Rightarrow> string list \<Rightarrow> (string, napi_error) result" where
  "styled_element to_json of_json tg p st js =
     (case parse_children of_json js of
        Err e \<Rightarrow> Err e
      | Ok cs \<Rightarrow> map_err from_reason (to_json (vnode_element tg p st cs)))"

definition clone_subtree :: "vnode \<Rightarrow> vnode" where
  "clone_subtree n = n"

definition merge_node :: "vnode \<Rightarrow> vnode \<Rightarrow> vnode" where
  "merge_node other n = other"

lemma parse_children_written:
  assumes "\<And>n j. to_json n = Ok j \<Longrightarrow> of_json j = Ok n" "list_all2 (\<lambda>n j. to_json n = Ok j) ns js"
  shows "parse_children of_json js = Ok ns"
  using assms(2) by (induction ns js rule: list_all2_induct) (simp_all add: assms(1))

text \<open>An element built from the texts of nodes is the element of those nodes.\<close>

lemma styled_element_written:
  assumes "\<And>n j. to_json n = Ok j \<Longrightarrow> of_json j = Ok n" "list_all2 (\<lambda>n j. to_json n = Ok j) ns js"
  shows "styled_element to_json of_json tg p st js = map_err from_reason (to_json (vnode_element tg p st ns))"
  using parse_children_written [OF assms] by (simp add: styled_element_def)

section \<open>Patches\<close>

datatype patch =
    Replace vnode
  | UpdateProps props
  | AppendChild vnode
  | RemoveChild nat
  | UpdateText string
  | NoPatch

fun get_description :: "patch \<Rightarrow> string" where
  "get_description (Replace n) = ''Replace''"
| "get_description (UpdateProps p) = ''UpdateProps''"
| "get_description (AppendChild n) = ''AppendChild''"
| "get_description (RemoveChild i) = ''RemoveChild''"
| "get_description (UpdateText t) = ''UpdateText''"
| "get_description NoPatch = ''None''"

text \<open>New and changed keys get their new value, removed keys the empty string.\<close>

definition diff_props :: "props \<Rightarrow> props \<Rightarrow> props" where
  "diff_props old new =
     fmfilter (\<lambda>k. fmlookup old k \<noteq> fmlookup new k) new ++\<^sub>f
     fmmap (\<lambda>_. '''') (fmfilter (\<lambda>k. fmlookup new k = None) old)"

definition props_patch :: "props \<Rightarrow> props \<Rightarrow> patch list" where
  "props_patch old new = (let d = diff_props old new in if d = fmempty then [] else [UpdateProps d])"

text \<open>The equality test at the start of \<open>diff\<close> and the removal of \<open>None\<close> patches at its end.\<close>

definition finish_diff :: "vnode \<Rightarrow> vnode \<Rightarrow> patch list \<Rightarrow> patch list" where
  "finish_diff old new patches =
     (if old = new then [NoPatch]
      else if 1 < length patches then filter (\<lambda>p. p \<noteq> NoPatch) patches else patches)"

text \<open>The index of \<open>diff_children\<close> is the number of overlapping children already compared.\<close>

fun diff :: "vnode \<Rightarrow> vnode \<Rightarrow> patch list"
  and diff_children :: "nat \<Rightarrow> vnode list \<Rightarrow> vnode list \<Rightarrow> patch list" where
  "diff (Text a) (Text b) = finish_diff (Text a) (Text b) (if a \<noteq> b then [UpdateText b] else [])"
| "diff (Element (VElement t p s cs)) (Element (VElement t' p' s' cs')) =
     finish_diff (Element (VElement t p s cs)) (Element (VElement t' p' s' cs'))
       (if t \<noteq> t' then [Replace (Element (VElement t' p' s' cs'))]
        else props_patch p p' @ props_patch s s' @ diff_children 0 cs cs')"
| "diff (Text a) (Element e) = finish_diff (Text a) (Element e) [Replace (Element e)]"
| "diff (Element e) (Text b) = finish_diff (Element e) (Text b) [Replace (Text b)]"
| "diff_children i (c # cs) (c' # cs') =
     (if c \<noteq> c' then diff c c' else []) @ diff_children (Suc i) cs cs'"
| "diff_children i [] cs' = map AppendChild cs'"
| "diff_children i (c # cs) [] = map RemoveChild (rev [i..<i + length (c # cs)])"

section \<open>What a diff is\<close>

lemma diff_props_lookup:
  "fmlookup (diff_props old new) k =
     (case fmlookup new k of
        Some v \<Rightarrow> if fmlookup old k = Some v then None else Some v
      | None \<Rightarrow> (if fmlookup old k = None then None else Some ''''))"
  by (auto simp: diff_props_def split: option.splits intro: fmdomI)

lemma diff_props_empty_iff: "diff_props old new = fmempty \<longleftrightarrow> old = new"
proof
  assume e: "diff_props old new = fmempty"
  show "old = new"
  proof (rule fmap_ext)
    fix k
    have "fmlookup (diff_props old new) k = None" by (simp add: e)
    then show "fmlookup old k = fmlookup new k"
        by (auto simp: diff_props_lookup split: option.splits if_splits)
  qed
next
  assume "old = new"
  then show "diff_props old new = fmempty"
    by (intro fmap_ext) (simp add: diff_props_lookup split: option.splits)
qed

lemma props_patch_Nil_iff [simp]: "props_patch p p' = [] \<longleftrightarrow> p = p'"
  by (simp add: props_patch_def Let_def diff_props_empty_iff)

lemma props_patch_NoPatch: "NoPatch \<notin> set (props_patch p p')"
  by (simp add: props_patch_def Let_def)

text \<open>Updating the old properties with the difference gives the new ones, where no key is removed.\<close>

lemma diff_props_apply:
  assumes "fmdom old |\<subseteq>| fmdom new"
  shows "old ++\<^sub>f diff_props old new = new"
proof (rule fmap_ext)
  fix k
  have "fmlookup new k = None \<Longrightarrow> fmlookup old k = None"
    using assms by (metis fmdom_notD fmdom_notI fsubsetD)
  then show "fmlookup (old ++\<^sub>f diff_props old new) k = fmlookup new k"
    by (auto simp: diff_props_lookup split: option.splits if_splits intro: fmdomI)
qed

lemma diff_same: "diff v v = [NoPatch]"
proof (cases v)
  case (Element e)
  then show ?thesis by (cases e) (simp add: finish_diff_def)
qed (simp add: finish_diff_def)

lemma diff_children_same: "diff_children i cs cs = []"
  by (induction cs arbitrary: i) simp_all

lemma finish_diff_id:
  "old \<noteq> new \<Longrightarrow> NoPatch \<notin> set ps \<Longrightarrow> finish_diff old new ps = ps"
  by (auto simp: finish_diff_def filter_id_conv)

text \<open>The patches are a single \<open>None\<close> for equal trees, and have no \<open>None\<close> for different ones.\<close>

lemma diff_change:
  "old \<noteq> new \<Longrightarrow> diff old new \<noteq> [] \<and> NoPatch \<notin> set (diff old new)"
  "cs \<noteq> cs' \<Longrightarrow> diff_children i cs cs' \<noteq> [] \<and> NoPatch \<notin> set (diff_children i cs cs')"
proof (induction old new and i cs cs' rule: diff_diff_children.induct)
  case (2 t p s cs t' p' s' cs')
  let ?old = "Element (VElement t p s cs)" and ?new = "Element (VElement t' p' s' cs')"
  show ?case
  proof (cases "t = t'")
    case True
    let ?ps = "props_patch p p' @ props_patch s s' @ diff_children 0 cs cs'"
    have no: "NoPatch \<notin> set ?ps"
      using 2(1) True diff_children_same [of 0 cs] by (cases "cs = cs'") (auto simp: props_patch_NoPatch)
    have "?ps \<noteq> []"
      using 2 True by (cases "cs = cs'") auto
    then show ?thesis using finish_diff_id [OF 2(2) no] no True by simp
  next
    case False
    then show ?thesis by (simp add: finish_diff_def)
  qed
next
  case (5 i c cs c' cs')
  show ?case
  proof (cases "cs = cs'")
    case True
    then show ?thesis using 5 diff_children_same [of "Suc i" cs] by simp
  next
    case False
    then show ?thesis using 5 by (cases "c = c'") auto
  qed
next
  case (6 i cs')
  then show ?case by (cases cs') auto
qed (auto simp: finish_diff_def)

lemma diff_NoPatch_iff: "diff old new = [NoPatch] \<longleftrightarrow> old = new"
  using diff_same diff_change(1) by (metis list.set_intros(1))

end
