(* ===== verification/Renderer.thy ===== *)
theory Renderer
  imports Vdom Decimal
begin

text \<open>
  \<open>src/virtual_dom/renderer.rs\<close>: the renderer keeps a tree, applies the patches of a diff to it
  and prints to the terminal as it goes. The standard output is a value: the text printed so far
  and the results the coming flushes give (\<open>None\<close> for success, the text of the I/O error
  otherwise). A failed write that makes \<open>print!\<close> panic is not modelled. \<open>h\<close> is the visit order of
  the hash maps.
\<close>

section \<open>The terminal\<close>

record console =
  shown :: string
  flush_results :: "string option list"

type_synonym 'a io = "console \<Rightarrow> ('a, napi_error) result \<times> console"

definition print_text :: "string \<Rightarrow> console \<Rightarrow> console" where
  "print_text t con = con\<lparr>shown := shown con @ t\<rparr>"

definition flush :: "unit io" where
  "flush con =
     (case flush_results con of
        [] \<Rightarrow> (Ok (), con)
      | None # fs \<Rightarrow> (Ok (), con\<lparr>flush_results := fs\<rparr>)
      | Some msg # fs \<Rightarrow> (Err (from_reason (''IO Error: '' @ msg)), con\<lparr>flush_results := fs\<rparr>))"

definition esc :: "string \<Rightarrow> string" where
  "esc t = CHR 0x1B # t"

definition clear_screen :: "unit io" where
  "clear_screen con = flush (print_text (esc ''[2J'' @ esc ''[1;1H'') con)"

section \<open>Rendering a node\<close>

definition color_code :: "string \<Rightarrow> string" where
  "color_code v =
     (if v = ''black'' then ''30'' else if v = ''red'' then ''31'' else if v = ''green'' then ''32''
      else if v = ''yellow'' then ''33'' else if v = ''blue'' then ''34'' else if v = ''magenta'' then ''35''
      else if v = ''cyan'' then ''36'' else if v = ''white'' then ''37'' else ''0'')"

definition bg_color_code :: "string \<Rightarrow> string" where
  "bg_color_code v =
     (if v = ''black'' then ''40'' else if v = ''red'' then ''41'' else if v = ''green'' then ''42''
      else if v = ''yellow'' then ''43'' else if v = ''blue'' then ''44'' else if v = ''magenta'' then ''45''
      else if v = ''cyan'' then ''46'' else if v = ''white'' then ''47'' else ''0'')"

definition style_code :: "string \<Rightarrow> string \<Rightarrow> string" where
  "style_code key v =
     (if key = ''color'' then esc (''['' @ color_code v @ ''m'')
      else if key = ''background'' then esc (''['' @ bg_color_code v @ ''m'')
      else if key = ''bold'' \<and> v = ''true'' then esc ''[1m''
      else if key = ''underline'' \<and> v = ''true'' then esc ''[4m''
      else if key = ''italic'' \<and> v = ''true'' then esc ''[3m''
      else if key = ''strikethrough'' \<and> v = ''true'' then esc ''[9m''
      else '''')"

definition apply_styles :: "(string \<Rightarrow> nat) \<Rightarrow> props \<Rightarrow> string" where
  "apply_styles h st = concat (map (\<lambda>(key, v). style_code key v) (entries_in h st))"

definition render_text :: "string \<Rightarrow> unit io" where
  "render_text t con = flush (print_text t con)"

fun render_node :: "(string \<Rightarrow> nat) \<Rightarrow> vnode \<Rightarrow> unit io"
  and render_children :: "(string \<Rightarrow> nat) \<Rightarrow> vnode list \<Rightarrow> unit io" where
  "render_node h (Text t) con = render_text t con"
| "render_node h (Element (VElement tg p st cs)) con =
     (if tg = ''text'' then
        (case fmlookup p ''content'' of
           Some content \<Rightarrow> flush (print_text (apply_styles h st @ content @ esc ''[0m'') con)
         | None \<Rightarrow> (Ok (), con))
      else render_children h cs con)"
| "render_children h [] con = (Ok (), con)"
| "render_children h (c # cs) con =
     (case render_node h c con of
        (Err e, con1) \<Rightarrow> (Err e, con1)
      | (Ok _, con1) \<Rightarrow> render_children h cs con1)"

section \<open>Updating a node\<close>

text \<open>The node is borrowed mutably: an operation that fails leaves its changes in place.\<close>

type_synonym update = "vnode \<Rightarrow> console \<Rightarrow> (unit, napi_error) result \<times> vnode \<times> console"

definition update_text :: "string \<Rightarrow> update" where
  "update_text new_text node con =
     (case clear_screen con of
        (Err e, con1) \<Rightarrow> (Err e, node, con1)
      | (Ok _, con1) \<Rightarrow>
          (case render_text new_text con1 of
             (Err e, con2) \<Rightarrow> (Err e, node, con2)
           | (Ok _, con2) \<Rightarrow>
               (case node of
                  Element (VElement t p s cs) \<Rightarrow>
                    (Ok (), Element (VElement t (fmupd ''content'' new_text p) s cs), con2)
                | Text _ \<Rightarrow> (Err (from_reason ''Cannot update text on a text node''), node, con2))))"

definition update_props :: "(string \<Rightarrow> nat) \<Rightarrow> props \<Rightarrow> update" where
  "update_props h new node con =
     (case node of
        Text _ \<Rightarrow> (Err (from_reason ''Cannot update props on a text node''), node, con)
      | Element (VElement t p s cs) \<Rightarrow>
          (case flush (print_text (concat (map (\<lambda>(k, v). k @ '': '' @ v @ [CHR 0x0A]) (entries_in h new))) con) of
             (r, con1) \<Rightarrow> (r, Element (VElement t (p ++\<^sub>f new) s cs), con1)))"

definition append_child :: "(string \<Rightarrow> nat) \<Rightarrow> vnode \<Rightarrow> update" where
  "append_child h child node con =
     (case render_node h child con of
        (Err e, con1) \<Rightarrow> (Err e, node, con1)
      | (Ok _, con1) \<Rightarrow>
          (case node of
             Element (VElement t p s cs) \<Rightarrow> (Ok (), Element (VElement t p s (cs @ [child])), con1)
           | Text _ \<Rightarrow> (Err (from_reason ''Cannot append child to a text node''), node, con1)))"

definition remove_nth :: "nat \<Rightarrow> 'a list \<Rightarrow> 'a list" where
  "remove_nth i xs = take i xs @ drop (Suc i) xs"

definition remove_child :: "(string \<Rightarrow> nat) \<Rightarrow> u32 \<Rightarrow> update" where
  "remove_child h i node con =
     (case node of
        Text _ \<Rightarrow> (Err (from_reason ''Cannot remove child from a text node''), node, con)
      | Element (VElement t p s cs) \<Rightarrow>
          (if unat i < length cs then
             (let node' = Element (VElement t p s (remove_nth (unat i) cs))
              in case clear_screen con of
                   (Err e, con1) \<Rightarrow> (Err e, node', con1)
                 | (Ok _, con1) \<Rightarrow> (case render_node h node' con1 of (r, con2) \<Rightarrow> (r, node', con2)))
           else (Err (from_reason (''Child index '' @ show_u32 i @ '' out of bounds'')), node, con)))"

section \<open>Applying patches to the root\<close>

text \<open>
  Every patch is applied to the root, whatever node it was computed for. The index of a removed
  child is cast to 32 bits.
\<close>

definition apply_patch :: "(string \<Rightarrow> nat) \<Rightarrow> patch \<Rightarrow> update" where
  "apply_patch h p root con =
     (case p of
        Replace node \<Rightarrow> (case render_node h node con of (r, con1) \<Rightarrow> (r, node, con1))
      | UpdateProps new \<Rightarrow> update_props h new root con
      | AppendChild node \<Rightarrow> append_child h node root con
      | RemoveChild i \<Rightarrow> remove_child h (of_nat i) root con
      | UpdateText t \<Rightarrow> update_text t root con
      | NoPatch \<Rightarrow> (Ok (), root, con))"

fun apply_patches :: "(string \<Rightarrow> nat) \<Rightarrow> patch list \<Rightarrow> update" where
  "apply_patches h [] root con = (Ok (), root, con)"
| "apply_patches h (p # ps) root con =
     (case apply_patch h p root con of
        (Err e, root1, con1) \<Rightarrow> (Err e, root1, con1)
      | (Ok _, root1, con1) \<Rightarrow> apply_patches h ps root1 con1)"

definition render :: "(string \<Rightarrow> nat) \<Rightarrow> vnode \<Rightarrow> update" where
  "render h new_root root con =
     (case apply_patches h (diff root new_root) root con of
        (Err e, root1, con1) \<Rightarrow> (Err e, root1, con1)
      | (Ok _, root1, con1) \<Rightarrow> (Ok (), new_root, con1))"

definition render_all :: "(string \<Rightarrow> nat) \<Rightarrow> vnode \<Rightarrow> unit io" where
  "render_all h root con =
     (case clear_screen con of
        (Err e, con1) \<Rightarrow> (Err e, con1)
      | (Ok _, con1) \<Rightarrow> render_node h root con1)"

lemmas [vdom_defs] =
  flush_def clear_screen_def render_text_def update_text_def update_props_def append_child_def
  remove_child_def apply_patch_def render_def render_all_def

section \<open>What rendering prints\<close>

text \<open>The text a node renders to, when no flush fails.\<close>

fun node_text :: "(string \<Rightarrow> nat) \<Rightarrow> vnode \<Rightarrow> string"
  and nodes_text :: "(string \<Rightarrow> nat) \<Rightarrow> vnode list \<Rightarrow> string" where
  "node_text h (Text t) = t"
| "node_text h (Element (VElement tg p st cs)) =
     (if tg = ''text'' then
        (case fmlookup p ''content'' of
           Some content \<Rightarrow> apply_styles h st @ content @ esc ''[0m''
         | None \<Rightarrow> [])
      else nodes_text h cs)"
| "nodes_text h [] = []"
| "nodes_text h (c # cs) = node_text h c @ nodes_text h cs"

definition calm :: "console \<Rightarrow> bool" where
  "calm con \<longleftrightarrow> flush_results con = []"

lemma calm_print [simp]: "calm (print_text t con) = calm con"
  by (simp add: calm_def print_text_def)

lemma flush_calm [simp]: "calm con \<Longrightarrow> flush con = (Ok (), con)"
  by (simp add: flush_def calm_def)

lemma print_print [simp]: "print_text u (print_text t con) = print_text (t @ u) con"
  by (simp add: print_text_def)

lemma print_Nil [simp]: "print_text [] con = con"
  by (simp add: print_text_def)

lemma render_node_calm:
  "calm con \<Longrightarrow> render_node h n con = (Ok (), print_text (node_text h n) con)"
  "calm con \<Longrightarrow> render_children h ns con = (Ok (), print_text (nodes_text h ns) con)"
proof (induction h n con and h ns con rule: render_node_render_children.induct)
  case (4 h c cs con)
  then show ?case by simp
qed (auto simp: render_text_def split: option.splits)

text \<open>A rendering only adds to the terminal, whether it succeeds or not.\<close>

lemma flush_shown: "flush con = (r, con') \<Longrightarrow> shown con' = shown con"
  by (auto simp: flush_def split: list.splits option.splits)

lemma render_node_prefix:
  "render_node h n con = (r, con') \<Longrightarrow> prefix (shown con) (shown con')"
  "render_children h ns con = (r, con') \<Longrightarrow> prefix (shown con) (shown con')"
proof (induction h n con and h ns con arbitrary: r con' and r con'
    rule: render_node_render_children.induct)
  case (4 h c cs con)
  then show ?case
    by (auto split: prod.splits result.splits) (meson prefix_order.trans)
qed (auto simp: render_text_def print_text_def split: option.splits if_splits dest!: flush_shown)

end
