(* ===== verification/Renderer_Laws.thy ===== *)
theory Renderer_Laws
  imports Renderer
begin

text \<open>
  Which changes of a tree the renderer carries out correctly, and what it does with the others:
  the diff of nested nodes, of styles and of removed properties is applied to the root.
\<close>

section \<open>Where the patches are right\<close>

lemma apply_patches_append:
  "apply_patches h (ps @ qs) root con =
     (case apply_patches h ps root con of
        (Err e, root1, con1) \<Rightarrow> (Err e, root1, con1)
      | (Ok _, root1, con1) \<Rightarrow> apply_patches h qs root1 con1)"
  by (induction ps arbitrary: root con) (auto split: prod.splits result.splits)

lemma update_props_calm:
  "calm con \<Longrightarrow> \<exists>t'. update_props h new (Element (VElement t p s cs)) con =
     (Ok (), Element (VElement t (p ++\<^sub>f new) s cs), print_text t' con)"
  by (auto simp: update_props_def)

lemma apply_props_patch_calm:
  assumes "calm con" "fmdom p |\<subseteq>| fmdom p'"
  shows "\<exists>t'. apply_patches h (props_patch p p') (Element (VElement t p s cs)) con =
     (Ok (), Element (VElement t p' s cs), print_text t' con)"
proof (cases "p = p'")
  case True
  then have "apply_patches h (props_patch p p') (Element (VElement t p s cs)) con =
     (Ok (), Element (VElement t p' s cs), print_text [] con)"
    by (simp add: props_patch_def diff_props_empty_iff Let_def)
  then show ?thesis by blast
next
  case False
  then have "props_patch p p' = [UpdateProps (diff_props p p')]"
    by (simp add: props_patch_def diff_props_empty_iff Let_def)
  with update_props_calm [OF assms(1), of h "diff_props p p'" t p s cs] show ?thesis
    by (auto simp: apply_patch_def diff_props_apply [OF assms(2)])
qed

lemma apply_appends_calm:
  "calm con \<Longrightarrow> apply_patches h (map AppendChild ns) (Element (VElement t p s cs)) con =
     (Ok (), Element (VElement t p s (cs @ ns)), print_text (nodes_text h ns) con)"
proof (induction ns arbitrary: cs con)
  case (Cons n ns)
  then show ?case by (simp add: apply_patch_def append_child_def render_node_calm)
qed simp

lemma remove_nth_last: "remove_nth (length xs) (xs @ [x]) = xs"
  by (simp add: remove_nth_def)

lemma apply_removes_calm:
  "calm con \<Longrightarrow> length (cs @ ds) \<le> 2 ^ 32 \<Longrightarrow>
   \<exists>t'. apply_patches h (map RemoveChild (rev [length cs..<length (cs @ ds)]))
      (Element (VElement t p s (cs @ ds))) con =
     (Ok (), Element (VElement t p s cs), print_text t' con)"
proof (induction ds arbitrary: con rule: rev_induct)
  case Nil
  have "print_text [] con = con" by simp
  then show ?case by (metis append_Nil2 apply_patches.simps(1) list.simps(8) rev.simps(1) upt_rec
      less_irrefl)
next
  case (snoc d ds)
  let ?i = "length (cs @ ds)"
  have small: "unat (of_nat n :: u32) = n" if "n < 2 ^ 32" for n
    using that by (simp add: unat_of_nat)
  have i: "unat (of_nat ?i :: u32) = ?i"
    using snoc.prems(2) by (intro small) simp
  have r: "rev [length cs..<length (cs @ ds @ [d])] = ?i # rev [length cs..<?i]"
    by simp
  have rm: "remove_nth ?i (cs @ ds @ [d]) = cs @ ds"
    using remove_nth_last [of "cs @ ds" d] by simp
  obtain t1 where step: "apply_patch h (RemoveChild ?i) (Element (VElement t p s (cs @ ds @ [d]))) con =
      (Ok (), Element (VElement t p s (cs @ ds)), print_text t1 con)"
    using snoc.prems(1) i rm
    by (simp add: apply_patch_def remove_child_def clear_screen_def Let_def render_node_calm)
  have "calm (print_text t1 con)" "length (cs @ ds) \<le> 2 ^ 32" using snoc.prems by simp_all
  from snoc.IH [OF this] obtain t2 where
    "apply_patches h (map RemoveChild (rev [length cs..<?i])) (Element (VElement t p s (cs @ ds)))
       (print_text t1 con) = (Ok (), Element (VElement t p s cs), print_text (t1 @ t2) con)"
    by auto
  then show ?case unfolding r by (auto simp: step [unfolded length_append] simp del: upt_Suc)
qed

lemma diff_children_grow: "diff_children i cs (cs @ ns) = map AppendChild ns"
  by (induction cs arbitrary: i) simp_all

lemma diff_children_shrink:
  "diff_children i (cs @ ds) cs = map RemoveChild (rev [i + length cs..<i + length (cs @ ds)])"
proof (induction cs arbitrary: i)
  case Nil
  then show ?case by (cases ds) simp_all
next
  case (Cons c cs)
  then show ?case by (simp del: upt_Suc)
qed

lemma apply_replace_calm:
  "calm con \<Longrightarrow> apply_patches h [Replace n] root con = (Ok (), n, print_text (node_text h n) con)"
  by (simp add: apply_patch_def render_node_calm del: render_node.simps)

text \<open>
  The changes the renderer handles: another tag or kind of node, or the same element with the
  same styles, no property removed, and children only added or only removed at the end.
\<close>

definition root_change :: "vnode \<Rightarrow> vnode \<Rightarrow> bool" where
  "root_change old new \<longleftrightarrow>
     (case (old, new) of
        (Text a, Text b) \<Rightarrow> a = b
      | (Element (VElement t p s cs), Element (VElement t' p' s' cs')) \<Rightarrow>
          t \<noteq> t' \<or> (s = s' \<and> fmdom p |\<subseteq>| fmdom p' \<and> length cs \<le> 2 ^ 32 \<and>
                    (prefix cs cs' \<or> prefix cs' cs))
      | _ \<Rightarrow> True)"

lemma apply_children_calm:
  assumes "calm con" "length cs \<le> 2 ^ 32" "prefix cs cs' \<or> prefix cs' cs"
  shows "\<exists>t'. apply_patches h (diff_children 0 cs cs') (Element (VElement t p s cs)) con =
     (Ok (), Element (VElement t p s cs'), print_text t' con)"
proof (cases "prefix cs cs'")
  case True
  then obtain ns where "cs' = cs @ ns" by (auto simp: prefix_def)
  then show ?thesis using apply_appends_calm [OF assms(1)] by (auto simp: diff_children_grow)
next
  case False
  then obtain ds where ds: "cs = cs' @ ds" using assms(3) by (auto simp: prefix_def)
  with apply_removes_calm [OF assms(1), of cs' ds h t p s] assms(2) show ?thesis
    by (simp add: diff_children_shrink)
qed

lemma apply_diff_calm:
  assumes "calm con" "root_change old new"
  shows "\<exists>t'. apply_patches h (diff old new) old con = (Ok (), new, print_text t' con)"
proof (cases "old = new")
  case True
  then have "apply_patches h (diff old new) old con = (Ok (), new, print_text [] con)"
    by (simp add: diff_same apply_patch_def)
  then show ?thesis by blast
next
  case ne: False
  show ?thesis
  proof (cases old; cases new)
    fix a b assume "old = Text a" "new = Text b"
    then show ?thesis using assms(2) ne by (simp add: root_change_def)
  next
    fix a e assume "old = Text a" "new = Element e"
    then show ?thesis using apply_replace_calm [OF assms(1)] ne
      by (auto simp: finish_diff_def simp del: apply_patches.simps)
  next
    fix e b assume "old = Element e" "new = Text b"
    then show ?thesis using apply_replace_calm [OF assms(1)] ne
      by (auto simp: finish_diff_def simp del: apply_patches.simps)
  next
    fix e e' assume oe: "old = Element e" "new = Element e'"
    obtain t p s cs where e: "e = VElement t p s cs" by (cases e)
    obtain t' p' s' cs' where e': "e' = VElement t' p' s' cs'" by (cases e')
    show ?thesis
    proof (cases "t = t'")
      case False
      then show ?thesis using apply_replace_calm [OF assms(1)] ne
        by (auto simp: oe e e' finish_diff_def simp del: apply_patches.simps)
    next
      case True
      from assms(2) True have c: "s = s'" "fmdom p |\<subseteq>| fmdom p'" "length cs \<le> 2 ^ 32"
        "prefix cs cs' \<or> prefix cs' cs"
        by (simp_all add: root_change_def oe e e')
      have d: "diff old new = props_patch p p' @ diff_children 0 cs cs'"
      proof -
        have "NoPatch \<notin> set (props_patch p p' @ diff_children 0 cs cs')"
          using diff_change(2) [of cs cs' 0] diff_children_same [of 0 cs] props_patch_NoPatch [of p p']
          by (cases "cs = cs'") auto
        from finish_diff_id [OF ne this] show ?thesis
          using True c(1) by (simp add: oe e e' props_patch_def [of s' s'] diff_props_empty_iff)
      qed
      obtain t1 where "apply_patches h (props_patch p p') old con =
          (Ok (), Element (VElement t p' s cs), print_text t1 con)"
        using apply_props_patch_calm [OF assms(1) c(2), of h t s cs] by (auto simp: oe e)
      moreover obtain t2 where "apply_patches h (diff_children 0 cs cs') (Element (VElement t p' s cs))
          (print_text t1 con) = (Ok (), Element (VElement t p' s cs'), print_text t2 (print_text t1 con))"
        using apply_children_calm [of "print_text t1 con" cs cs' h t p' s] assms(1) c by auto
      ultimately show ?thesis unfolding d apply_patches_append
        by (auto simp: oe(2) e' True c(1))
    qed
  qed
qed

section \<open>Where they are not\<close>

text \<open>A changed text at the root is printed and then refused.\<close>

lemma apply_text_change:
  assumes "calm con" "a \<noteq> b"
  shows "apply_patches h (diff (Text a) (Text b)) (Text a) con =
    (Err (from_reason ''Cannot update text on a text node''), Text a,
     print_text (esc ''[2J'' @ esc ''[1;1H'' @ b) con)"
  using assms
  by (simp add: finish_diff_def apply_patch_def update_text_def clear_screen_def render_text_def)

text \<open>A changed text below the root becomes the content property of the root.\<close>

lemma apply_nested_text_change:
  assumes "calm con" "a \<noteq> b"
  shows "apply_patches h (diff (Element (VElement t p s (Text a # cs))) (Element (VElement t p s (Text b # cs))))
      (Element (VElement t p s (Text a # cs))) con =
    (Ok (), Element (VElement t (fmupd ''content'' b p) s (Text a # cs)),
     print_text (esc ''[2J'' @ esc ''[1;1H'' @ b) con)"
proof -
  have "diff (Element (VElement t p s (Text a # cs))) (Element (VElement t p s (Text b # cs))) = [UpdateText b]"
    using assms(2) diff_children_same [of 1 cs] by (simp add: finish_diff_def)
  then show ?thesis using assms(1)
    by (simp add: apply_patch_def update_text_def clear_screen_def render_text_def)
qed

text \<open>A change of styles lands in the properties, and the styles stay.\<close>

lemma apply_style_change:
  assumes "calm con" "s \<noteq> s'"
  shows "\<exists>t'. apply_patches h (diff (Element (VElement t p s cs)) (Element (VElement t p s' cs)))
      (Element (VElement t p s cs)) con =
    (Ok (), Element (VElement t (p ++\<^sub>f diff_props s s') s cs), print_text t' con)"
proof -
  have "diff (Element (VElement t p s cs)) (Element (VElement t p s' cs)) = [UpdateProps (diff_props s s')]"
    using assms(2) diff_children_same [of 0 cs] diff_props_empty_iff [of s s']
    by (simp add: finish_diff_def props_patch_def Let_def diff_props_empty_iff)
  with update_props_calm [OF assms(1), of h "diff_props s s'" t p s cs] show ?thesis
    by (auto simp: apply_patch_def)
qed

text \<open>A removed property stays, with an empty value.\<close>

lemma apply_removed_prop:
  assumes "calm con" "fmlookup p k = Some v" "fmlookup p' k = None"
  shows "\<exists>q con'. apply_patches h (diff (Element (VElement t p s cs)) (Element (VElement t p' s cs)))
      (Element (VElement t p s cs)) con = (Ok (), Element (VElement t q s cs), con') \<and>
    fmlookup q k = Some []"
proof -
  have ne: "p \<noteq> p'" using assms(2,3) by auto
  then have "diff (Element (VElement t p s cs)) (Element (VElement t p' s cs)) = [UpdateProps (diff_props p p')]"
    using diff_children_same [of 0 cs]
    by (simp add: finish_diff_def props_patch_def Let_def diff_props_empty_iff)
  moreover have "fmlookup (p ++\<^sub>f diff_props p p') k = Some []"
    using assms(2,3) by (auto simp: diff_props_lookup fmdomI)
  ultimately show ?thesis
    using update_props_calm [OF assms(1), of h "diff_props p p'" t p s cs]
    by (auto simp: apply_patch_def)
qed

end
