(* ===== verification/Key_Input.thy ===== *)
theory Key_Input
  imports Decimal
begin

text \<open>
  The bytes of key events and of terminal sequences: \<open>src/utils/ansi_parser.rs\<close>,
  \<open>src/virtual_dom/input_handler.rs\<close>, \<open>src/virtual_dom/key_state.rs\<close> and the key handling of
  \<open>src/pty/emulator.rs\<close>. A Rust \<open>char\<close> is a 32-bit word; \<open>c as u8\<close> keeps its low byte. The
  escape-sequence parser of the \<open>vte\<close> crate is third-party code: its calls of \<open>Perform\<close> are the
  values of \<open>vte_event\<close>.
\<close>

section \<open>Key events\<close>

type_synonym uchar = "32 word"

datatype key_code = KChar uchar | KEnter | KBackspace | KTab | KEsc | KLeft | KRight | KUp | KDown
  | KHome | KEnd | KPageUp | KPageDown | KDelete | KInsert | KOther nat

record key_event =
  k_code :: key_code
  k_ctrl :: bool
  k_alt :: bool

definition as_u8 :: "uchar \<Rightarrow> u8" where
  "as_u8 c = ucast c"

text \<open>The emulator and the input handler have the same two functions.\<close>

fun control_key_to_byte :: "key_code \<Rightarrow> u8 option" where
  "control_key_to_byte (KChar c) = Some (and (as_u8 c) 0x1F)"
| "control_key_to_byte _ = None"

definition csi_bytes :: "string \<Rightarrow> bytes" where
  "csi_bytes t = 0x1B # 0x5B # as_bytes t"

fun plain_key_bytes :: "key_code \<Rightarrow> bytes" where
  "plain_key_bytes (KChar c) = [as_u8 c]"
| "plain_key_bytes KEnter = [0x0A]"
| "plain_key_bytes KBackspace = [0x7F]"
| "plain_key_bytes KTab = [0x09]"
| "plain_key_bytes KEsc = [0x1B]"
| "plain_key_bytes KLeft = csi_bytes ''D''"
| "plain_key_bytes KRight = csi_bytes ''C''"
| "plain_key_bytes KUp = csi_bytes ''A''"
| "plain_key_bytes KDown = csi_bytes ''B''"
| "plain_key_bytes _ = []"

definition key_event_to_bytes :: "key_event \<Rightarrow> bytes" where
  "key_event_to_bytes k =
     (if k_ctrl k then (case control_key_to_byte (k_code k) of Some b \<Rightarrow> [b] | None \<Rightarrow> [])
      else plain_key_bytes (k_code k))"

text \<open>The ANSI parser's version knows \<open>ALT\<close>, more keys, and more control keys.\<close>

fun ansi_control_key_to_byte :: "key_code \<Rightarrow> u8 option" where
  "ansi_control_key_to_byte (KChar c) = Some (and (as_u8 c) 0x1F)"
| "ansi_control_key_to_byte KEnter = Some 0x0A"
| "ansi_control_key_to_byte KBackspace = Some 0x08"
| "ansi_control_key_to_byte KTab = Some 0x09"
| "ansi_control_key_to_byte KEsc = Some 0x1B"
| "ansi_control_key_to_byte _ = None"

fun ansi_plain_key_bytes :: "key_code \<Rightarrow> bytes" where
  "ansi_plain_key_bytes (KChar c) = [as_u8 c]"
| "ansi_plain_key_bytes KEnter = [0x0A]"
| "ansi_plain_key_bytes KBackspace = [0x7F]"
| "ansi_plain_key_bytes KTab = [0x09]"
| "ansi_plain_key_bytes KEsc = [0x1B]"
| "ansi_plain_key_bytes KLeft = csi_bytes ''D''"
| "ansi_plain_key_bytes KRight = csi_bytes ''C''"
| "ansi_plain_key_bytes KUp = csi_bytes ''A''"
| "ansi_plain_key_bytes KDown = csi_bytes ''B''"
| "ansi_plain_key_bytes KHome = csi_bytes ''H''"
| "ansi_plain_key_bytes KEnd = csi_bytes ''F''"
| "ansi_plain_key_bytes KPageUp = csi_bytes ''5~''"
| "ansi_plain_key_bytes KPageDown = csi_bytes ''6~''"
| "ansi_plain_key_bytes KDelete = csi_bytes ''3~''"
| "ansi_plain_key_bytes KInsert = csi_bytes ''2~''"
| "ansi_plain_key_bytes (KOther n) = []"

definition ansi_key_event_to_bytes :: "key_event \<Rightarrow> bytes" where
  "ansi_key_event_to_bytes k =
     (if k_ctrl k then (case ansi_control_key_to_byte (k_code k) of Some b \<Rightarrow> [b] | None \<Rightarrow> [])
      else if k_alt k then 0x1B # (case k_code k of KChar c \<Rightarrow> [as_u8 c] | _ \<Rightarrow> [])
      else ansi_plain_key_bytes (k_code k))"

text \<open>
  The emulator builds the event from a name and modifier bits; \<open>from_bits\<close> is the conversion of
  the \<open>crossterm\<close> crate, to the control and alt flags, which fails on unknown bits.
\<close>

definition construct_key_event ::
  "(u8 \<Rightarrow> (bool \<times> bool) option) \<Rightarrow> string \<Rightarrow> u32 \<Rightarrow> (key_event, napi_error) result" where
  "construct_key_event from_bits key_name modifiers =
     (let key =
        (if key_name = ''Char'' then Some (KChar 97)
         else if key_name = ''Enter'' then Some KEnter
         else if key_name = ''Backspace'' then Some KBackspace
         else if key_name = ''Tab'' then Some KTab
         else if key_name = ''Esc'' then Some KEsc
         else if key_name = ''Left'' then Some KLeft
         else if key_name = ''Right'' then Some KRight
         else if key_name = ''Up'' then Some KUp
         else if key_name = ''Down'' then Some KDown
         else None)
      in case key of
           None \<Rightarrow> Err (napi_err InvalidArg ''Invalid key code'')
         | Some code \<Rightarrow>
             (case from_bits (ucast modifiers) of
                Some (ctrl, alt) \<Rightarrow> Ok \<lparr>k_code = code, k_ctrl = ctrl, k_alt = alt\<rparr>
              | None \<Rightarrow> Ok \<lparr>k_code = code, k_ctrl = False, k_alt = False\<rparr>))"

text \<open>\<open>handle_event\<close>: the bytes the JavaScript function is called with.\<close>

definition handle_event ::
  "(u8 \<Rightarrow> (bool \<times> bool) option) \<Rightarrow> string \<Rightarrow> u32 \<Rightarrow> (bytes, napi_error) result" where
  "handle_event from_bits key_name modifiers =
     map_ok key_event_to_bytes (construct_key_event from_bits key_name modifiers)"

section \<open>The events of the escape-sequence parser\<close>

datatype vte_event =
    VPrint uchar
  | VExecute u8
  | VHook "u16 list list" bytes uchar
  | VPut u8
  | VUnhook
  | VOsc "bytes list"
  | VCsi "u16 list list" bytes uchar
  | VEsc bytes u8

text \<open>
  Parameters are joined with semicolons; the subparameters of one are not separated, and the
  intermediate bytes follow the parameters.
\<close>

definition param_bytes :: "u16 list list \<Rightarrow> bytes" where
  "param_bytes ps = join [0x3B] (map (\<lambda>p. concat (map (\<lambda>n. as_bytes (show_u16 n)) p)) ps)"

text \<open>What \<open>ANSIParser\<close> passes to its handler, one list per call of \<open>handle_output\<close>.\<close>

fun ansi_output :: "vte_event \<Rightarrow> bytes list" where
  "ansi_output (VPrint c) = [[as_u8 c]]"
| "ansi_output (VExecute b) = [[b]]"
| "ansi_output (VCsi ps im c) = [[0x1B, 0x5B] @ param_bytes ps @ im @ [as_u8 c]]"
| "ansi_output (VOsc ps) = [[0x1B, 0x5D] @ join [0x3B] ps @ [0x07]]"
| "ansi_output (VHook ps im c) = [[0x1B, 0x50] @ param_bytes ps @ im @ [as_u8 c]]"
| "ansi_output (VPut b) = [[b]]"
| "ansi_output VUnhook = [[0x1B, 0x5C]]"
| "ansi_output (VEsc im b) = []"

text \<open>The parser of the input handler forwards printable characters and CSI sequences only.\<close>

fun input_output :: "vte_event \<Rightarrow> bytes list" where
  "input_output (VPrint c) = [[as_u8 c]]"
| "input_output (VCsi ps im c) = [[0x1B, 0x5B] @ param_bytes ps @ im @ [as_u8 c]]"
| "input_output _ = []"

text \<open>\<open>KeyState::convert_key_event\<close>: the name of a key; \<open>utf8\<close> is the text of a character.\<close>

fun key_name_of :: "(uchar \<Rightarrow> string) \<Rightarrow> key_code \<Rightarrow> string" where
  "key_name_of utf8 (KChar c) = utf8 c"
| "key_name_of utf8 KEnter = ''Enter''"
| "key_name_of utf8 KEsc = ''Esc''"
| "key_name_of utf8 KBackspace = ''Backspace''"
| "key_name_of utf8 KLeft = ''Left''"
| "key_name_of utf8 KRight = ''Right''"
| "key_name_of utf8 KUp = ''Up''"
| "key_name_of utf8 KDown = ''Down''"
| "key_name_of utf8 _ = ''Unknown''"

section \<open>Properties\<close>

text \<open>A control character is below 32, whatever character it is made from.\<close>

lemma control_byte_small: "and (b :: u8) 0x1F < 32"
proof -
  have "and b 0x1F \<le> 0x1F" by (rule word_and_le1)
  then show ?thesis by (simp add: word_le_nat_alt word_less_nat_alt)
qed

lemma ansi_extends_plain:
  "plain_key_bytes c \<noteq> [] \<Longrightarrow> ansi_plain_key_bytes c = plain_key_bytes c"
  by (cases c) simp_all

lemma key_event_to_bytes_short: "length (key_event_to_bytes k) \<le> 3"
  by (cases "k_code k") (auto simp: key_event_to_bytes_def csi_bytes_def)

text \<open>Plain printable keys and the control sequences are told apart by their first byte.\<close>

lemma ansi_plain_keys_inj:
  assumes "ansi_plain_key_bytes a = ansi_plain_key_bytes b" "ansi_plain_key_bytes a \<noteq> []"
    and "\<And>c. a \<noteq> KChar c" "\<And>c. b \<noteq> KChar c"
  shows "a = b"
  using assms by (cases a; cases b) (auto simp: csi_bytes_def as_bytes_def char_byte_def)

lemma as_u8_ascii: "c < 128 \<Longrightarrow> unat (as_u8 c) = unat c"
  by (simp add: as_u8_def unsigned_ucast_eq take_bit_eq_mod word_less_nat_alt)

end
