(* ===== verification/Pty_Renderer.thy ===== *)
theory Pty_Renderer
  imports Renderer_Laws Key_Input Utf8
begin

text \<open>
  \<open>src/pty/pty_renderer.rs\<close>, \<open>src/pty/output_handler.rs\<close> and the rendering side of
  \<open>src/pty/emulator.rs\<close>: each piece of output becomes a text element, which is diffed against
  the previous one and rendered.
\<close>

section \<open>The renderer of a PTY\<close>

record pty_renderer =
  root_node :: vnode
  prev_vdom :: vnode

definition empty_root :: vnode where
  "empty_root = vnode_element ''root'' fmempty fmempty []"

definition new_renderer :: pty_renderer where
  "new_renderer = \<lparr>root_node = empty_root, prev_vdom = empty_root\<rparr>"

text \<open>The node built from a piece of output.\<close>

definition output_node :: "bytes \<Rightarrow> vnode" where
  "output_node data =
     vnode_element ''text'' (fmupd ''content'' (from_utf8_lossy data) fmempty) fmempty []"

text \<open>\<open>render\<close> and \<open>process_and_send\<close> have the same body; an error leaves \<open>prev_vdom\<close>.\<close>

definition pr_render ::
  "(string \<Rightarrow> nat) \<Rightarrow> bytes \<Rightarrow> pty_renderer \<Rightarrow> console \<Rightarrow> (unit, napi_error) result \<times> pty_renderer \<times> console" where
  "pr_render h data pr con =
     (let new_vdom = output_node data in
      case apply_patches h (diff (prev_vdom pr) new_vdom) (root_node pr) con of
        (Err e, root1, con1) \<Rightarrow> (Err e, pr\<lparr>root_node := root1\<rparr>, con1)
      | (Ok _, root1, con1) \<Rightarrow> (Ok (), pr\<lparr>root_node := root1, prev_vdom := new_vdom\<rparr>, con1))"

definition process_and_send ::
  "(string \<Rightarrow> nat) \<Rightarrow> u32 \<Rightarrow> bytes \<Rightarrow> pty_renderer \<Rightarrow> console \<Rightarrow> (unit, napi_error) result \<times> pty_renderer \<times> console" where
  "process_and_send h session_id data pr con = pr_render h data pr con"

text \<open>
  \<open>handle_output\<close>, of the renderer and of \<open>PtyOutputHandlerWrapper\<close> in \<open>output_handler.rs\<close>: an
  error goes to the error stream, and \<open>prev_vdom\<close> is set all the same.
\<close>

definition pr_handle_output :: "(string \<Rightarrow> nat) \<Rightarrow> bytes \<Rightarrow> pty_renderer \<Rightarrow> console \<Rightarrow> pty_renderer \<times> console" where
  "pr_handle_output h data pr con =
     (let new_vdom = output_node data in
      case apply_patches h (diff (prev_vdom pr) new_vdom) (root_node pr) con of
        (r, root1, con1) \<Rightarrow> (pr\<lparr>root_node := root1, prev_vdom := new_vdom\<rparr>, con1))"

text \<open>Of the events of the escape-sequence parser only a printable character does anything.\<close>

fun pr_perform :: "(string \<Rightarrow> nat) \<Rightarrow> vte_event \<Rightarrow> pty_renderer \<Rightarrow> console \<Rightarrow> pty_renderer \<times> console" where
  "pr_perform h (VPrint c) pr con = pr_handle_output h [as_u8 c] pr con"
| "pr_perform h _ pr con = (pr, con)"

section \<open>The handler of \<open>output_handler.rs\<close>\<close>

text \<open>
  \<open>PtyOutputHandlerWrapper\<close> draws on a renderer it is given, with whatever root that has, and compares
  with an output of its own that starts as an empty root.
\<close>

record out_wrapper =
  ow_root :: vnode
  ow_prev :: vnode

definition out_new :: "vnode \<Rightarrow> out_wrapper" where
  "out_new renderer_root = \<lparr>ow_root = renderer_root, ow_prev = empty_root\<rparr>"

definition out_handle_output :: "(string \<Rightarrow> nat) \<Rightarrow> bytes \<Rightarrow> out_wrapper \<Rightarrow> console \<Rightarrow> out_wrapper \<times> console" where
  "out_handle_output h data ow con =
     (let content = from_utf8_lossy data;
          new_vdom = vnode_element ''text'' (fmupd ''content'' content fmempty) fmempty []
      in case apply_patches h (diff (ow_prev ow) new_vdom) (ow_root ow) con of
           (r, root1, con1) \<Rightarrow> (\<lparr>ow_root = root1, ow_prev = new_vdom\<rparr>, con1))"

fun out_perform :: "(string \<Rightarrow> nat) \<Rightarrow> vte_event \<Rightarrow> out_wrapper \<Rightarrow> console \<Rightarrow> out_wrapper \<times> console" where
  "out_perform h (VPrint c) ow con = out_handle_output h [as_u8 c] ow con"
| "out_perform h _ ow con = (ow, con)"

section \<open>The emulator\<close>

text \<open>The \<open>PtyOutputHandlerWrapper\<close> of the emulator passes what it handles on to its \<open>PtyRenderer\<close>.\<close>

fun wrapper_perform :: "(string \<Rightarrow> nat) \<Rightarrow> vte_event \<Rightarrow> pty_renderer \<Rightarrow> console \<Rightarrow> pty_renderer \<times> console" where
  "wrapper_perform h (VPrint c) pr con = pr_handle_output h [as_u8 c] pr con"
| "wrapper_perform h _ pr con = (pr, con)"

lemma wrapper_perform_eq: "wrapper_perform = pr_perform"
proof (intro ext)
  fix h e pr con
  show "wrapper_perform h e pr con = pr_perform h e pr con" by (cases e) simp_all
qed

record 'v emulator =
  em_parser :: 'v
  em_renderer :: pty_renderer

definition emulator_new :: "'v \<Rightarrow> 'v emulator" where
  "emulator_new parser = \<lparr>em_parser = parser, em_renderer = new_renderer\<rparr>"

text \<open>
  \<open>process_input\<close> feeds the bytes one by one to the parser of the \<open>vte\<close> crate, whose state is
  \<open>'v\<close> and whose step \<open>advance\<close> returns the calls it makes.
\<close>

fun perform_all :: "(string \<Rightarrow> nat) \<Rightarrow> vte_event list \<Rightarrow> pty_renderer \<Rightarrow> console \<Rightarrow> pty_renderer \<times> console" where
  "perform_all h [] pr con = (pr, con)"
| "perform_all h (e # es) pr con =
     (case wrapper_perform h e pr con of (pr1, con1) \<Rightarrow> perform_all h es pr1 con1)"

fun process_input ::
  "(string \<Rightarrow> nat) \<Rightarrow> ('v \<Rightarrow> u8 \<Rightarrow> vte_event list \<times> 'v) \<Rightarrow> bytes \<Rightarrow> 'v \<Rightarrow> pty_renderer \<Rightarrow> console
     \<Rightarrow> 'v \<times> pty_renderer \<times> console" where
  "process_input h advance [] v pr con = (v, pr, con)"
| "process_input h advance (b # bs) v pr con =
     (case advance v b of
        (es, v1) \<Rightarrow>
          (case perform_all h es pr con of
             (pr1, con1) \<Rightarrow> process_input h advance bs v1 pr1 con1))"

definition emulator_process_input ::
  "(string \<Rightarrow> nat) \<Rightarrow> ('v \<Rightarrow> u8 \<Rightarrow> vte_event list \<times> 'v) \<Rightarrow> bytes \<Rightarrow> 'v emulator \<Rightarrow> console
     \<Rightarrow> (unit, napi_error) result \<times> 'v emulator \<times> console" where
  "emulator_process_input h advance input em con =
     (case process_input h advance input (em_parser em) (em_renderer em) con of
        (v, pr, con1) \<Rightarrow> (Ok (), \<lparr>em_parser = v, em_renderer = pr\<rparr>, con1))"

text \<open>
  A handler of \<open>output_handler.rs\<close> on a renderer whose root is the empty one does what a \<open>PtyRenderer\<close>
  does, event by event.
\<close>

definition as_renderer :: "out_wrapper \<Rightarrow> pty_renderer" where
  "as_renderer ow = \<lparr>root_node = ow_root ow, prev_vdom = ow_prev ow\<rparr>"

lemma as_renderer_new: "as_renderer (out_new empty_root) = new_renderer"
  by (simp add: as_renderer_def out_new_def new_renderer_def)

lemma out_handle_output_eq:
  "pr_handle_output h data (as_renderer ow) con =
     (case out_handle_output h data ow con of (ow1, con1) \<Rightarrow> (as_renderer ow1, con1))"
  by (simp add: pr_handle_output_def out_handle_output_def as_renderer_def output_node_def Let_def split_def)

lemma out_perform_eq:
  "pr_perform h e (as_renderer ow) con = (case out_perform h e ow con of (ow1, con1) \<Rightarrow> (as_renderer ow1, con1))"
  by (cases e) (simp_all add: out_handle_output_eq)

fun out_perform_all :: "(string \<Rightarrow> nat) \<Rightarrow> vte_event list \<Rightarrow> out_wrapper \<Rightarrow> console \<Rightarrow> out_wrapper \<times> console" where
  "out_perform_all h [] ow con = (ow, con)"
| "out_perform_all h (e # es) ow con =
     (case out_perform h e ow con of (ow1, con1) \<Rightarrow> out_perform_all h es ow1 con1)"

lemma out_perform_all_eq:
  "perform_all h es (as_renderer ow) con =
     (case out_perform_all h es ow con of (ow1, con1) \<Rightarrow> (as_renderer ow1, con1))"
proof (induction es arbitrary: ow con)
  case (Cons e es)
  then show ?case
    using out_perform_eq [of h e ow con]
    by (simp add: wrapper_perform_eq split: prod.splits)
qed simp

section \<open>The tree follows the output\<close>

definition pr_inv :: "pty_renderer \<Rightarrow> bool" where
  "pr_inv pr \<longleftrightarrow> root_node pr = prev_vdom pr \<and>
     (prev_vdom pr = empty_root \<or> (\<exists>data. prev_vdom pr = output_node data))"

lemma pr_inv_new [simp]: "pr_inv new_renderer"
  by (simp add: pr_inv_def new_renderer_def)

lemma output_node_change:
  assumes "v = empty_root \<or> (\<exists>d. v = output_node d)"
  shows "root_change v (output_node data)"
  using assms
  by (auto simp: root_change_def empty_root_def output_node_def vnode_element_def)

lemma pr_render_calm:
  assumes "pr_inv pr" "calm con"
  shows "\<exists>t. pr_render h data pr con =
    (Ok (), \<lparr>root_node = output_node data, prev_vdom = output_node data\<rparr>, print_text t con)"
proof -
  have "root_change (prev_vdom pr) (output_node data)"
    using output_node_change assms(1) by (auto simp: pr_inv_def)
  from apply_diff_calm [OF assms(2) this, of h] assms(1) show ?thesis
    by (cases pr) (auto simp: pr_render_def pr_inv_def Let_def)
qed

lemma pr_handle_output_calm:
  assumes "pr_inv pr" "calm con"
  shows "\<exists>t. pr_handle_output h data pr con =
    (\<lparr>root_node = output_node data, prev_vdom = output_node data\<rparr>, print_text t con)"
proof -
  have "root_change (prev_vdom pr) (output_node data)"
    using output_node_change assms(1) by (auto simp: pr_inv_def)
  from apply_diff_calm [OF assms(2) this, of h] assms(1) show ?thesis
    by (cases pr) (auto simp: pr_handle_output_def pr_inv_def Let_def)
qed

lemma pr_inv_output: "pr_inv \<lparr>root_node = output_node data, prev_vdom = output_node data\<rparr>"
  by (auto simp: pr_inv_def)

section \<open>What the terminal shows\<close>

lemma entries_singleton: "entries_in h (fmupd k v fmempty) = [(k, v)]"
proof -
  have s: "set (keys_in h (fmupd k v fmempty)) = {k}" by simp
  have "distinct (keys_in h (fmupd k v fmempty))" by (rule distinct_keys_in)
  with s have "keys_in h (fmupd k v fmempty) = [k]"
    by (metis distinct_length_2_or_more insert_not_empty list.exhaust list.set(1) list.set_intros(1)
        list.set_intros(2) singletonD)
  then show ?thesis by (simp add: entries_in_def)
qed

text \<open>
  The first output after the start is printed as it is; every later one that differs is printed as
  the property it is, with a label and a line feed; one equal to the last is not printed.
\<close>

lemma pr_first_output:
  assumes "calm con"
  shows "pr_render h data new_renderer con =
    (Ok (), \<lparr>root_node = output_node data, prev_vdom = output_node data\<rparr>,
     print_text (from_utf8_lossy data @ esc ''[0m'') con)"
proof -
  have "diff empty_root (output_node data) = [Replace (output_node data)]"
    by (simp add: empty_root_def output_node_def vnode_element_def finish_diff_def)
  moreover have "node_text h (output_node data) = from_utf8_lossy data @ esc ''[0m''"
    by (simp add: output_node_def vnode_element_def apply_styles_def entries_in_def)
  ultimately show ?thesis
    using apply_replace_calm [OF assms, of h "output_node data" empty_root]
    by (simp add: pr_render_def new_renderer_def Let_def)
qed

lemma pr_later_output:
  assumes "calm con" "from_utf8_lossy d \<noteq> from_utf8_lossy data"
  shows "pr_render h data \<lparr>root_node = output_node d, prev_vdom = output_node d\<rparr> con =
    (Ok (), \<lparr>root_node = output_node data, prev_vdom = output_node data\<rparr>,
     print_text (''content: '' @ from_utf8_lossy data @ [CHR 0x0A]) con)"
proof -
  let ?p = "\<lambda>x. fmupd ''content'' (from_utf8_lossy x) fmempty"
  have dp: "diff_props (?p d) (?p data) = ?p data"
    using assms(2) by (intro fmap_ext) (simp add: diff_props_lookup)
  have ne: "?p d \<noteq> ?p data"
    using assms(2) by (metis fmupd_lookup option.inject)
  have "diff (output_node d) (output_node data) = [UpdateProps (?p data)]"
    using ne by (simp add: output_node_def vnode_element_def finish_diff_def props_patch_def Let_def dp
        diff_props_empty_iff)
  moreover have "?p d ++\<^sub>f ?p data = ?p data"
    by (intro fmap_ext) simp
  ultimately show ?thesis using assms(1)
    by (simp add: pr_render_def Let_def apply_patch_def update_props_def entries_singleton output_node_def
        vnode_element_def)
qed

lemma pr_same_output:
  assumes "from_utf8_lossy d = from_utf8_lossy data"
  shows "pr_render h data \<lparr>root_node = output_node d, prev_vdom = output_node d\<rparr> con =
    (Ok (), \<lparr>root_node = output_node d, prev_vdom = output_node d\<rparr>, con)"
  using assms by (simp add: pr_render_def output_node_def diff_same apply_patch_def Let_def)

section \<open>Characters beyond ASCII\<close>

text \<open>
  A printable character reaches the renderer as its low byte alone, so one whose low byte is
  128 or more shows as the replacement character.
\<close>

lemma perform_high:
  assumes "128 \<le> as_u8 c" "pr_inv pr" "calm con"
  shows "root_node (fst (pr_perform h (VPrint c) pr con)) =
    vnode_element ''text'' (fmupd ''content'' (bytes_string replacement) fmempty) fmempty []"
  using pr_handle_output_calm [OF assms(2,3), of h "[as_u8 c]"] from_utf8_lossy_single_high [OF assms(1)]
  by (auto simp: output_node_def)

lemma perform_all_last:
  assumes "pr_inv pr" "calm con"
  shows "\<exists>t. perform_all h (map VPrint (cs @ [c])) pr con =
    (\<lparr>root_node = output_node [as_u8 c], prev_vdom = output_node [as_u8 c]\<rparr>, print_text t con)"
  using assms
proof (induction cs arbitrary: pr con)
  case Nil
  then show ?case using pr_handle_output_calm [of pr con h "[as_u8 c]"] by auto
next
  case (Cons d cs)
  obtain t where t: "pr_handle_output h [as_u8 d] pr con =
      (\<lparr>root_node = output_node [as_u8 d], prev_vdom = output_node [as_u8 d]\<rparr>, print_text t con)"
    using pr_handle_output_calm [OF Cons.prems] by blast
  from Cons.IH [OF pr_inv_output [of "[as_u8 d]"], of "print_text t con"] Cons.prems(2) show ?case
    by (auto simp: t)
qed

section \<open>A sequence of outputs\<close>

fun render_outputs :: "(string \<Rightarrow> nat) \<Rightarrow> bytes list \<Rightarrow> pty_renderer \<Rightarrow> console
    \<Rightarrow> (unit, napi_error) result \<times> pty_renderer \<times> console" where
  "render_outputs h [] pr con = (Ok (), pr, con)"
| "render_outputs h (d # ds) pr con =
     (case pr_render h d pr con of
        (Err e, pr1, con1) \<Rightarrow> (Err e, pr1, con1)
      | (Ok _, pr1, con1) \<Rightarrow> render_outputs h ds pr1 con1)"

text \<open>What the terminal shows of the outputs after \<open>d\<close>.\<close>

fun later_text :: "bytes \<Rightarrow> bytes list \<Rightarrow> string" where
  "later_text d [] = []"
| "later_text d (e # es) =
     (if from_utf8_lossy e = from_utf8_lossy d then [] else ''content: '' @ from_utf8_lossy e @ [CHR 0x0A]) @
     later_text e es"

definition showing :: "bytes \<Rightarrow> pty_renderer" where
  "showing d = \<lparr>root_node = output_node d, prev_vdom = output_node d\<rparr>"

lemma showing_cong: "from_utf8_lossy d = from_utf8_lossy e \<Longrightarrow> showing d = showing e"
  by (simp add: showing_def output_node_def)

lemma render_outputs_later:
  "calm con \<Longrightarrow> render_outputs h ds (showing d) con =
     (Ok (), showing (last (d # ds)), print_text (later_text d ds) con)"
proof (induction ds arbitrary: d con)
  case (Cons e es)
  show ?case
  proof (cases "from_utf8_lossy e = from_utf8_lossy d")
    case True
    then have "pr_render h e (showing d) con = (Ok (), showing e, con)"
      using pr_same_output [of d e h con] showing_cong [of d e] by (simp add: showing_def)
    with Cons True show ?thesis by simp
  next
    case False
    then have "pr_render h e (showing d) con =
        (Ok (), showing e, print_text (''content: '' @ from_utf8_lossy e @ [CHR 0x0A]) con)"
      using pr_later_output [OF Cons.prems, of d e h] by (metis showing_def)
    with Cons False show ?thesis by simp
  qed
qed simp

lemma render_outputs_new:
  assumes "calm con"
  shows "render_outputs h (d # ds) new_renderer con =
    (Ok (), showing (last (d # ds)),
     print_text (from_utf8_lossy d @ esc ''[0m'' @ later_text d ds) con)"
  using pr_first_output [OF assms, of h d] render_outputs_later [of _ h ds d] assms
  by (simp add: showing_def [symmetric])

end
