(* ===== verification/Ascii_Parser.thy ===== *)
theory Ascii_Parser
  imports Pty_Prelude
begin

text \<open>
  \<open>src/utils/ascii_parser.rs\<close>: a parser of plain ASCII output that keeps the current line, the
  finished lines, the current word and the column, and hands every byte on to its output handler.
  The handler is the list of the byte strings it has been given; the bell callback is a counter.
\<close>

section \<open>The parser and its handlers\<close>

record ascii_parser =
  handled :: "bytes list"
  current_line :: string
  line_buffer :: "string list"
  word_buffer :: string
  column_position :: nat
  tab_width :: nat
  bell_callback :: bool
  bells :: nat

definition new_parser :: ascii_parser where
  "new_parser = \<lparr>handled = [], current_line = [], line_buffer = [], word_buffer = [],
     column_position = 0, tab_width = 8, bell_callback = False, bells = 0\<rparr>"

definition set_bell_callback :: "ascii_parser \<Rightarrow> ascii_parser" where
  "set_bell_callback p = p\<lparr>bell_callback := True\<rparr>"

definition set_tab_width :: "nat \<Rightarrow> ascii_parser \<Rightarrow> ascii_parser" where
  "set_tab_width w p = p\<lparr>tab_width := w\<rparr>"

definition handle_output :: "bytes \<Rightarrow> ascii_parser \<Rightarrow> ascii_parser" where
  "handle_output bs p = p\<lparr>handled := handled p @ [bs]\<rparr>"

definition flush_word_buffer :: "ascii_parser \<Rightarrow> ascii_parser" where
  "flush_word_buffer p = (if word_buffer p \<noteq> [] then p\<lparr>word_buffer := []\<rparr> else p)"

definition flush_current_line :: "ascii_parser \<Rightarrow> ascii_parser" where
  "flush_current_line p =
     (if current_line p \<noteq> []
      then p\<lparr>line_buffer := line_buffer p @ [current_line p], current_line := [], word_buffer := []\<rparr>
      else p)"

definition handle_bell :: "ascii_parser \<Rightarrow> ascii_parser" where
  "handle_bell p =
     handle_output [0x07] (if bell_callback p then p\<lparr>bells := bells p + 1\<rparr> else p)"

definition handle_backspace :: "ascii_parser \<Rightarrow> ascii_parser" where
  "handle_backspace p =
     handle_output [0x08]
       (if 0 < column_position p
        then p\<lparr>column_position := column_position p - 1,
               current_line := (if current_line p \<noteq> [] then butlast (current_line p) else current_line p)\<rparr>
        else p)"

text \<open>The remainder by a tab width of zero panics: no result.\<close>

definition handle_tab :: "ascii_parser \<Rightarrow> ascii_parser option" where
  "handle_tab p =
     (if tab_width p = 0 then None
      else let spaces_to_add = tab_width p - column_position p mod tab_width p
           in Some (handle_output [0x09]
                (p\<lparr>current_line := current_line p @ replicate spaces_to_add CHR '' '',
                   column_position := column_position p + spaces_to_add\<rparr>)))"

definition handle_linefeed :: "ascii_parser \<Rightarrow> ascii_parser" where
  "handle_linefeed p = handle_output [0x0A] ((flush_current_line p)\<lparr>column_position := 0\<rparr>)"

definition handle_vertical_tab :: "ascii_parser \<Rightarrow> ascii_parser" where
  "handle_vertical_tab p = handle_linefeed p"

definition handle_form_feed :: "ascii_parser \<Rightarrow> ascii_parser" where
  "handle_form_feed p =
     handle_output [0x0C] ((flush_current_line p)\<lparr>line_buffer := [], column_position := 0\<rparr>)"

definition handle_carriage_return :: "ascii_parser \<Rightarrow> ascii_parser" where
  "handle_carriage_return p = handle_output [0x0D] (p\<lparr>column_position := 0\<rparr>)"

definition handle_substitute :: "ascii_parser \<Rightarrow> ascii_parser" where
  "handle_substitute p =
     handle_output [0x1A]
       (p\<lparr>current_line := current_line p @ ''^Z'', column_position := column_position p + 2\<rparr>)"

definition handle_escape :: "ascii_parser \<Rightarrow> ascii_parser" where
  "handle_escape p = handle_output [0x1B] p"

definition handle_delete :: "ascii_parser \<Rightarrow> ascii_parser" where
  "handle_delete p =
     handle_output [0x7F]
       (if current_line p \<noteq> []
        then p\<lparr>current_line := butlast (current_line p), column_position := column_position p - 1\<rparr>
        else p)"

text \<open>The only printable ASCII character that is white space is the space.\<close>

definition handle_printable :: "u8 \<Rightarrow> ascii_parser \<Rightarrow> ascii_parser" where
  "handle_printable byte p =
     (let c = byte_char byte;
          p1 = p\<lparr>current_line := current_line p @ [c], column_position := column_position p + 1\<rparr>;
          p2 = (if c = CHR '' '' then flush_word_buffer p1
                else p1\<lparr>word_buffer := word_buffer p1 @ [c]\<rparr>)
      in handle_output [byte] p2)"

definition handle_invalid_byte :: "u8 \<Rightarrow> ascii_parser \<Rightarrow> ascii_parser" where
  "handle_invalid_byte byte p =
     handle_output [byte]
       (p\<lparr>current_line := current_line p @ ''?'', column_position := column_position p + 1\<rparr>)"

definition process_byte :: "u8 \<Rightarrow> ascii_parser \<Rightarrow> ascii_parser option" where
  "process_byte byte p =
     (if byte = 0x07 then Some (handle_bell p)
      else if byte = 0x08 then Some (handle_backspace p)
      else if byte = 0x09 then handle_tab p
      else if byte = 0x0A then Some (handle_linefeed p)
      else if byte = 0x0B then Some (handle_vertical_tab p)
      else if byte = 0x0C then Some (handle_form_feed p)
      else if byte = 0x0D then Some (handle_carriage_return p)
      else if byte = 0x1A then Some (handle_substitute p)
      else if byte = 0x1B then Some (handle_escape p)
      else if byte = 0x7F then Some (handle_delete p)
      else if 0x20 \<le> byte \<and> byte \<le> 0x7E then Some (handle_printable byte p)
      else Some (handle_invalid_byte byte p))"

fun process_bytes :: "bytes \<Rightarrow> ascii_parser \<Rightarrow> ascii_parser option" where
  "process_bytes [] p = Some p"
| "process_bytes (b # bs) p =
     (case process_byte b p of None \<Rightarrow> None | Some p1 \<Rightarrow> process_bytes bs p1)"

definition clear :: "ascii_parser \<Rightarrow> ascii_parser" where
  "clear p = p\<lparr>line_buffer := [], current_line := [], word_buffer := [], column_position := 0\<rparr>"

lemmas [ascii_defs] =
  handle_output_def flush_word_buffer_def flush_current_line_def handle_bell_def
  handle_backspace_def handle_tab_def handle_linefeed_def handle_vertical_tab_def
  handle_form_feed_def handle_carriage_return_def handle_substitute_def handle_escape_def
  handle_delete_def handle_printable_def handle_invalid_byte_def

section \<open>Invariants\<close>

text \<open>
  The column never exceeds the length of the current line, no finished line is empty, and the
  tab width is not zero, so that no byte panics.
\<close>

definition ascii_inv :: "ascii_parser \<Rightarrow> bool" where
  "ascii_inv p \<longleftrightarrow> column_position p \<le> length (current_line p) \<and> [] \<notin> set (line_buffer p) \<and> 0 < tab_width p"

lemma ascii_inv_new [simp]: "ascii_inv new_parser"
  by (simp add: ascii_inv_def new_parser_def)

lemma process_byte_inv:
  assumes "ascii_inv p"
  shows "\<exists>p'. process_byte b p = Some p' \<and> ascii_inv p' \<and> tab_width p' = tab_width p"
  using assms by (auto simp: process_byte_def ascii_inv_def ascii_defs Let_def)

lemma process_byte_total_iff: "process_byte b p = None \<longleftrightarrow> b = 0x09 \<and> tab_width p = 0"
  by (auto simp: process_byte_def handle_tab_def Let_def)

text \<open>Every byte is handed on, in order, unchanged but for a vertical tab, which becomes a line feed.\<close>

definition passed_on :: "u8 \<Rightarrow> u8" where
  "passed_on b = (if b = 0x0B then 0x0A else b)"

lemma process_byte_output: "process_byte b p = Some p' \<Longrightarrow> handled p' = handled p @ [[passed_on b]]"
  by (auto simp: process_byte_def passed_on_def ascii_defs Let_def split: if_splits)

lemma process_bytes_props:
  assumes "ascii_inv p"
  shows "\<exists>p'. process_bytes bs p = Some p' \<and> ascii_inv p' \<and> handled p' = handled p @ map (\<lambda>b. [passed_on b]) bs"
  using assms
proof (induction bs arbitrary: p)
  case (Cons b bs)
  from process_byte_inv [OF Cons.prems] obtain p1 where
    p1: "process_byte b p = Some p1" "ascii_inv p1" by blast
  with Cons.IH [OF p1(2)] process_byte_output [OF p1(1)] show ?case by auto
qed simp

text \<open>Without a carriage return the column is the length of the current line.\<close>

lemma process_byte_column:
  assumes "b \<noteq> 0x0D" "column_position p = length (current_line p)" "process_byte b p = Some p'"
  shows "column_position p' = length (current_line p')"
  using assms by (auto simp: process_byte_def ascii_defs Let_def split: if_splits)

lemma process_bytes_column:
  assumes "0x0D \<notin> set bs" "column_position p = length (current_line p)" "process_bytes bs p = Some p'"
  shows "column_position p' = length (current_line p')"
  using assms
proof (induction bs arbitrary: p)
  case (Cons b bs)
  then obtain p1 where p1: "process_byte b p = Some p1" "process_bytes bs p1 = Some p'"
    by (auto split: option.splits)
  have "column_position p1 = length (current_line p1)"
    using process_byte_column [OF _ Cons.prems(2) p1(1)] Cons.prems(1) by auto
  then show ?case using Cons.IH [OF _ _ p1(2)] Cons.prems(1) by auto
qed simp

section \<open>Printable text\<close>

definition printable :: "u8 \<Rightarrow> bool" where
  "printable b \<longleftrightarrow> 0x20 \<le> b \<and> b \<le> 0x7E"

lemma process_byte_printable:
  assumes "printable b"
  shows "process_byte b p = Some (handle_printable b p)"
proof -
  have "0x20 \<le> b" "b \<le> 0x7E" using assms by (simp_all add: printable_def)
  then show ?thesis by (auto simp: process_byte_def)
qed

lemma process_bytes_append:
  "process_bytes (bs @ cs) p =
     (case process_bytes bs p of None \<Rightarrow> None | Some p1 \<Rightarrow> process_bytes cs p1)"
  by (induction bs arbitrary: p) (auto split: option.splits)

text \<open>A line of printable text with its line feed is one finished line.\<close>

lemma process_printables:
  assumes "list_all printable bs"
  shows "\<exists>p'. process_bytes bs p = Some p' \<and> current_line p' = current_line p @ bytes_string bs \<and>
    line_buffer p' = line_buffer p \<and> column_position p' = column_position p + length bs"
  using assms
proof (induction bs arbitrary: p)
  case Nil
  then show ?case by (simp add: bytes_string_def)
next
  case (Cons b bs)
  define p1 where "p1 = handle_printable b p"
  have p1: "process_byte b p = Some p1" "current_line p1 = current_line p @ [byte_char b]"
    "line_buffer p1 = line_buffer p" "column_position p1 = column_position p + 1"
    using Cons.prems process_byte_printable
    by (simp_all add: p1_def handle_printable_def handle_output_def flush_word_buffer_def Let_def)
  with Cons.IH [of p1] Cons.prems show ?case by (auto simp: bytes_string_def)
qed

lemma process_line:
  assumes "list_all printable bs" "bs \<noteq> []" "current_line p = []"
  shows "\<exists>p'. process_bytes (bs @ [0x0A]) p = Some p' \<and> line_buffer p' = line_buffer p @ [bytes_string bs] \<and>
    current_line p' = [] \<and> word_buffer p' = [] \<and> column_position p' = 0"
proof -
  from process_printables [OF assms(1), of p] obtain p1 where p1:
    "process_bytes bs p = Some p1" "current_line p1 = bytes_string bs" "line_buffer p1 = line_buffer p"
    using assms(3) by auto
  have "bytes_string bs \<noteq> []" using assms(2) by (simp add: bytes_string_def)
  then show ?thesis
    by (simp add: process_bytes_append p1 process_byte_def handle_linefeed_def handle_output_def
        flush_current_line_def)
qed

lemma process_lines:
  assumes "\<forall>l \<in> set ls. list_all printable l \<and> l \<noteq> []" "current_line p = []"
  shows "\<exists>p'. process_bytes (concat (map (\<lambda>l. l @ [0x0A]) ls)) p = Some p' \<and>
    line_buffer p' = line_buffer p @ map bytes_string ls \<and> current_line p' = [] \<and>
    (ls \<noteq> [] \<longrightarrow> column_position p' = 0)"
  using assms
proof (induction ls arbitrary: p)
  case Nil
  then show ?case by simp
next
  case (Cons l ls)
  from process_line [of l p] Cons.prems obtain p1 where p1:
    "process_bytes (l @ [0x0A]) p = Some p1" "line_buffer p1 = line_buffer p @ [bytes_string l]"
    "current_line p1 = []" "column_position p1 = 0" by auto
  from Cons.IH [OF _ p1(3)] Cons.prems(1) obtain p' where p':
    "process_bytes (concat (map (\<lambda>l. l @ [0x0A]) ls)) p1 = Some p'"
    "line_buffer p' = line_buffer p1 @ map bytes_string ls" "current_line p' = []"
    "ls \<noteq> [] \<longrightarrow> column_position p' = 0" by auto
  have "process_bytes (concat (map (\<lambda>l. l @ [0x0A]) (l # ls))) p = Some p'"
    using process_bytes_append [of "l @ [0x0A]" "concat (map (\<lambda>l. l @ [0x0A]) ls)" p] p1(1) p'(1)
    by simp
  then show ?case using p' p1 by (cases ls) auto
qed

lemma process_bytes_None_iff: "process_bytes bs p = None \<longleftrightarrow> 0x09 \<in> set bs \<and> tab_width p = 0"
proof (induction bs arbitrary: p)
  case (Cons b bs)
  show ?case
  proof (cases "process_byte b p")
    case None
    then show ?thesis using process_byte_total_iff [of b p] by simp
  next
    case (Some p1)
    have "tab_width p1 = tab_width p"
      using Some by (auto simp: process_byte_def ascii_defs Let_def split: if_splits)
    moreover have "\<not> (b = 0x09 \<and> tab_width p = 0)" using Some process_byte_total_iff [of b p] by auto
    ultimately show ?thesis using Some Cons by auto
  qed
qed simp

end
