(* ===== verification/Terminal_Properties.thy ===== *)
theory Terminal_Properties
  imports Pty_Renderer Ascii_Parser
begin

text \<open>
  The properties of the virtual DOM, its renderer and the parsers of terminal bytes, with their
  applications.
\<close>

definition blank :: console where
  "blank = \<lparr>shown = [], flush_results = []\<rparr>"

lemma calm_blank: "calm blank"
  by (simp add: calm_def blank_def)

section \<open>Diffs\<close>

text \<open>When a diff is empty. The patches between two trees are never none at all; the patch None
  is among them exactly when the trees are equal, and then it is the only one.\<close>

theorem diff_none_iff:
  "diff old new \<noteq> [] \<and> (NoPatch \<in> set (diff old new) \<longleftrightarrow> old = new) \<and> (diff old new = [NoPatch] \<longleftrightarrow> old = new)"
  using diff_change(1) [of old new] diff_same [of old] diff_NoPatch_iff [of old new] by (cases "old = new") auto

text \<open>The properties after an update. Updating the old properties with their difference to the new
  gives every new property its new value; a property that was removed is not removed but empty.\<close>

theorem updated_props:
  "fmlookup (old ++\<^sub>f diff_props old new) k =
     (case fmlookup new k of
        Some v \<Rightarrow> Some v
      | None \<Rightarrow> (if fmlookup old k = None then None else Some []))"
  by (auto simp: diff_props_lookup split: option.splits if_splits intro: fmdomI)

section \<open>The renderer\<close>

text \<open>C19: the changes the patches carry out. When the root gets another kind or tag, or keeps its
  styles, loses no property, and only gains or only loses children at the end, applying the diff to
  the old tree gives the new tree, and the terminal is only added to.\<close>

theorem patches_correct:
  assumes "calm con" "root_change old new"
  shows "\<exists>t. apply_patches h (diff old new) old con = (Ok (), new, print_text t con)"
  by (rule apply_diff_calm [OF assms])

theorem patches_correct_witness:
  "\<exists>t. apply_patches length
      (diff (vnode_element ''box'' fmempty fmempty [Text ''a'', Text ''b''])
            (vnode_element ''box'' (fmupd ''id'' ''x'' fmempty) fmempty [Text ''a'']))
      (vnode_element ''box'' fmempty fmempty [Text ''a'', Text ''b'']) blank =
    (Ok (), vnode_element ''box'' (fmupd ''id'' ''x'' fmempty) fmempty [Text ''a''], print_text t blank)"
  by (rule patches_correct [OF calm_blank]) (simp add: root_change_def vnode_element_def)

text \<open>A text at the root cannot be updated. Rendering another text in its place clears the
  terminal and prints the text, then fails, and the tree stays as it was.\<close>

theorem root_text_refused:
  assumes "calm con" "a \<noteq> b"
  shows "render h (Text b) (Text a) con =
    (Err (from_reason ''Cannot update text on a text node''), Text a,
     print_text (esc ''[2J'' @ esc ''[1;1H'' @ b) con)"
  using apply_text_change [OF assms, of h] by (simp add: render_def)

theorem root_text_refused_witness:
  "fst (render length (Text ''b'') (Text ''a'') blank) = Err (from_reason ''Cannot update text on a text node'')"
  using root_text_refused [OF calm_blank, of "''a''" "''b''" length] by simp

text \<open>A nested text is updated at the wrong node. A changed text that is the first child of the
  root is printed on a cleared terminal, and the patches leave the child as it was and make the text
  the content property of the root.\<close>

theorem nested_text_misplaced:
  assumes "calm con" "a \<noteq> b"
  shows "apply_patches h (diff (vnode_element t p s (Text a # cs)) (vnode_element t p s (Text b # cs)))
      (vnode_element t p s (Text a # cs)) con =
    (Ok (), vnode_element t (fmupd ''content'' b p) s (Text a # cs),
     print_text (esc ''[2J'' @ esc ''[1;1H'' @ b) con)"
  using apply_nested_text_change [OF assms] unfolding vnode_element_def by blast

theorem nested_text_misplaced_witness:
  "fst (snd (apply_patches length
      (diff (vnode_element ''box'' fmempty fmempty [Text ''a'']) (vnode_element ''box'' fmempty fmempty [Text ''b'']))
      (vnode_element ''box'' fmempty fmempty [Text ''a'']) blank)) =
    vnode_element ''box'' (fmupd ''content'' ''b'' fmempty) fmempty [Text ''a'']"
  using nested_text_misplaced [OF calm_blank, of "''a''" "''b''" length "''box''" fmempty fmempty "[]"] by simp

text \<open>C36: what the terminal shows of a sequence of outputs. The first is printed as it is, with a reset
  of the styles; each later one that differs from the one before is printed as the property it
  is, with a label and a line feed, and one that does not differ is not printed. The tree is the last
  output.\<close>

theorem outputs_shown:
  assumes "calm con"
  shows "render_outputs h (d # ds) new_renderer con =
    (Ok (), \<lparr>root_node = output_node (last (d # ds)), prev_vdom = output_node (last (d # ds))\<rparr>,
     print_text (from_utf8_lossy d @ esc ''[0m'' @ later_text d ds) con)"
  using render_outputs_new [OF assms, of h d ds] unfolding showing_def .

theorem outputs_shown_witness:
  "shown (snd (snd (render_outputs length [as_bytes ''a'', as_bytes ''b''] new_renderer blank))) =
     ''a'' @ esc ''[0m'' @ ''content: b'' @ [CHR 0x0A]"
proof -
  have "from_utf8_lossy (as_bytes ''a'') = ''a''" "from_utf8_lossy (as_bytes ''b'') = ''b''" by code_simp+
  then show ?thesis
    using outputs_shown [OF calm_blank, of length "as_bytes ''a''" "[as_bytes ''b'']"]
    by (simp add: print_text_def blank_def)
qed

text \<open>The characters the emulator shows. Each printable character replaces the whole tree by the
  low byte of the last one, read as UTF-8: a character whose low byte is 128 or more becomes the
  replacement character.\<close>

theorem printed_characters:
  assumes "pr_inv pr" "calm con"
  shows "\<exists>t. perform_all h (map VPrint (cs @ [c])) pr con =
      (\<lparr>root_node = output_node [as_u8 c], prev_vdom = output_node [as_u8 c]\<rparr>, print_text t con) \<and>
    from_utf8_lossy [as_u8 c] =
      (if as_u8 c < 128 then [byte_char (as_u8 c)] else bytes_string [0xEF, 0xBF, 0xBD])"
proof -
  have "from_utf8_lossy [b] = [byte_char b]" if "b < 128" for b
    using lossy_ascii_Cons [OF that, of "[]"] by (simp add: from_utf8_lossy_def bytes_string_def)
  moreover have "from_utf8_lossy [b] = bytes_string [0xEF, 0xBF, 0xBD]" if "\<not> b < 128" for b
    using from_utf8_lossy_single_high [of b] that by (simp add: replacement_def)
  ultimately show ?thesis using perform_all_last [OF assms, of h cs c] by simp
qed

theorem printed_characters_witness:
  "\<exists>t. perform_all length (map VPrint ([104] @ [233])) new_renderer blank =
      (\<lparr>root_node = output_node [233], prev_vdom = output_node [233]\<rparr>, print_text t blank) \<and>
    from_utf8_lossy [233] = bytes_string [0xEF, 0xBF, 0xBD]"
proof -
  have u: "as_u8 233 = 233" by (simp add: as_u8_def)
  show ?thesis using printed_characters [OF pr_inv_new calm_blank, of length "[104]" 233] unfolding u by simp
qed

section \<open>The parser of ASCII output\<close>

text \<open>The ASCII parser on any input. It panics exactly on a tab when its tab width is zero; otherwise
  it hands on every byte in order, a vertical tab as a line feed, keeps the column within the current
  line, and stores no empty line.\<close>

theorem ascii_parser_total:
  assumes "column_position p \<le> length (current_line p)" "[] \<notin> set (line_buffer p)"
  shows "(process_bytes bs p = None \<longleftrightarrow> 0x09 \<in> set bs \<and> tab_width p = 0) \<and>
    (0 < tab_width p \<longrightarrow> (\<exists>p'. process_bytes bs p = Some p' \<and>
       handled p' = handled p @ map (\<lambda>b. [if b = 0x0B then 0x0A else b]) bs \<and>
       column_position p' \<le> length (current_line p') \<and> [] \<notin> set (line_buffer p')))"
  using process_bytes_None_iff [of bs p] process_bytes_props [of p bs] assms
  by (auto simp: ascii_inv_def passed_on_def)

theorem ascii_parser_total_witness:
  "\<exists>p'. process_bytes [0x41, 0x0B, 0x09] new_parser = Some p' \<and> handled p' = [[0x41], [0x0A], [0x09]]"
  using ascii_parser_total [of new_parser "[0x41, 0x0B, 0x09]"] by (auto simp: new_parser_def)

text \<open>Lines of text. Lines of printable characters, none empty, each with its line feed, are
  stored as they are and in order, and the current line is empty again.\<close>

theorem ascii_parser_lines:
  assumes "\<forall>l \<in> set ls. l \<noteq> [] \<and> (\<forall>b \<in> set l. 0x20 \<le> b \<and> b \<le> 0x7E)" "current_line p = []"
  shows "\<exists>p'. process_bytes (concat (map (\<lambda>l. l @ [0x0A]) ls)) p = Some p' \<and>
    line_buffer p' = line_buffer p @ map bytes_string ls \<and> current_line p' = []"
proof -
  have "\<forall>l \<in> set ls. list_all printable l \<and> l \<noteq> []"
    using assms(1) by (auto simp: list_all_iff printable_def)
  from process_lines [OF this assms(2)] show ?thesis by blast
qed

theorem ascii_parser_lines_witness:
  "\<exists>p'. process_bytes [0x6C, 0x73, 0x0A, 0x78, 0x0A] new_parser = Some p' \<and>
     line_buffer p' = [''ls'', ''x'']"
proof -
  have b: "bytes_string [0x6C, 0x73] = ''ls''" "bytes_string [0x78] = ''x''" by code_simp+
  show ?thesis
    using ascii_parser_lines [of "[[0x6C, 0x73], [0x78]]" new_parser] unfolding list.map b
    by (auto simp: new_parser_def)
qed

text \<open>Control keys. A character key with Control is sent as one byte, the character's number modulo
  32, by every version of the conversion, so that characters with the same low five bits send the
  same byte.\<close>

theorem control_key_byte:
  "\<exists>b. key_event_to_bytes \<lparr>k_code = KChar c, k_ctrl = True, k_alt = alt\<rparr> = [b] \<and>
     ansi_key_event_to_bytes \<lparr>k_code = KChar c, k_ctrl = True, k_alt = alt\<rparr> = [b] \<and>
     unat b = unat c mod 32"
proof -
  have "and (as_u8 c) 0x1F = take_bit 5 (as_u8 c)"
    by (simp add: take_bit_eq_mask mask_eq_exp_minus_1)
  then have "unat (and (as_u8 c) 0x1F) = take_bit 5 (unat (as_u8 c))"
    by (simp only: unsigned_take_bit_eq)
  also have "\<dots> = unat c mod 32"
    by (simp add: as_u8_def unsigned_ucast_eq take_bit_eq_mod mod_mod_cancel)
  finally have "unat (and (as_u8 c) 0x1F) = unat c mod 32" .
  then show ?thesis by (simp add: key_event_to_bytes_def ansi_key_event_to_bytes_def)
qed

end
