(* ===== verification/Worker.thy ===== *)
theory Worker
  imports Decimal
begin

text \<open>
  \<open>src/worker/pty_worker.rs\<close>: a worker forwards bytes between one connection (\<open>conout\<close>) and the
  sockets that connect to it, with two threads for each. The threads are state machines that
  interleave at every point where one waits: for a mutex, for the operating system, or between two
  statements another thread can observe. A critical section in which nothing waits is one step.

  The mutexes that can be held while their owner waits are those of the session table and of each
  worker socket. The mutexes of the JavaScript function, of the stored \<open>conout\<close> socket and of the
  data buffers never are, so that the sections they guard are single steps. The results of the
  operating system are inputs of the steps. The JavaScript function is stored before the threads
  start and never removed; its calls only queue a message.
\<close>

section \<open>State\<close>

datatype worker_message = MReady | MError string | MData u32 bytes

text \<open>
  A worker socket is the number of its connection: \<open>Arc<Mutex<TcpStream>>\<close>, of which the session
  and its two threads hold clones.
\<close>

record worker_session =
  ws_socket :: nat
  ws_data :: bytes

datatype mutex = LSessions | LSocket nat
datatype thread = TReader nat | TWriter nat | TMain

text \<open>
  Where the threads are. The two threads of a connection run through the stages below, the bytes
  in hand included; \<open>MSockets cs\<close> is \<open>shutdown_worker\<close> with the sockets it has still to close.
\<close>

datatype reader_pc = RStart bool | RCheck | RRead | RWrite bytes | RWriting bytes | RFailed
  | RReport bytes | RStop | RRemove | RDone

datatype writer_pc = WStart bool | WCheck | WLock | WReading | WSend bytes | WStore bytes
  | WReport bytes | WRemove | WDone

datatype main_pc = MIdle | MConout | MSessions | MSockets "nat list" | MNotify

datatype accept_pc = AIdle | AInsert u32 | ASpawn u32 nat | AEnded

datatype socket = Conout | Peer nat
text \<open>
  What was written to a socket, with the connection. \<open>PartToConout\<close> is the part a \<open>write_all\<close> had
  written when it failed: \<open>conout\<close> does not block, so that a full buffer fails the rest of a write.
\<close>

datatype forward = ToPeer nat bytes | ToConout nat bytes | PartToConout nat bytes

record worker =
  w_sessions :: "(u32, worker_session) fmap"
  w_conout :: bool
  w_shutdown :: bool
  w_counter :: u32
  w_conns :: nat
  w_locks :: "mutex \<Rightarrow> thread option"
  w_readers :: "nat \<Rightarrow> (u32 \<times> reader_pc) option"
  w_writers :: "nat \<Rightarrow> (u32 \<times> writer_pc) option"
  w_main :: main_pc
  w_accept :: accept_pc
  w_messages :: "worker_message list"
  w_forwarded :: "forward list"
  w_shut :: "socket list"

definition tell :: "worker_message \<Rightarrow> worker \<Rightarrow> worker" where
  "tell m st = st\<lparr>w_messages := w_messages st @ [m]\<rparr>"

definition shut :: "socket \<Rightarrow> worker \<Rightarrow> worker" where
  "shut so st = st\<lparr>w_shut := w_shut st @ [so]\<rparr>"

definition acquire :: "mutex \<Rightarrow> thread \<Rightarrow> worker \<Rightarrow> worker" where
  "acquire l t st = st\<lparr>w_locks := (w_locks st)(l := Some t)\<rparr>"

definition release :: "mutex \<Rightarrow> worker \<Rightarrow> worker" where
  "release l st = st\<lparr>w_locks := (w_locks st)(l := None)\<rparr>"

definition free :: "mutex \<Rightarrow> worker \<Rightarrow> bool" where
  "free l st \<longleftrightarrow> w_locks st l = None"

definition reader_at :: "nat \<Rightarrow> u32 \<Rightarrow> reader_pc \<Rightarrow> worker \<Rightarrow> worker" where
  "reader_at c k pc st = st\<lparr>w_readers := (w_readers st)(c \<mapsto> (k, pc))\<rparr>"

definition writer_at :: "nat \<Rightarrow> u32 \<Rightarrow> writer_pc \<Rightarrow> worker \<Rightarrow> worker" where
  "writer_at c k pc st = st\<lparr>w_writers := (w_writers st)(c \<mapsto> (k, pc))\<rparr>"

definition main_at :: "main_pc \<Rightarrow> worker \<Rightarrow> worker" where
  "main_at pc st = st\<lparr>w_main := pc\<rparr>"

definition accept_at :: "accept_pc \<Rightarrow> worker \<Rightarrow> worker" where
  "accept_at pc st = st\<lparr>w_accept := pc\<rparr>"

definition forget_session :: "u32 \<Rightarrow> worker \<Rightarrow> worker" where
  "forget_session k st = st\<lparr>w_sessions := fmdrop k (w_sessions st)\<rparr>"

section \<open>Starting\<close>

definition new_worker :: worker where
  "new_worker =
     \<lparr>w_sessions = fmempty, w_conout = False, w_shutdown = False, w_counter = 1, w_conns = 0,
      w_locks = (\<lambda>_. None), w_readers = (\<lambda>_. None), w_writers = (\<lambda>_. None), w_main = MIdle,
      w_accept = AEnded, w_messages = [], w_forwarded = [], w_shut = []\<rparr>"

text \<open>
  The thread that \<open>start_worker\<close> spawns, up to its loop: it connects, makes the socket
  non-blocking, stores it, binds the listener and reports. The inputs are the results of the three
  calls, with the \<open>Display\<close> of their errors; the duplication of the socket for the state is taken to
  succeed.
\<close>

definition start_worker ::
  "(unit, string) result \<Rightarrow> (unit, string) result \<Rightarrow> (unit, string) result \<Rightarrow> worker \<Rightarrow> worker" where
  "start_worker connect nonblocking bind st =
     (case connect of
        Err e \<Rightarrow> tell (MError (''Failed to connect to conout pipe: '' @ e)) st
      | Ok _ \<Rightarrow>
          (case nonblocking of
             Err e \<Rightarrow> tell (MError (''Failed to set conout_socket to non-blocking: '' @ e)) st
           | Ok _ \<Rightarrow>
               (let st1 = st\<lparr>w_conout := True\<rparr>
                in case bind of
                     Err e \<Rightarrow> tell (MError (''Failed to bind worker pipe: '' @ e)) st1
                   | Ok _ \<Rightarrow> accept_at AIdle (tell MReady st1))))"

section \<open>The accept loop\<close>

text \<open>
  \<open>Incoming None\<close> is a connection, \<open>Incoming (Some e)\<close> a failed accept. \<open>Cloned\<close> says whether the
  \<open>conout\<close> socket, if there is one, could be cloned for each of the two threads. \<open>WriteError n e\<close> is a
  \<open>write_all\<close> that fails after \<open>n\<close> bytes.
\<close>

datatype input = Go | Incoming "string option" | Cloned bool bool | Got bytes | NoData | ReadError string
  | WriteOk | WriteError nat string

fun accept_step :: "input \<Rightarrow> worker \<Rightarrow> worker option" where
  "accept_step inp st =
     (case w_accept st of
        AIdle \<Rightarrow>
          (case inp of
             Incoming r \<Rightarrow>
               (if w_shutdown st then Some (accept_at AEnded st)
                else case r of
                  None \<Rightarrow> Some (accept_at (AInsert (w_counter st)) (st\<lparr>w_counter := w_counter st + 1\<rparr>))
                | Some e \<Rightarrow> Some (tell (MError (''Worker socket connection failed: '' @ e)) st))
           | _ \<Rightarrow> None)
      | AInsert k \<Rightarrow>
          (if free LSessions st
           then Some (accept_at (ASpawn k (w_conns st))
                  (st\<lparr>w_conns := w_conns st + 1,
                     w_sessions := fmupd k \<lparr>ws_socket = w_conns st, ws_data = []\<rparr> (w_sessions st)\<rparr>))
           else None)
      | ASpawn k c \<Rightarrow>
          (case inp of
             Cloned for_read for_write \<Rightarrow>
               Some (accept_at AIdle (reader_at c k (RStart (w_conout st \<and> for_read))
                 (writer_at c k (WStart (w_conout st \<and> for_write)) st)))
           | _ \<Rightarrow> None)
      | AEnded \<Rightarrow> None)"

section \<open>The two threads of a connection\<close>

text \<open>From \<open>conout\<close> to the worker socket.\<close>

definition reader_step :: "nat \<Rightarrow> input \<Rightarrow> worker \<Rightarrow> worker option" where
  "reader_step c inp st =
     (case w_readers st c of
        None \<Rightarrow> None
      | Some (k, pc) \<Rightarrow>
          (let goto = reader_at c k in
           case pc of
             RStart available \<Rightarrow>
               (if available then Some (goto RCheck st)
                else Some (goto RDone
                       (tell (MError (''Conout socket is not available for session '' @ show_u32 k)) st)))
           | RCheck \<Rightarrow> Some (goto (if w_shutdown st then RStop else RRead) st)
           | RRead \<Rightarrow>
               (case inp of
                  Got bs \<Rightarrow> Some (goto (if bs = [] then RStop else RWrite bs) st)
                | NoData \<Rightarrow> Some (goto RCheck st)
                | ReadError e \<Rightarrow>
                    Some (goto RStop
                      (tell (MError (''Error reading from conout socket for session '' @ show_u32 k @ '': '' @ e)) st))
                | _ \<Rightarrow> None)
           | RWrite bs \<Rightarrow>
               (if free (LSocket c) st then Some (goto (RWriting bs) (acquire (LSocket c) (TReader c) st))
                else None)
           | RWriting bs \<Rightarrow>
               (case inp of
                  WriteOk \<Rightarrow>
                    Some (goto (RReport bs) (release (LSocket c)
                      (st\<lparr>w_forwarded := w_forwarded st @ [ToPeer c bs]\<rparr>)))
                | WriteError n e \<Rightarrow>
                    (if n < length bs then
                       Some (goto RFailed
                         (tell (MError (''Failed to write to worker socket for session '' @ show_u32 k @ '': '' @ e))
                           (st\<lparr>w_forwarded := w_forwarded st @ [ToPeer c (take n bs)]\<rparr>)))
                     else None)
                | _ \<Rightarrow> None)
           | RFailed \<Rightarrow>
               (if free (LSocket c) st then Some (goto RRemove (shut (Peer c) st)) else None)
           | RReport bs \<Rightarrow> Some (goto RCheck (tell (MData k bs) st))
           | RStop \<Rightarrow>
               (if free (LSocket c) st then Some (goto RRemove (shut (Peer c) st)) else None)
           | RRemove \<Rightarrow>
               (if free LSessions st then Some (goto RDone (forget_session k st)) else None)
           | RDone \<Rightarrow> None))"

text \<open>
  From the worker socket to \<open>conout\<close>. The socket's mutex is locked in the expression that is
  matched on, so that it is held until the end of the match: while the read waits, while the bytes
  are passed on and stored, and while the thread sleeps.
\<close>

definition writer_step :: "nat \<Rightarrow> input \<Rightarrow> worker \<Rightarrow> worker option" where
  "writer_step c inp st =
     (case w_writers st c of
        None \<Rightarrow> None
      | Some (k, pc) \<Rightarrow>
          (let goto = writer_at c k in
           case pc of
             WStart available \<Rightarrow>
               (if available then Some (goto WCheck st)
                else Some (goto WDone
                       (tell (MError (''Conout socket is not available for writing for session '' @ show_u32 k)) st)))
           | WCheck \<Rightarrow>
               (if w_shutdown st then Some (goto WRemove (shut Conout st)) else Some (goto WLock st))
           | WLock \<Rightarrow>
               (if free (LSocket c) st then Some (goto WReading (acquire (LSocket c) (TWriter c) st)) else None)
           | WReading \<Rightarrow>
               (case inp of
                  Got bs \<Rightarrow>
                    (if bs = [] then Some (goto WRemove (release (LSocket c) (shut Conout st)))
                     else Some (goto (WSend bs) st))
                | NoData \<Rightarrow> Some (goto WCheck (release (LSocket c) st))
                | ReadError e \<Rightarrow>
                    Some (goto WRemove (release (LSocket c) (shut Conout
                      (tell (MError (''Error reading from worker socket for session '' @ show_u32 k @ '': '' @ e)) st))))
                | _ \<Rightarrow> None)
           | WSend bs \<Rightarrow>
               (case inp of
                  WriteOk \<Rightarrow> Some (goto (WStore bs) (st\<lparr>w_forwarded := w_forwarded st @ [ToConout c bs]\<rparr>))
                | WriteError n e \<Rightarrow>
                    (if n < length bs then
                       Some (goto WRemove (release (LSocket c) (shut Conout
                         (tell (MError (''Failed to write to conout socket for session '' @ show_u32 k @ '': '' @ e))
                           (st\<lparr>w_forwarded := w_forwarded st @ [PartToConout c (take n bs)]\<rparr>)))))
                     else None)
                | _ \<Rightarrow> None)
           | WStore bs \<Rightarrow>
               (if free LSessions st then
                  Some (goto (WReport bs)
                    (case fmlookup (w_sessions st) k of
                       Some ses \<Rightarrow>
                         st\<lparr>w_sessions := fmupd k (ses\<lparr>ws_data := ws_data ses @ bs\<rparr>) (w_sessions st)\<rparr>
                     | None \<Rightarrow> st))
                else None)
           | WReport bs \<Rightarrow> Some (goto WCheck (release (LSocket c) (tell (MData k bs) st)))
           | WRemove \<Rightarrow>
               (if free LSessions st then Some (goto WDone (forget_session k st)) else None)
           | WDone \<Rightarrow> None))"

section \<open>The methods\<close>

text \<open>\<open>shutdown_worker\<close>, called when the JavaScript thread is idle; \<open>h\<close> is the visit order.\<close>

definition shutdown_step :: "(u32 \<Rightarrow> nat) \<Rightarrow> worker \<Rightarrow> worker option" where
  "shutdown_step h st =
     (case w_main st of
        MIdle \<Rightarrow> Some (main_at MConout (st\<lparr>w_shutdown := True\<rparr>))
      | MConout \<Rightarrow>
          Some (main_at MSessions ((if w_conout st then shut Conout st else st)\<lparr>w_conout := False\<rparr>))
      | MSessions \<Rightarrow>
          (if free LSessions st
           then Some (main_at (MSockets (map (ws_socket \<circ> snd) (entries_in h (w_sessions st))))
                  (acquire LSessions TMain st))
           else None)
      | MSockets [] \<Rightarrow> Some (main_at MNotify (release LSessions st))
      | MSockets (c # cs) \<Rightarrow>
          (if free (LSocket c) st then Some (main_at (MSockets cs) (shut (Peer c) st)) else None)
      | MNotify \<Rightarrow> Some (main_at MIdle (tell MReady st)))"

definition worker_list_sessions :: "(u32 \<Rightarrow> nat) \<Rightarrow> worker \<Rightarrow> (u32 list, napi_error) result" where
  "worker_list_sessions h st = Ok (keys_in h (w_sessions st))"

definition get_session_data :: "u32 \<Rightarrow> worker \<Rightarrow> (bytes, napi_error) result" where
  "get_session_data k st =
     (case fmlookup (w_sessions st) k of
        Some ses \<Rightarrow> Ok (ws_data ses)
      | None \<Rightarrow> Err (napi_err InvalidArg (''Session ID '' @ show_u32 k @ '' does not exist.'')))"

section \<open>Interleaving\<close>

datatype action = AcceptStep input | ReaderStep nat input | WriterStep nat input | ShutdownStep

fun step :: "(u32 \<Rightarrow> nat) \<Rightarrow> action \<Rightarrow> worker \<Rightarrow> worker option" where
  "step h (AcceptStep inp) st = accept_step inp st"
| "step h (ReaderStep c inp) st = reader_step c inp st"
| "step h (WriterStep c inp) st = writer_step c inp st"
| "step h ShutdownStep st = shutdown_step h st"

fun run :: "(u32 \<Rightarrow> nat) \<Rightarrow> action list \<Rightarrow> worker \<Rightarrow> worker option" where
  "run h [] st = Some st"
| "run h (a # as) st = (case step h a st of Some st1 \<Rightarrow> run h as st1 | None \<Rightarrow> None)"

text \<open>The states of a worker that started: no thread but the accept loop runs at first.\<close>

definition started_worker :: worker where
  "started_worker = start_worker (Ok ()) (Ok ()) (Ok ()) new_worker"

inductive worker_reach :: "(u32 \<Rightarrow> nat) \<Rightarrow> worker \<Rightarrow> bool" for h where
  start: "worker_reach h (start_worker connect nonblocking bind new_worker)"
| step: "worker_reach h st \<Longrightarrow> step h a st = Some st' \<Longrightarrow> worker_reach h st'"

lemmas worker_state_defs =
  tell_def shut_def acquire_def release_def free_def reader_at_def writer_at_def main_at_def
  accept_at_def forget_session_def

declare accept_step.simps [simp del]

end
