(* ===== verification/Worker_Laws.thy ===== *)
theory Worker_Laws
  imports Worker
begin

text \<open>
  The invariant of the worker's mutexes, what a session's buffer holds, and the states in which
  threads wait for each other for ever.
\<close>

section \<open>Who holds which mutex\<close>

fun reader_holds :: "reader_pc \<Rightarrow> bool" where
  "reader_holds (RWriting bs) = True"
| "reader_holds RFailed = True"
| "reader_holds _ = False"

fun writer_holds :: "writer_pc \<Rightarrow> bool" where
  "writer_holds WReading = True"
| "writer_holds (WSend bs) = True"
| "writer_holds (WStore bs) = True"
| "writer_holds (WReport bs) = True"
| "writer_holds _ = False"

fun main_holds :: "main_pc \<Rightarrow> bool" where
  "main_holds (MSockets cs) = True"
| "main_holds _ = False"

definition reader_in :: "nat \<Rightarrow> worker \<Rightarrow> bool" where
  "reader_in c st \<longleftrightarrow> (case w_readers st c of Some (k, pc) \<Rightarrow> reader_holds pc | None \<Rightarrow> False)"

definition writer_in :: "nat \<Rightarrow> worker \<Rightarrow> bool" where
  "writer_in c st \<longleftrightarrow> (case w_writers st c of Some (k, pc) \<Rightarrow> writer_holds pc | None \<Rightarrow> False)"

definition locks_inv :: "worker \<Rightarrow> bool" where
  "locks_inv st \<longleftrightarrow>
     w_locks st LSessions = (if main_holds (w_main st) then Some TMain else None) \<and>
     (\<forall>c. w_locks st (LSocket c) =
            (if reader_in c st then Some (TReader c) else if writer_in c st then Some (TWriter c) else None)) \<and>
     (\<forall>c. \<not> (reader_in c st \<and> writer_in c st)) \<and>
     (\<forall>c. w_conns st \<le> c \<longrightarrow> w_readers st c = None \<and> w_writers st c = None) \<and>
     (\<forall>k c. w_accept st = ASpawn k c \<longrightarrow> c < w_conns st \<and> w_readers st c = None \<and> w_writers st c = None)"

lemma locks_invD:
  assumes "locks_inv st"
  shows "w_locks st LSessions = (if main_holds (w_main st) then Some TMain else None)"
    "w_locks st (LSocket c) =
       (if reader_in c st then Some (TReader c) else if writer_in c st then Some (TWriter c) else None)"
    "\<not> (reader_in c st \<and> writer_in c st)"
    "w_conns st \<le> c \<Longrightarrow> w_readers st c = None \<and> w_writers st c = None"
    "w_accept st = ASpawn k c \<Longrightarrow> c < w_conns st \<and> w_readers st c = None \<and> w_writers st c = None"
  using assms unfolding locks_inv_def by blast+

lemma locks_inv_start: "locks_inv (start_worker a b d new_worker)"
  by (auto simp: locks_inv_def start_worker_def new_worker_def worker_state_defs reader_in_def
      writer_in_def Let_def split: result.splits)

text \<open>
  A thread changes its own stage and the mutex of its own socket; it takes the mutex only when it is
  free, and holds it exactly in the stages named above.
\<close>

lemma reader_step_frame:
  assumes "reader_step c inp st = Some st'"
  shows "w_main st' = w_main st" "w_writers st' = w_writers st" "w_accept st' = w_accept st"
    "w_conns st' = w_conns st" "w_counter st' = w_counter st" "w_shutdown st' = w_shutdown st"
    "w_conout st' = w_conout st" "j \<noteq> c \<Longrightarrow> w_readers st' j = w_readers st j"
    "l \<noteq> LSocket c \<Longrightarrow> w_locks st' l = w_locks st l"
  using assms unfolding reader_step_def Let_def
  by (auto simp: worker_state_defs split: option.splits prod.splits reader_pc.splits input.splits if_splits)

lemma reader_step_lock:
  assumes "reader_step c inp st = Some st'" "w_readers st c = Some (k, pc)"
  shows "\<exists>pc'. w_readers st' c = Some (k, pc') \<and>
    (reader_holds pc' \<and> \<not> reader_holds pc \<longrightarrow> w_locks st (LSocket c) = None) \<and>
    w_locks st' (LSocket c) =
      (if reader_holds pc' then (if reader_holds pc then w_locks st (LSocket c) else Some (TReader c))
       else if reader_holds pc \<and> pc \<noteq> RFailed then None else w_locks st (LSocket c))"
  using assms unfolding reader_step_def Let_def
  by (auto simp: worker_state_defs split: reader_pc.splits input.splits if_splits)

lemma writer_step_frame:
  assumes "writer_step c inp st = Some st'"
  shows "w_main st' = w_main st" "w_readers st' = w_readers st" "w_accept st' = w_accept st"
    "w_conns st' = w_conns st" "w_counter st' = w_counter st" "w_shutdown st' = w_shutdown st"
    "w_conout st' = w_conout st" "j \<noteq> c \<Longrightarrow> w_writers st' j = w_writers st j"
    "l \<noteq> LSocket c \<Longrightarrow> w_locks st' l = w_locks st l"
  using assms unfolding writer_step_def Let_def
  by (auto simp: worker_state_defs split: option.splits prod.splits writer_pc.splits input.splits if_splits)

lemma writer_step_lock:
  assumes "writer_step c inp st = Some st'" "w_writers st c = Some (k, pc)"
  shows "\<exists>pc'. w_writers st' c = Some (k, pc') \<and>
    (writer_holds pc' \<and> \<not> writer_holds pc \<longrightarrow> w_locks st (LSocket c) = None) \<and>
    w_locks st' (LSocket c) =
      (if writer_holds pc' then (if writer_holds pc then w_locks st (LSocket c) else Some (TWriter c))
       else if writer_holds pc then None else w_locks st (LSocket c))"
  using assms unfolding writer_step_def Let_def
  by (auto simp: worker_state_defs split: writer_pc.splits input.splits if_splits option.splits)

lemma reader_step_inv:
  assumes "reader_step c inp st = Some st'" "locks_inv st"
  shows "locks_inv st'"
proof -
  obtain k pc where r: "w_readers st c = Some (k, pc)"
    using assms(1) by (auto simp: reader_step_def split: option.splits)
  note fr = reader_step_frame [OF assms(1)]
  note inv = locks_invD [OF assms(2)]
  have "pc \<noteq> RFailed"
  proof
    assume "pc = RFailed"
    then have "w_locks st (LSocket c) = Some (TReader c)" using inv(2) [of c] r by (simp add: reader_in_def)
    then show False using assms(1) r \<open>pc = RFailed\<close> by (simp add: reader_step_def free_def)
  qed
  obtain pc' where pc': "w_readers st' c = Some (k, pc')"
    "reader_holds pc' \<and> \<not> reader_holds pc \<longrightarrow> w_locks st (LSocket c) = None"
    "w_locks st' (LSocket c) =
      (if reader_holds pc' then (if reader_holds pc then w_locks st (LSocket c) else Some (TReader c))
       else if reader_holds pc \<and> pc \<noteq> RFailed then None else w_locks st (LSocket c))"
    using reader_step_lock [OF assms(1) r] by blast
  have in_c: "reader_in c st = reader_holds pc" "reader_in c st' = reader_holds pc'"
    using r pc'(1) by (simp_all add: reader_in_def)
  have in_j: "j \<noteq> c \<Longrightarrow> reader_in j st' = reader_in j st" "writer_in j st' = writer_in j st" for j
    using fr(2,8) by (simp_all add: reader_in_def writer_in_def)
  have "w_locks st' (LSocket j) =
      (if reader_in j st' then Some (TReader j) else if writer_in j st' then Some (TWriter j) else None) \<and>
      \<not> (reader_in j st' \<and> writer_in j st')" for j
  proof (cases "j = c")
    case True
    then show ?thesis using pc' in_c in_j(2) inv(2,3) [of c] \<open>pc \<noteq> RFailed\<close> by (auto split: if_splits)
  next
    case False
    then show ?thesis using fr(9) [of "LSocket j"] in_j inv(2,3) [of j] by simp
  qed
  moreover have "w_locks st' LSessions = w_locks st LSessions" using fr(9) by blast
  moreover have "w_conns st' \<le> j \<Longrightarrow> w_readers st' j = None \<and> w_writers st' j = None" for j
    using fr(2,4,8) inv(4) [of j] r by (cases "j = c") auto
  moreover have "w_accept st' = ASpawn i j \<Longrightarrow> j < w_conns st' \<and> w_readers st' j = None \<and> w_writers st' j = None" for i j
    using fr(2,3,4,8) inv(5) [of i j] r by (cases "j = c") auto
  ultimately show ?thesis unfolding locks_inv_def using inv(1) fr(1) by simp
qed

lemma writer_step_inv:
  assumes "writer_step c inp st = Some st'" "locks_inv st"
  shows "locks_inv st'"
proof -
  obtain k pc where r: "w_writers st c = Some (k, pc)"
    using assms(1) by (auto simp: writer_step_def split: option.splits)
  note fr = writer_step_frame [OF assms(1)]
  note inv = locks_invD [OF assms(2)]
  from writer_step_lock [OF assms(1) r] obtain pc' where pc': "w_writers st' c = Some (k, pc')"
    "writer_holds pc' \<and> \<not> writer_holds pc \<longrightarrow> w_locks st (LSocket c) = None"
    "w_locks st' (LSocket c) =
      (if writer_holds pc' then (if writer_holds pc then w_locks st (LSocket c) else Some (TWriter c))
       else if writer_holds pc then None else w_locks st (LSocket c))"
    by auto
  have in_c: "writer_in c st = writer_holds pc" "writer_in c st' = writer_holds pc'"
    using r pc'(1) by (simp_all add: writer_in_def)
  have in_j: "reader_in j st' = reader_in j st" "j \<noteq> c \<Longrightarrow> writer_in j st' = writer_in j st" for j
    using fr(2,8) by (simp_all add: reader_in_def writer_in_def)
  have "w_locks st' (LSocket j) =
      (if reader_in j st' then Some (TReader j) else if writer_in j st' then Some (TWriter j) else None) \<and>
      \<not> (reader_in j st' \<and> writer_in j st')" for j
  proof (cases "j = c")
    case True
    then show ?thesis using pc' in_c in_j(1) inv(2,3) [of c] by (auto split: if_splits)
  next
    case False
    then show ?thesis using fr(9) [of "LSocket j"] in_j inv(2,3) [of j] by simp
  qed
  moreover have "w_locks st' LSessions = w_locks st LSessions" using fr(9) by blast
  moreover have "w_conns st' \<le> j \<Longrightarrow> w_readers st' j = None \<and> w_writers st' j = None" for j
    using fr(2,4,8) inv(4) [of j] r by (cases "j = c") auto
  moreover have "w_accept st' = ASpawn i j \<Longrightarrow> j < w_conns st' \<and> w_readers st' j = None \<and> w_writers st' j = None" for i j
    using fr(2,3,4,8) inv(5) [of i j] r by (cases "j = c") auto
  ultimately show ?thesis unfolding locks_inv_def using inv(1) fr(1) by simp
qed

lemma locks_inv_same:
  assumes "locks_inv st" "w_locks st' = w_locks st" "w_readers st' = w_readers st"
    "w_writers st' = w_writers st" "w_conns st \<le> w_conns st'" "main_holds (w_main st') = main_holds (w_main st)"
    "\<And>k c. w_accept st' = ASpawn k c \<Longrightarrow>
       w_accept st = ASpawn k c \<or> (c < w_conns st' \<and> w_conns st \<le> c)"
  shows "locks_inv st'"
  using assms unfolding locks_inv_def reader_in_def writer_in_def by (simp, meson le_trans less_le_trans)

lemma locks_inv_spawn:
  assumes "locks_inv st" "w_accept st = ASpawn k c"
    "st' = accept_at AIdle (reader_at c k (RStart r) (writer_at c k (WStart w) st))"
  shows "locks_inv st'"
proof -
  note inv = locks_invD [OF assms(1)]
  have new: "c < w_conns st" "w_readers st c = None" "w_writers st c = None" using inv(5) [OF assms(2)] by auto
  have same: "reader_in j st' = reader_in j st" "writer_in j st' = writer_in j st" for j
    using new by (simp_all add: assms(3) worker_state_defs reader_in_def writer_in_def)
  show ?thesis unfolding locks_inv_def same using inv new by (auto simp: assms(3) worker_state_defs)
qed

lemma accept_step_inv:
  assumes "accept_step inp st = Some st'" "locks_inv st"
  shows "locks_inv st'"
proof (cases "w_accept st")
  case AIdle
  with assms(1) show ?thesis
    by (auto simp: accept_step.simps worker_state_defs split: input.splits if_splits option.splits
        intro!: locks_inv_same [OF assms(2)])
next
  case (AInsert k)
  with assms(1) show ?thesis
    by (auto simp: accept_step.simps worker_state_defs split: if_splits intro!: locks_inv_same [OF assms(2)])
next
  case (ASpawn k c)
  with assms(1) show ?thesis
    by (auto simp: accept_step.simps split: input.splits intro: locks_inv_spawn [OF assms(2) ASpawn])
next
  case AEnded
  with assms(1) show ?thesis by (simp add: accept_step.simps)
qed

lemma locks_inv_main:
  assumes "locks_inv st" "w_locks st' = (w_locks st)(LSessions := if main_holds (w_main st') then Some TMain else None)"
    "w_readers st' = w_readers st" "w_writers st' = w_writers st" "w_conns st' = w_conns st"
    "w_accept st' = w_accept st"
  shows "locks_inv st'"
  using assms unfolding locks_inv_def reader_in_def writer_in_def by simp

lemma shutdown_step_inv:
  assumes "shutdown_step h st = Some st'" "locks_inv st"
  shows "locks_inv st'"
proof -
  have l: "w_locks st LSessions = (if main_holds (w_main st) then Some TMain else None)"
    using locks_invD(1) [OF assms(2)] .
  show ?thesis
    using assms(1) l
    by (cases "w_main st"; intro locks_inv_main [OF assms(2)])
      (auto simp: shutdown_step_def worker_state_defs fun_eq_iff split: list.splits if_splits)
qed

lemma step_inv: "step h a st = Some st' \<Longrightarrow> locks_inv st \<Longrightarrow> locks_inv st'"
  by (cases a) (simp_all add: accept_step_inv reader_step_inv writer_step_inv shutdown_step_inv)

lemma run_inv: "run h as st = Some st' \<Longrightarrow> locks_inv st \<Longrightarrow> locks_inv st'"
  by (induction as arbitrary: st) (auto dest: step_inv split: option.splits)

lemma worker_reach_inv: "worker_reach h st \<Longrightarrow> locks_inv st"
  by (induction rule: worker_reach.induct) (auto intro: locks_inv_start step_inv)

lemma run_append: "run h (as @ bs) st = (case run h as st of Some st1 \<Rightarrow> run h bs st1 | None \<Rightarrow> None)"
  by (induction as arbitrary: st) (auto split: option.splits)

lemma worker_reach_run: "worker_reach h st \<Longrightarrow> run h as st = Some st' \<Longrightarrow> worker_reach h st'"
  by (induction as arbitrary: st) (auto intro: worker_reach.step split: option.splits)

section \<open>What no step changes\<close>

text \<open>
  A condition \<open>P\<close> that every step of the kind \<open>A\<close> keeps, under the invariant of the mutexes, holds
  after every run of such steps.
\<close>

locale kept_by_steps =
  fixes h :: "u32 \<Rightarrow> nat" and A :: "action \<Rightarrow> bool" and P :: "worker \<Rightarrow> bool"
  assumes kept: "locks_inv st \<Longrightarrow> P st \<Longrightarrow> A a \<Longrightarrow> step h a st = Some st' \<Longrightarrow> P st'"
begin

lemma kept_run:
  "run h as st = Some st' \<Longrightarrow> locks_inv st \<Longrightarrow> P st \<Longrightarrow> \<forall>a\<in>set as. A a \<Longrightarrow> P st'"
proof (induction as arbitrary: st)
  case (Cons a as)
  then obtain st1 where "step h a st = Some st1" "run h as st1 = Some st'" by (auto split: option.splits)
  then show ?case using Cons.IH [of st1] Cons.prems kept [of st a st1] step_inv [of h a st st1] by simp
qed simp

end

section \<open>Threads that wait for ever\<close>

text \<open>A socket whose mutex stays taken keeps \<open>shutdown_worker\<close> in its loop over the sockets.\<close>

definition closing :: "nat \<Rightarrow> worker \<Rightarrow> bool" where
  "closing c st \<longleftrightarrow> (\<exists>cs. w_main st = MSockets cs \<and> c \<in> set cs)"

lemma closing_step:
  assumes "closing c st" "w_locks st (LSocket c) \<noteq> None" "step h a st = Some st'"
  shows "closing c st'"
proof (cases a)
  case (AcceptStep inp)
  with assms show ?thesis
    by (auto simp: closing_def accept_step.simps worker_state_defs
        split: accept_pc.splits input.splits if_splits option.splits)
next
  case (ReaderStep j inp)
  with assms show ?thesis using reader_step_frame(1) [of j inp st st'] by (simp add: closing_def)
next
  case (WriterStep j inp)
  with assms show ?thesis using writer_step_frame(1) [of j inp st st'] by (simp add: closing_def)
next
  case ShutdownStep
  with assms show ?thesis
    by (auto simp: closing_def shutdown_step_def worker_state_defs split: list.splits if_splits)
qed

lemma closing_sessions_held:
  "closing c st \<Longrightarrow> locks_inv st \<Longrightarrow> w_locks st LSessions = Some TMain"
  using locks_invD(1) [of st] by (auto simp: closing_def)

lemma accept_step_threads:
  assumes "accept_step inp st = Some st'" "locks_inv st"
  shows "w_readers st c = Some x \<Longrightarrow> w_readers st' c = Some x"
    "w_writers st c = Some y \<Longrightarrow> w_writers st' c = Some y"
  using assms locks_invD(5) [OF assms(2)]
  by (auto simp: accept_step.simps worker_state_defs
      split: accept_pc.splits input.splits if_splits option.splits)

lemma shutdown_step_threads:
  assumes "shutdown_step h st = Some st'"
  shows "w_readers st' = w_readers st" "w_writers st' = w_writers st"
  using assms by (auto simp: shutdown_step_def worker_state_defs split: main_pc.splits list.splits if_splits)

text \<open>
  The reader that could not write: the mutex guard of the condition of its \<open>if let\<close> lives until
  the end of the branch in which it locks the same mutex again.
\<close>

lemma reader_failed_step:
  assumes "locks_inv st" "w_readers st c = Some (k, RFailed)" "step h a st = Some st'"
  shows "w_readers st' c = Some (k, RFailed)"
proof (cases a)
  case (AcceptStep inp)
  with assms show ?thesis using accept_step_threads(1) by simp
next
  case (ReaderStep j inp)
  have "w_locks st (LSocket c) = Some (TReader c)"
    using locks_invD(2) [OF assms(1), of c] assms(2) by (simp add: reader_in_def)
  then have "j \<noteq> c" using assms(2,3) ReaderStep by (auto simp: reader_step_def free_def)
  then show ?thesis using ReaderStep assms reader_step_frame(8) [of j inp st st' c] by simp
next
  case (WriterStep j inp)
  with assms show ?thesis using writer_step_frame(2) [of j inp st st'] by simp
next
  case ShutdownStep
  with assms show ?thesis using shutdown_step_threads(1) by simp
qed

interpretation failed: kept_by_steps h "\<lambda>_. True" "\<lambda>st. w_readers st c = Some (k, RFailed)" for h c k
  by unfold_locales (rule reader_failed_step)

lemma reader_failed_holds:
  "locks_inv st \<Longrightarrow> w_readers st c = Some (k, RFailed) \<Longrightarrow> w_locks st (LSocket c) = Some (TReader c)"
  using locks_invD(2) [of st c] by (simp add: reader_in_def)

interpretation failed_closing: kept_by_steps h "\<lambda>_. True"
  "\<lambda>st. w_readers st c = Some (k, RFailed) \<and> closing c st" for h c k
proof unfold_locales
  fix st a st'
  assume st: "locks_inv st" "w_readers st c = Some (k, RFailed) \<and> closing c st" "step h a st = Some st'"
  then have "w_locks st (LSocket c) \<noteq> None" using reader_failed_holds [of st c k] by simp
  then show "w_readers st' c = Some (k, RFailed) \<and> closing c st'"
    using reader_failed_step [of st c k h a st'] closing_step [of c st h a st'] st by simp
qed

text \<open>
  A writer that waits for the session table while \<open>shutdown_worker\<close>, which holds the table, waits
  for that writer's socket.
\<close>

lemma writer_blocked_step:
  assumes "locks_inv st" "w_writers st c = Some (k, WStore bs)" "closing c st" "step h a st = Some st'"
  shows "w_writers st' c = Some (k, WStore bs) \<and> closing c st'"
proof
  have in_c: "w_locks st (LSocket c) \<noteq> None"
    using locks_invD(2) [OF assms(1), of c] assms(2) by (simp add: writer_in_def)
  show "closing c st'" using closing_step [OF assms(3) in_c assms(4)] .
  show "w_writers st' c = Some (k, WStore bs)"
  proof (cases a)
    case (AcceptStep inp)
    with assms show ?thesis using accept_step_threads(2) by simp
  next
    case (ReaderStep j inp)
    with assms show ?thesis using reader_step_frame(2) [of j inp st st'] by simp
  next
    case (WriterStep j inp)
    have "j \<noteq> c" using assms(2,4) WriterStep closing_sessions_held [OF assms(3,1)]
      by (auto simp: writer_step_def free_def)
    then show ?thesis using WriterStep assms writer_step_frame(8) [of j inp st st' c] by simp
  next
    case ShutdownStep
    with assms show ?thesis using shutdown_step_threads(2) by simp
  qed
qed

interpretation blocked: kept_by_steps h "\<lambda>_. True"
  "\<lambda>st. w_writers st c = Some (k, WStore bs) \<and> closing c st" for h c k bs
  by unfold_locales (elim conjE, rule writer_blocked_step)

text \<open>A writer whose \<open>read\<close> has not returned holds its socket's mutex.\<close>

lemma writer_waiting_step:
  assumes "locks_inv st" "w_writers st c = Some (k, WReading)" "closing c st" "step h a st = Some st'"
    "\<And>inp. a \<noteq> WriterStep c inp"
  shows "w_writers st' c = Some (k, WReading) \<and> closing c st'"
proof
  have in_c: "w_locks st (LSocket c) \<noteq> None"
    using locks_invD(2) [OF assms(1), of c] assms(2) by (simp add: writer_in_def)
  show "closing c st'" using closing_step [OF assms(3) in_c assms(4)] .
  show "w_writers st' c = Some (k, WReading)"
  proof (cases a)
    case (AcceptStep inp)
    with assms show ?thesis using accept_step_threads(2) by simp
  next
    case (ReaderStep j inp)
    with assms show ?thesis using reader_step_frame(2) [of j inp st st'] by simp
  next
    case (WriterStep j inp)
    then have "j \<noteq> c" using assms(5) by auto
    then show ?thesis using WriterStep assms writer_step_frame(8) [of j inp st st' c] by simp
  next
    case ShutdownStep
    with assms show ?thesis using shutdown_step_threads(2) by simp
  qed
qed

interpretation waiting: kept_by_steps h "\<lambda>a. \<forall>inp. a \<noteq> WriterStep c inp"
  "\<lambda>st. w_writers st c = Some (k, WReading) \<and> closing c st" for h c k
proof unfold_locales
  fix st a st'
  assume "locks_inv st" "w_writers st c = Some (k, WReading) \<and> closing c st"
    "\<forall>inp. a \<noteq> WriterStep c inp" "step h a st = Some st'"
  then show "w_writers st' c = Some (k, WReading) \<and> closing c st'"
    using writer_waiting_step [of st c k h a st'] by blast
qed

end
