(* ===== verification/Worker_Data.thy ===== *)
theory Worker_Data
  imports Worker_Laws
begin

text \<open>
  What the buffer of a session holds: the bytes of its socket that were forwarded to \<open>conout\<close>, up to
  those its thread has in hand and the part of a write that failed. And what \<open>shutdown_worker\<close> does when no mutex it needs is taken.
\<close>

section \<open>The buffer of a session\<close>

text \<open>
  \<open>forwarded\<close> is all that was written to \<open>conout\<close> for a connection, \<open>sent\<close> what whole writes wrote, and
  \<open>cut\<close> what writes that failed had written.
\<close>

fun forwarded :: "nat \<Rightarrow> forward list \<Rightarrow> bytes" where
  "forwarded c [] = []"
| "forwarded c (ToConout d bs # fs) = (if d = c then bs @ forwarded c fs else forwarded c fs)"
| "forwarded c (PartToConout d bs # fs) = (if d = c then bs @ forwarded c fs else forwarded c fs)"
| "forwarded c (ToPeer d bs # fs) = forwarded c fs"

fun sent :: "nat \<Rightarrow> forward list \<Rightarrow> bytes" where
  "sent c [] = []"
| "sent c (ToConout d bs # fs) = (if d = c then bs @ sent c fs else sent c fs)"
| "sent c (_ # fs) = sent c fs"

fun cut :: "nat \<Rightarrow> forward list \<Rightarrow> bytes" where
  "cut c [] = []"
| "cut c (PartToConout d bs # fs) = (if d = c then bs @ cut c fs else cut c fs)"
| "cut c (_ # fs) = cut c fs"

lemma forwarded_append [simp]: "forwarded c (xs @ ys) = forwarded c xs @ forwarded c ys"
  by (induction c xs rule: forwarded.induct) auto

lemma sent_append [simp]: "sent c (xs @ ys) = sent c xs @ sent c ys"
  by (induction c xs rule: sent.induct) auto

lemma cut_append [simp]: "cut c (xs @ ys) = cut c xs @ cut c ys"
  by (induction c xs rule: cut.induct) auto

definition in_hand :: "nat \<Rightarrow> worker \<Rightarrow> bytes" where
  "in_hand c st = (case w_writers st c of Some (k, WStore bs) \<Rightarrow> bs | _ \<Rightarrow> [])"

definition id_of :: "nat \<Rightarrow> u32" where
  "id_of c = of_nat (Suc c)"

lemma id_of_inject:
  assumes "id_of c = id_of d" "c < 2 ^ 32" "d < 2 ^ 32"
  shows "c = d"
proof -
  have "Suc c mod 2 ^ 32 = Suc d mod 2 ^ 32"
    using arg_cong [OF assms(1), of unat] by (simp add: id_of_def unat_of_nat take_bit_eq_mod del: of_nat_Suc)
  then show ?thesis using assms(2,3) by (auto simp: mod_Suc split: if_splits)
qed

definition accepted :: "worker \<Rightarrow> nat" where
  "accepted st = (case w_accept st of AInsert k \<Rightarrow> Suc (w_conns st) | _ \<Rightarrow> w_conns st)"

definition session_ok :: "worker \<Rightarrow> u32 \<Rightarrow> worker_session \<Rightarrow> bool" where
  "session_ok st k ses \<longleftrightarrow>
     ws_socket ses < w_conns st \<and> k = id_of (ws_socket ses) \<and>
     ws_data ses @ in_hand (ws_socket ses) st = sent (ws_socket ses) (w_forwarded st)"

text \<open>Connection \<open>c\<close> gets the id \<open>c + 1\<close>, wrapping at 32 bits.\<close>

definition data_inv :: "worker \<Rightarrow> bool" where
  "data_inv st \<longleftrightarrow>
     w_counter st = id_of (accepted st) \<and>
     (\<forall>k. w_accept st = AInsert k \<longrightarrow> k = id_of (w_conns st)) \<and>
     (\<forall>k c. w_accept st = ASpawn k c \<longrightarrow> k = id_of c) \<and>
     (\<forall>c k pc. w_writers st c = Some (k, pc) \<longrightarrow> k = id_of c) \<and>
     (\<forall>c. w_writers st c = None \<longrightarrow> sent c (w_forwarded st) = []) \<and>
     (\<forall>k ses. fmlookup (w_sessions st) k = Some ses \<longrightarrow> session_ok st k ses)"

lemma data_invD:
  assumes "data_inv st"
  shows "w_counter st = id_of (accepted st)"
    "w_accept st = AInsert k \<Longrightarrow> k = id_of (w_conns st)"
    "w_accept st = ASpawn k c \<Longrightarrow> k = id_of c"
    "w_writers st c = Some (k, pc) \<Longrightarrow> k = id_of c"
    "w_writers st c = None \<Longrightarrow> sent c (w_forwarded st) = []"
    "fmlookup (w_sessions st) k = Some ses \<Longrightarrow> session_ok st k ses"
  using assms unfolding data_inv_def by blast+

lemma data_inv_start: "data_inv (start_worker a b d new_worker)"
  by (cases a; cases b; cases d)
    (simp_all add: data_inv_def start_worker_def new_worker_def worker_state_defs in_hand_def accepted_def
      id_of_def)

lemma data_inv_frame:
  assumes "data_inv st" "w_counter st' = w_counter st" "w_accept st' = w_accept st"
    "w_conns st' = w_conns st" "w_writers st' = w_writers st"
    "\<And>c. sent c (w_forwarded st') = sent c (w_forwarded st)"
    "\<And>k ses. fmlookup (w_sessions st') k = Some ses \<Longrightarrow> fmlookup (w_sessions st) k = Some ses"
  shows "data_inv st'"
proof -
  have same: "in_hand c st' = in_hand c st" "accepted st' = accepted st" for c
    using assms by (simp_all add: in_hand_def accepted_def cong: accept_pc.case_cong)
  then have "session_ok st' k ses = session_ok st k ses" for k ses
    using assms by (simp add: session_ok_def)
  then show ?thesis using assms same unfolding data_inv_def by simp
qed

lemma data_inv_writer:
  assumes "data_inv st" "w_writers st c = Some (k, pc)" "w_writers st' = (w_writers st)(c \<mapsto> (k, pc'))"
    "w_counter st' = w_counter st" "w_accept st' = w_accept st" "w_conns st' = w_conns st"
    "\<And>j. j \<noteq> c \<Longrightarrow> sent j (w_forwarded st') = sent j (w_forwarded st)"
    "\<And>i ses. fmlookup (w_sessions st') i = Some ses \<Longrightarrow>
       (ws_socket ses \<noteq> c \<and> fmlookup (w_sessions st) i = Some ses) \<or>
       (\<exists>d. fmlookup (w_sessions st) i = Some (ses\<lparr>ws_data := d\<rparr>) \<and> ws_socket ses = c \<and>
          (d @ in_hand c st = sent c (w_forwarded st) \<longrightarrow>
           ws_data ses @ in_hand c st' = sent c (w_forwarded st')))"
  shows "data_inv st'"
proof -
  have other: "in_hand j st' = in_hand j st" if "j \<noteq> c" for j
    using that assms(3) by (simp add: in_hand_def)
  have acc: "accepted st' = accepted st"
    using assms by (simp add: accepted_def cong: accept_pc.case_cong)
  note inv = data_invD [OF assms(1)]
  have "session_ok st' i ses" if "fmlookup (w_sessions st') i = Some ses" for i ses
    using assms(8) [OF that]
  proof (elim disjE exE conjE)
    assume "ws_socket ses \<noteq> c" "fmlookup (w_sessions st) i = Some ses"
    then show ?thesis using inv(6) [of i ses] other assms(6,7) by (simp add: session_ok_def)
  next
    fix d
    assume d: "fmlookup (w_sessions st) i = Some (ses\<lparr>ws_data := d\<rparr>)" "ws_socket ses = c"
      "d @ in_hand c st = sent c (w_forwarded st) \<longrightarrow> ws_data ses @ in_hand c st' = sent c (w_forwarded st')"
    then show ?thesis using inv(6) [OF d(1)] assms(6) by (simp add: session_ok_def)
  qed
  moreover have "sent j (w_forwarded st') = []" if "w_writers st' j = None" for j
    using that inv(5) assms(3,7) by (cases "j = c") simp_all
  moreover have "i = id_of j" if "w_writers st' j = Some (i, p)" for i j p
    using that inv(4) [of c k pc] inv(4) [of j i p] assms(2,3) by (cases "j = c") simp_all
  ultimately show ?thesis
    using inv(1,2,3) assms(4-6) unfolding data_inv_def acc by simp
qed

lemma fmlookup_forget: "fmlookup (w_sessions (forget_session k st)) i = Some ses \<Longrightarrow> fmlookup (w_sessions st) i = Some ses"
  by (auto simp: forget_session_def split: if_splits)

lemma data_inv_reader:
  assumes "reader_step c inp st = Some st'" "data_inv st"
  shows "data_inv st'"
proof -
  note fr = reader_step_frame [OF assms(1)]
  have "sent j (w_forwarded st') = sent j (w_forwarded st)" for j
    using assms(1) unfolding reader_step_def Let_def
    by (auto simp: worker_state_defs split: option.splits prod.splits reader_pc.splits input.splits if_splits)
  moreover have "fmlookup (w_sessions st') i = Some ses \<Longrightarrow> fmlookup (w_sessions st) i = Some ses" for i ses
    using assms(1) unfolding reader_step_def Let_def
    by (auto simp: worker_state_defs split: option.splits prod.splits reader_pc.splits input.splits if_splits)
  ultimately show ?thesis by (rule data_inv_frame [OF assms(2) fr(5,3,4,2)])
qed

lemma data_inv_shutdown:
  assumes "shutdown_step h st = Some st'" "data_inv st"
  shows "data_inv st'"
  by (rule data_inv_frame [OF assms(2)]; use assms(1) in \<open>auto simp: shutdown_step_def worker_state_defs
      split: main_pc.splits list.splits if_splits\<close>)

lemma data_inv_accepting:
  assumes "data_inv st" "w_forwarded st' = w_forwarded st" "w_conns st \<le> w_conns st'"
    "\<And>c. in_hand c st' = in_hand c st" "w_counter st' = id_of (accepted st')"
    "\<And>k. w_accept st' = AInsert k \<Longrightarrow> k = id_of (w_conns st')"
    "\<And>k c. w_accept st' = ASpawn k c \<Longrightarrow> k = id_of c"
    "\<And>c k pc. w_writers st' c = Some (k, pc) \<Longrightarrow> w_writers st c = Some (k, pc) \<or> k = id_of c"
    "\<And>c. w_writers st' c = None \<Longrightarrow> w_writers st c = None"
    "\<And>k ses. fmlookup (w_sessions st') k = Some ses \<Longrightarrow>
       fmlookup (w_sessions st) k = Some ses \<or> session_ok st' k ses"
  shows "data_inv st'"
proof -
  note inv = data_invD [OF assms(1)]
  have "session_ok st' k ses" if "fmlookup (w_sessions st') k = Some ses" for k ses
    using assms(10) [OF that] inv(6) [of k ses] assms(2-4) by (auto simp: session_ok_def)
  then show ?thesis
    unfolding data_inv_def using inv(4,5) assms(2,5-9) by (simp, blast)
qed

lemma data_inv_accept:
  assumes "accept_step inp st = Some st'" "locks_inv st" "data_inv st"
  shows "data_inv st'"
proof (cases "w_accept st")
  case AIdle
  with assms(1) data_invD(1) [OF assms(3)] show ?thesis
    by (auto simp: accept_step.simps worker_state_defs in_hand_def accepted_def id_of_def
        split: input.splits if_splits option.splits intro!: data_inv_accepting [OF assms(3)])
next
  case (AInsert k)
  have new: "w_writers st (w_conns st) = None" using locks_invD(4) [OF assms(2), of "w_conns st"] by simp
  have "st' = accept_at (ASpawn k (w_conns st)) (st\<lparr>w_conns := w_conns st + 1,
      w_sessions := fmupd k \<lparr>ws_socket = w_conns st, ws_data = []\<rparr> (w_sessions st)\<rparr>)"
    using AInsert assms(1) by (auto simp: accept_step.simps split: if_splits)
  then show ?thesis
    using AInsert data_invD(1,2) [OF assms(3)] data_invD(5) [OF assms(3) new] new
    by (intro data_inv_accepting [OF assms(3)])
      (auto simp: worker_state_defs in_hand_def accepted_def session_ok_def split: if_splits)
next
  case (ASpawn k c)
  have "w_writers st c = None" using locks_invD(5) [OF assms(2) ASpawn] by simp
  with ASpawn assms(1) data_invD(1,3) [OF assms(3)] show ?thesis
    by (intro data_inv_accepting [OF assms(3)])
      (auto simp: accept_step.simps worker_state_defs in_hand_def accepted_def split: input.splits if_splits)
next
  case AEnded
  with assms(1) show ?thesis by (simp add: accept_step.simps)
qed

lemma data_inv_writer_step:
  assumes "writer_step c inp st = Some st'" "locks_inv st" "data_inv st" "w_conns st \<le> 2 ^ 32"
  shows "data_inv st'"
proof -
  obtain k pc where w: "w_writers st c = Some (k, pc)"
    using assms(1) by (auto simp: writer_step_def split: option.splits)
  then have c: "c < w_conns st" "k = id_of c"
    using locks_invD(4) [OF assms(2), of c] data_invD(4) [OF assms(3)] by fastforce+
  obtain pc' where w': "w_writers st' = (w_writers st)(c \<mapsto> (k, pc'))"
    using assms(1) w unfolding writer_step_def Let_def
    by (auto simp: worker_state_defs split: writer_pc.splits input.splits if_splits option.splits)
  note fr = writer_step_frame [OF assms(1)]
  have other: "sent j (w_forwarded st') = sent j (w_forwarded st)" if "j \<noteq> c" for j
    using assms(1) w that unfolding writer_step_def Let_def
    by (auto simp: worker_state_defs split: writer_pc.splits input.splits if_splits option.splits)
  have own: "ws_socket ses = c" if "fmlookup (w_sessions st) k = Some ses" for ses
    using data_invD(6) [OF assms(3) that] c assms(4) id_of_inject by (auto simp: session_ok_def)
  have own_id: "i = k" if "fmlookup (w_sessions st) i = Some ses" "ws_socket ses = c" for i ses
    using data_invD(6) [OF assms(3) that(1)] that(2) c by (simp add: session_ok_def)
  have "(ws_socket ses \<noteq> c \<and> fmlookup (w_sessions st) i = Some ses) \<or>
       (\<exists>d. fmlookup (w_sessions st) i = Some (ses\<lparr>ws_data := d\<rparr>) \<and> ws_socket ses = c \<and>
          (d @ in_hand c st = sent c (w_forwarded st) \<longrightarrow>
           ws_data ses @ in_hand c st' = sent c (w_forwarded st')))"
    if look: "fmlookup (w_sessions st') i = Some ses" for i ses
  proof (cases "\<exists>bs. pc = WStore bs")
    case True
    then obtain bs where bs: "pc = WStore bs" ..
    from assms(1) w bs have st': "st' = writer_at c k (WReport bs)
        (case fmlookup (w_sessions st) k of
           Some s0 \<Rightarrow> st\<lparr>w_sessions := fmupd k (s0\<lparr>ws_data := ws_data s0 @ bs\<rparr>) (w_sessions st)\<rparr>
         | None \<Rightarrow> st)"
      by (auto simp: writer_step_def split: if_splits)
    have hand: "in_hand c st = bs" "in_hand c st' = []" using w st' bs
      by (auto simp: in_hand_def worker_state_defs split: option.splits)
    have fwd: "w_forwarded st' = w_forwarded st" by (simp add: st' worker_state_defs split: option.splits)
    show ?thesis
    proof (cases "i = k")
      case True
      then obtain s0 where "fmlookup (w_sessions st) k = Some s0" "ses = s0\<lparr>ws_data := ws_data s0 @ bs\<rparr>"
        using look by (auto simp: st' worker_state_defs split: option.splits)
      then show ?thesis using own True hand fwd by (intro disjI2 exI [of _ "ws_data s0"]) auto
    next
      case False
      then have "fmlookup (w_sessions st) i = Some ses"
        using look by (auto simp: st' worker_state_defs split: option.splits)
      then show ?thesis using own_id False by blast
    qed
  next
    case False
    then have "fmlookup (w_sessions st) i = Some ses"
      using assms(1) w look unfolding writer_step_def Let_def
      by (auto simp: worker_state_defs split: writer_pc.splits input.splits if_splits option.splits)
    moreover have "in_hand c st = []" using w False by (simp add: in_hand_def split: writer_pc.splits)
    moreover have "sent c (w_forwarded st') = sent c (w_forwarded st) @ in_hand c st'"
      using assms(1) w False unfolding writer_step_def Let_def
      by (auto simp: worker_state_defs in_hand_def split: writer_pc.splits input.splits if_splits)
    ultimately show ?thesis by (cases "ws_socket ses = c") (auto intro: exI [of _ "ws_data ses"])
  qed
  then show ?thesis
    by (intro data_inv_writer [OF assms(3) w w' fr(5,3,4) other]) assumption+
qed

lemma conns_mono: "step h a st = Some st' \<Longrightarrow> w_conns st \<le> w_conns st'"
  by (cases a)
    (auto simp: accept_step.simps shutdown_step_def worker_state_defs reader_step_frame(4) writer_step_frame(4)
      split: accept_pc.splits input.splits if_splits option.splits main_pc.splits list.splits)

lemma data_inv_step:
  assumes "step h a st = Some st'" "locks_inv st" "data_inv st" "w_conns st \<le> 2 ^ 32"
  shows "data_inv st'"
  using assms data_inv_accept data_inv_reader data_inv_writer_step data_inv_shutdown by (cases a) simp_all

lemma worker_reach_data: "worker_reach h st \<Longrightarrow> w_conns st \<le> 2 ^ 32 \<Longrightarrow> data_inv st"
proof (induction rule: worker_reach.induct)
  case (step st a st')
  then have "w_conns st \<le> 2 ^ 32" using conns_mono le_trans by blast
  then show ?case using step data_inv_step worker_reach_inv by blast
qed (rule data_inv_start)

section \<open>Writes that fail\<close>

text \<open>
  A write to \<open>conout\<close> that fails is the last of its connection: its thread has left the loop, and what the
  write had written is the end of what was forwarded.
\<close>

definition gave_up :: "nat \<Rightarrow> worker \<Rightarrow> bool" where
  "gave_up c st \<longleftrightarrow> (\<exists>k. w_writers st c = Some (k, WRemove) \<or> w_writers st c = Some (k, WDone))"

definition cut_inv :: "worker \<Rightarrow> bool" where
  "cut_inv st \<longleftrightarrow> (\<forall>c. forwarded c (w_forwarded st) = sent c (w_forwarded st) @ cut c (w_forwarded st) \<and>
     (cut c (w_forwarded st) \<noteq> [] \<longrightarrow> gave_up c st))"

lemma cut_inv_start: "cut_inv (start_worker a b d new_worker)"
  by (cases a; cases b; cases d)
    (simp_all add: cut_inv_def start_worker_def new_worker_def worker_state_defs)

lemma cut_inv_writer_step:
  assumes "writer_step c inp st = Some st'" "cut_inv st"
  shows "cut_inv st'"
  unfolding cut_inv_def
proof (intro allI)
  fix d
  have old: "forwarded d (w_forwarded st) = sent d (w_forwarded st) @ cut d (w_forwarded st)"
    "cut d (w_forwarded st) \<noteq> [] \<Longrightarrow> gave_up d st"
    using assms(2) unfolding cut_inv_def by blast+
  obtain k pc where w: "w_writers st c = Some (k, pc)"
    using assms(1) by (auto simp: writer_step_def split: option.splits)
  show "forwarded d (w_forwarded st') = sent d (w_forwarded st') @ cut d (w_forwarded st') \<and>
      (cut d (w_forwarded st') \<noteq> [] \<longrightarrow> gave_up d st')"
    using assms(1) old w unfolding writer_step_def Let_def gave_up_def
    by (cases "cut d (w_forwarded st) = []")
      (auto simp: worker_state_defs split: writer_pc.splits input.splits if_splits option.splits)
qed

lemma cut_inv_step:
  assumes "step h a st = Some st'" "locks_inv st" "cut_inv st"
  shows "cut_inv st'"
proof (cases a)
  case (WriterStep c inp)
  then show ?thesis using assms(1,3) cut_inv_writer_step by simp
next
  case (ReaderStep c inp)
  then have s: "reader_step c inp st = Some st'" using assms(1) by simp
  have "forwarded d (w_forwarded st') = forwarded d (w_forwarded st) \<and>
      sent d (w_forwarded st') = sent d (w_forwarded st) \<and> cut d (w_forwarded st') = cut d (w_forwarded st)" for d
    using s unfolding reader_step_def Let_def
    by (auto simp: worker_state_defs split: option.splits prod.splits reader_pc.splits input.splits if_splits)
  then show ?thesis using assms(3) reader_step_frame(2) [OF s] by (simp add: cut_inv_def gave_up_def)
next
  case (AcceptStep inp)
  then have s: "accept_step inp st = Some st'" using assms(1) by simp
  have f: "w_forwarded st' = w_forwarded st"
    using s by (auto simp: accept_step.simps worker_state_defs split: accept_pc.splits input.splits if_splits option.splits)
  have "gave_up c st'" if "gave_up c st" for c
    using that s locks_invD(5) [OF assms(2)]
    by (auto simp: gave_up_def accept_step.simps worker_state_defs
        split: accept_pc.splits input.splits if_splits option.splits)
  then show ?thesis using assms(3) f by (simp add: cut_inv_def)
next
  case ShutdownStep
  then have s: "shutdown_step h st = Some st'" using assms(1) by simp
  then have "w_forwarded st' = w_forwarded st \<and> w_writers st' = w_writers st"
    by (auto simp: shutdown_step_def worker_state_defs split: main_pc.splits list.splits if_splits)
  then show ?thesis using assms(3) by (simp add: cut_inv_def gave_up_def)
qed

lemma worker_reach_cut: "worker_reach h st \<Longrightarrow> cut_inv st"
proof (induction rule: worker_reach.induct)
  case (step st a st')
  then show ?case using cut_inv_step worker_reach_inv by blast
qed (rule cut_inv_start)

section \<open>After the flag is set\<close>

lemma shutdown_flag_step: "step h a st = Some st' \<Longrightarrow> w_shutdown st \<Longrightarrow> w_shutdown st'"
  by (cases a)
    (auto simp: accept_step.simps shutdown_step_def worker_state_defs reader_step_frame(6) writer_step_frame(6)
      split: accept_pc.splits input.splits if_splits option.splits main_pc.splits list.splits)

lemma shutdown_counter_step: "step h a st = Some st' \<Longrightarrow> w_shutdown st \<Longrightarrow> w_counter st' = w_counter st"
  by (cases a)
    (auto simp: accept_step.simps shutdown_step_def worker_state_defs reader_step_frame(5) writer_step_frame(5)
      split: accept_pc.splits input.splits if_splits option.splits main_pc.splits list.splits)

interpretation flagged: kept_by_steps h "\<lambda>_. True" "\<lambda>st. w_shutdown st \<and> w_counter st = n" for h n
  by unfold_locales (auto dest: shutdown_flag_step shutdown_counter_step)

section \<open>A shutdown that nothing blocks\<close>

lemma shutdown_sockets:
  assumes "w_main st = MSockets cs" "\<forall>c\<in>set cs. w_locks st (LSocket c) = None"
  shows "run h (replicate (length cs) ShutdownStep) st =
    Some (st\<lparr>w_main := MSockets [], w_shut := w_shut st @ map Peer cs\<rparr>)"
  using assms
proof (induction cs arbitrary: st)
  case Nil
  then show ?case by simp
next
  case (Cons c cs)
  have "shutdown_step h st = Some (st\<lparr>w_main := MSockets cs, w_shut := w_shut st @ [Peer c]\<rparr>)"
    using Cons.prems by (simp add: shutdown_step_def worker_state_defs)
  then show ?case using Cons.IH [of "st\<lparr>w_main := MSockets cs, w_shut := w_shut st @ [Peer c]\<rparr>"] Cons.prems
    by simp
qed

end
