(* ===== verification/Worker_Properties.thy ===== *)
theory Worker_Properties
  imports Worker_Data
begin

text \<open>
  The properties of the worker: its mutexes, what it forwards, and when \<open>shutdown_worker\<close> returns,
  with runs from the start of a worker.
\<close>

section \<open>Runs\<close>

lemma entries_in_single [simp]: "entries_in h (fmupd k v fmempty) = [(k, v)]"
  by (simp add: entries_in_def keys_in_def sorted_list_of_fset.rep_eq)

text \<open>A first connection whose threads run up to their first calls of the system.\<close>

definition connecting :: "action list" where
  "connecting =
     [AcceptStep (Incoming None), AcceptStep Go, AcceptStep (Cloned True True),
      ReaderStep 0 Go, ReaderStep 0 Go, WriterStep 0 Go, WriterStep 0 Go]"

definition closing_down :: "action list" where
  "closing_down = [ShutdownStep, ShutdownStep, ShutdownStep]"

definition visit :: "u32 \<Rightarrow> nat" where
  "visit k = unat k"

lemma started_worker_eq:
  "started_worker = new_worker\<lparr>w_conout := True, w_messages := [MReady], w_accept := AIdle\<rparr>"
  by (simp add: started_worker_def start_worker_def new_worker_def worker_state_defs)

lemma worker_reach_started: "worker_reach h started_worker"
  unfolding started_worker_def by (rule worker_reach.start)

lemmas worker_eval =
  started_worker_eq new_worker_def connecting_def closing_down_def accept_step.simps reader_step_def writer_step_def
  shutdown_step_def worker_state_defs

definition connected :: worker where
  "connected =
     started_worker\<lparr>w_counter := 2, w_conns := 1,
       w_sessions := fmupd 1 \<lparr>ws_socket = 0, ws_data = []\<rparr> fmempty,
       w_readers := [0 \<mapsto> (1, RRead)], w_writers := [0 \<mapsto> (1, WLock)]\<rparr>"

lemma run_connected: "run h connecting started_worker = Some connected"
  by (simp add: worker_eval connected_def)

lemma worker_reach_connected: "worker_reach h connected"
  using worker_reach_run [OF worker_reach_started run_connected] .

section \<open>Mutexes\<close>

text \<open>C22: who holds the worker's mutexes. In every reachable state the session table is locked exactly
  while \<open>shutdown_worker\<close> goes through it, the socket of a connection exactly while its reader
  writes to it (or has failed to) or its writer is between its read and its report, and never by both.\<close>

theorem worker_mutual_exclusion:
  assumes "worker_reach h st"
  shows "w_locks st LSessions = (if main_holds (w_main st) then Some TMain else None) \<and>
    (w_locks st (LSocket c) = Some (TReader c) \<longleftrightarrow> reader_in c st) \<and>
    (w_locks st (LSocket c) = Some (TWriter c) \<longleftrightarrow> writer_in c st) \<and>
    (w_locks st (LSocket c) = None \<longleftrightarrow> \<not> reader_in c st \<and> \<not> writer_in c st) \<and>
    \<not> (reader_in c st \<and> writer_in c st)"
  using locks_invD(1-3) [OF worker_reach_inv [OF assms]] by auto

theorem worker_mutual_exclusion_witness:
  "w_locks connected (LSocket 0) = None \<and> \<not> (reader_in 0 connected \<and> writer_in 0 connected)"
  using worker_mutual_exclusion [OF worker_reach_connected [of visit], of 0]
  by (simp add: connected_def worker_eval)

section \<open>Forwarding\<close>

text \<open>C20: the ids and buffers of a worker's sessions. While at most 2^32 connections were accepted, a
  session of the table belongs to one accepted connection, its id is the connection's number, and
  what \<open>getSessionData\<close> returns for it is the start of what the connection's peer sent and was forwarded to
  \<open>conout\<close>. What is missing at the end are the bytes its thread is about to store and the part that a failed
  write had written, and then the thread has left its loop.\<close>

theorem session_data_forwarded:
  assumes "worker_reach h st" "w_conns st \<le> 2 ^ 32" "get_session_data k st = Ok bs"
  shows "\<exists>c < w_conns st. k = id_of c \<and>
    forwarded c (w_forwarded st) = bs @ in_hand c st @ cut c (w_forwarded st) \<and>
    (cut c (w_forwarded st) \<noteq> [] \<longrightarrow> gave_up c st)"
proof -
  obtain ses where ses: "fmlookup (w_sessions st) k = Some ses" "bs = ws_data ses"
    using assms(3) by (auto simp: get_session_data_def split: option.splits)
  note cut = worker_reach_cut [OF assms(1), unfolded cut_inv_def]
  show ?thesis
    using data_invD(6) [OF worker_reach_data [OF assms(1,2)] ses(1)] ses(2) cut
    by (intro exI [of _ "ws_socket ses"]) (simp add: session_ok_def flip: append_assoc)
qed

text \<open>Two writes, of which the second fails after its first byte.\<close>

definition talking :: "action list" where
  "talking =
     [WriterStep 0 Go, WriterStep 0 (Got [104, 105]), WriterStep 0 WriteOk, WriterStep 0 Go, WriterStep 0 Go,
      WriterStep 0 Go, WriterStep 0 Go, WriterStep 0 (Got [33, 34]), WriterStep 0 (WriteError 1 ''full'')]"

theorem session_data_forwarded_witness:
  "\<exists>st. run visit (connecting @ talking) started_worker = Some st \<and> get_session_data 1 st = Ok [104, 105] \<and>
     (\<exists>c < w_conns st. forwarded c (w_forwarded st) = [104, 105] @ in_hand c st @ cut c (w_forwarded st)) \<and>
     cut 0 (w_forwarded st) = [33]"
proof -
  obtain st where st: "run visit talking connected = Some st" "get_session_data 1 st = Ok [104, 105]"
    "w_conns st = 1" "cut 0 (w_forwarded st) = [33]"
    by (simp add: talking_def connected_def worker_eval get_session_data_def)
  have r: "run visit (connecting @ talking) started_worker = Some st"
    using st(1) by (simp add: run_append run_connected)
  then show ?thesis
    using session_data_forwarded [OF worker_reach_run [OF worker_reach_started r] _ st(2)] st(2-) by auto
qed

section \<open>Shutting down\<close>

text \<open>A shutdown that nothing blocks. When the session table and every socket in it are unlocked,
  \<open>shutdownWorker\<close> returns after one step for each session and five more: it has set the flag, shut
  the \<open>conout\<close> socket and every session's socket once, told JavaScript, and unlocked the table. The
  sessions stay in the table until their threads end.\<close>

theorem shutdown_completes:
  assumes "w_main st = MIdle" "w_locks st LSessions = None"
    and "\<forall>ses \<in> set (map snd (entries_in h (w_sessions st))). w_locks st (LSocket (ws_socket ses)) = None"
  shows "run h (replicate (length (entries_in h (w_sessions st)) + 5) ShutdownStep) st =
    Some (st\<lparr>w_shutdown := True, w_conout := False,
      w_shut := w_shut st @ (if w_conout st then [Conout] else []) @
        map (Peer \<circ> ws_socket \<circ> snd) (entries_in h (w_sessions st)),
      w_messages := w_messages st @ [MReady]\<rparr>)"
proof -
  define cs where "cs = map (ws_socket \<circ> snd) (entries_in h (w_sessions st))"
  define st3 where "st3 = st\<lparr>w_shutdown := True, w_conout := False, w_main := MSockets cs,
    w_shut := w_shut st @ (if w_conout st then [Conout] else []),
    w_locks := (w_locks st)(LSessions := Some TMain)\<rparr>"
  have start: "run h [ShutdownStep, ShutdownStep, ShutdownStep] st = Some st3"
    using assms(1,2) by (simp add: shutdown_step_def worker_state_defs st3_def cs_def)
  have loop: "run h (replicate (length cs) ShutdownStep) st3 =
      Some (st3\<lparr>w_main := MSockets [], w_shut := w_shut st3 @ map Peer cs\<rparr>)"
    using assms(3) by (intro shutdown_sockets) (auto simp: st3_def cs_def)
  have split: "replicate (length (entries_in h (w_sessions st)) + 5) ShutdownStep =
      [ShutdownStep, ShutdownStep, ShutdownStep] @ replicate (length cs) ShutdownStep @ [ShutdownStep, ShutdownStep]"
    by (simp add: cs_def replicate_append_same [symmetric] numeral_eq_Suc)
  have "(w_locks st)(LSessions := None) = w_locks st" using assms(2) by (auto simp: fun_eq_iff)
  then have "run h [ShutdownStep, ShutdownStep] (st3\<lparr>w_main := MSockets [], w_shut := w_shut st3 @ map Peer cs\<rparr>) =
    Some (st\<lparr>w_shutdown := True, w_conout := False,
      w_shut := w_shut st @ (if w_conout st then [Conout] else []) @
        map (Peer \<circ> ws_socket \<circ> snd) (entries_in h (w_sessions st)),
      w_messages := w_messages st @ [MReady]\<rparr>)"
    using assms(1) by (simp add: shutdown_step_def worker_state_defs st3_def cs_def)
  then show ?thesis unfolding split by (simp only: run_append start loop option.case)
qed

theorem shutdown_completes_witness:
  "\<exists>st. run visit (replicate 6 ShutdownStep) connected = Some st \<and> w_main st = MIdle \<and>
     w_shut st = [Conout, Peer 0] \<and> w_messages st = [MReady, MReady] \<and> fmlookup (w_sessions st) 1 \<noteq> None"
  using shutdown_completes [of connected visit] by (simp add: connected_def worker_eval)

text \<open>After the flag is set no connection is accepted any more: whatever runs then, the counter of
  ids stays as it is.\<close>

theorem no_session_after_shutdown:
  assumes "worker_reach h st" "w_shutdown st" "run h as st = Some st'"
  shows "w_shutdown st' \<and> w_counter st' = w_counter st"
  using flagged.kept_run [OF assms(3) worker_reach_inv [OF assms(1)]] assms(2) by blast

theorem no_session_after_shutdown_witness:
  "\<exists>st st'. run visit (connecting @ [ShutdownStep]) started_worker = Some st \<and>
     run visit [ReaderStep 0 NoData, AcceptStep (Incoming None)] st = Some st' \<and> w_counter st' = 2"
proof -
  obtain st where st: "run visit [ShutdownStep] connected = Some st" "w_shutdown st" "w_counter st = 2"
    by (simp add: connected_def worker_eval)
  obtain st' where st': "run visit [ReaderStep 0 NoData, AcceptStep (Incoming None)] st = Some st'"
    using st(1) by (auto simp: connected_def worker_eval)
  have r: "run visit (connecting @ [ShutdownStep]) started_worker = Some st"
    using st(1) unfolding run_append [of _ connecting] run_connected by simp
  show ?thesis
    using no_session_after_shutdown [OF worker_reach_run [OF worker_reach_started r] st(2) st'] r st' st(3) by auto
qed

section \<open>Waiting for ever\<close>

text \<open>C21: the lock order of a shutdown and of a connection's writer is reversed. The writer stores what
  it read with its socket locked and locks the table for that; \<open>shutdownWorker\<close> locks the table and
  then the sockets. Once both wait, no later run of the worker ends either: the writer never
  stores the bytes and the shutdown never returns.\<close>

theorem shutdown_deadlock:
  assumes "worker_reach h st" "w_writers st c = Some (k, WStore bs)" "closing c st"
    and "run h as st = Some st'"
  shows "w_writers st' c = Some (k, WStore bs) \<and> closing c st' \<and> w_locks st' LSessions = Some TMain"
  using blocked.kept_run [OF assms(4) worker_reach_inv [OF assms(1)]] assms(2,3)
    closing_sessions_held run_inv [OF assms(4) worker_reach_inv [OF assms(1)]] by blast

text \<open>The run to such a state: the peer sends one byte while JavaScript calls \<open>shutdownWorker\<close>.\<close>

definition into_deadlock :: "action list" where
  "into_deadlock =
     connecting @ [WriterStep 0 Go, WriterStep 0 (Got [104]), WriterStep 0 WriteOk] @ closing_down"

theorem shutdown_deadlock_witness:
  "\<exists>st st'. run visit into_deadlock started_worker = Some st \<and>
     run visit [ReaderStep 0 (Got []), AcceptStep (Incoming None)] st = Some st' \<and>
     w_writers st' 0 = Some (1, WStore [104]) \<and> closing 0 st' \<and> get_session_data 1 st' = Ok []"
proof -
  obtain st where st: "run visit ([WriterStep 0 Go, WriterStep 0 (Got [104]), WriterStep 0 WriteOk] @ closing_down)
      connected = Some st" "w_writers st 0 = Some (1, WStore [104])" "closing 0 st"
    by (simp add: connected_def worker_eval closing_def)
  obtain st' where st': "run visit [ReaderStep 0 (Got []), AcceptStep (Incoming None)] st = Some st'"
    "get_session_data 1 st' = Ok []"
    using st(1) by (auto simp: connected_def worker_eval get_session_data_def)
  have r: "run visit into_deadlock started_worker = Some st"
    using st(1) unfolding into_deadlock_def run_append [of _ connecting] run_connected by simp
  show ?thesis
    using shutdown_deadlock [OF worker_reach_run [OF worker_reach_started r] st(2,3) st'(1)] r st' by blast
qed

text \<open>C30: a write to a worker socket that fails. The reader thread keeps the socket's mutex, which the
  condition of its \<open>if let\<close> locked, and locks it again to shut the socket: it stays there in every
  later run, its session is never removed by it, and a shutdown that has the socket before it never
  returns.\<close>

theorem failed_write_deadlock:
  assumes "worker_reach h st" "w_readers st c = Some (k, RWriting bs)"
    and "reader_step c (WriteError n e) st = Some st1" "run h as st1 = Some st'"
  shows "w_readers st' c = Some (k, RFailed) \<and> w_locks st' (LSocket c) = Some (TReader c) \<and>
    (closing c st1 \<longrightarrow> closing c st')"
proof -
  have inv: "locks_inv st1" by (rule reader_step_inv [OF assms(3) worker_reach_inv [OF assms(1)]])
  have at: "w_readers st1 c = Some (k, RFailed)"
    using assms(2,3) by (auto simp: reader_step_def worker_state_defs split: if_splits)
  show ?thesis
    using failed.kept_run [OF assms(4) inv at] failed_closing.kept_run [OF assms(4) inv] at
      reader_failed_holds run_inv [OF assms(4) inv] by blast
qed

theorem failed_write_deadlock_witness:
  "\<exists>st st1 st'. run visit (connecting @ [ReaderStep 0 (Got [7]), ReaderStep 0 Go]) started_worker = Some st \<and>
     reader_step 0 (WriteError 0 ''Broken pipe (os error 32)'') st = Some st1 \<and>
     run visit closing_down st1 = Some st' \<and>
     w_readers st' 0 = Some (1, RFailed) \<and> w_locks st' (LSocket 0) = Some (TReader 0) \<and> w_main st' = MSockets [0]"
proof -
  obtain st where st: "run visit [ReaderStep 0 (Got [7]), ReaderStep 0 Go] connected = Some st"
    "w_readers st 0 = Some (1, RWriting [7])"
    by (simp add: connected_def worker_eval)
  obtain st1 where st1: "reader_step 0 (WriteError 0 ''Broken pipe (os error 32)'') st = Some st1"
    using st(2) by (simp add: reader_step_def)
  obtain st' where st': "run visit closing_down st1 = Some st'" "w_main st' = MSockets [0]"
    using st(1) st1 by (auto simp: connected_def worker_eval)
  have r: "run visit (connecting @ [ReaderStep 0 (Got [7]), ReaderStep 0 Go]) started_worker = Some st"
    using st(1) by (simp add: run_append run_connected)
  show ?thesis
    using failed_write_deadlock [OF worker_reach_run [OF worker_reach_started r] st(2) st1 st'(1)] r st1 st' by blast
qed

text \<open>A peer that neither sends nor closes keeps a shutdown waiting: the writer of its connection reads with
  the socket's mutex locked, so that as long as that read does not return, whatever else runs,
  \<open>shutdownWorker\<close> does not get past the socket, and the session table stays locked.\<close>

theorem silent_peer_blocks_shutdown:
  assumes "worker_reach h st" "w_writers st c = Some (k, WReading)" "closing c st"
    and "run h as st = Some st'" "\<forall>inp. WriterStep c inp \<notin> set as"
  shows "closing c st' \<and> w_locks st' LSessions = Some TMain"
  using waiting.kept_run [OF assms(4) worker_reach_inv [OF assms(1)]] assms(2,3,5)
    closing_sessions_held run_inv [OF assms(4) worker_reach_inv [OF assms(1)]] by blast

theorem silent_peer_blocks_shutdown_witness:
  "\<exists>st st'. run visit (connecting @ [WriterStep 0 Go] @ closing_down) started_worker = Some st \<and>
     run visit [ReaderStep 0 (Got []), AcceptStep (Incoming None)] st = Some st' \<and>
     closing 0 st' \<and> w_locks st' LSessions = Some TMain"
proof -
  obtain st where st: "run visit ([WriterStep 0 Go] @ closing_down) connected = Some st"
    "w_writers st 0 = Some (1, WReading)" "closing 0 st"
    by (simp add: connected_def worker_eval closing_def)
  obtain st' where st': "run visit [ReaderStep 0 (Got []), AcceptStep (Incoming None)] st = Some st'"
    using st(1) by (auto simp: connected_def worker_eval)
  have r: "run visit (connecting @ [WriterStep 0 Go] @ closing_down) started_worker = Some st"
    using st(1) unfolding run_append [of _ connecting] run_connected by simp
  show ?thesis
    using silent_peer_blocks_shutdown [OF worker_reach_run [OF worker_reach_started r] st(2,3) st'] r st' by auto
qed

end
