(* ===== verification/Linux_Properties.thy ===== *)
theory Linux_Properties
  imports Process_Objects Sample_Kernel
begin

text \<open>
  The Linux process beside the macOS one: where the two files agree, which descriptors the creation of
  a process leaves open, and what the path given to \<open>changeShell\<close> is used for; and the objects and
  the table of descriptors of both.
\<close>

section \<open>Agreement with the macOS file\<close>

text \<open>The error kinds are decoded from the errno of the platform.\<close>

fun recode :: "io_error \<Rightarrow> io_error" where
  "recode (Os k errno) = linux_os_error errno"
| "recode (Custom k msg) = Custom k msg"

definition as_linux :: "('a, io_error) result \<times> 's \<Rightarrow> ('a, io_error) result \<times> 's" where
  "as_linux rs = (map_err recode (fst rs), snd rs)"

lemma as_linux_simps [simp]:
  "as_linux (Ok x, s) = (Ok x, s)"
  "as_linux (Err (os_error errno), s) = (Err (linux_os_error errno), s)"
  "as_linux (Err (Custom k msg), s) = (Err (Custom k msg), s)"
  by (simp_all add: as_linux_def os_error_def)

lemma linux_kill_eq: "linux_kill_process sys p sig s = as_linux (kill_process sys p sig s)"
  by (simp add: linux_kill_process_def kill_process_def split: prod.splits)

lemma linux_waitpid_eq: "linux_waitpid sys p opts s = as_linux (waitpid sys p opts s)"
  by (simp add: linux_waitpid_def waitpid_def split: prod.splits)

lemma linux_close_eq: "linux_close_master_fd sys p s = as_linux (close_master_fd sys p s)"
  by (simp add: linux_close_master_fd_def close_master_fd_def split: prod.splits)

lemma linux_force_kill_eq: "linux_force_kill sys p s = as_linux (force_kill sys p s)"
  by (simp add: linux_force_kill_def force_kill_def linux_kill_eq)

lemma linux_write_eq: "linux_write_data sys p data s = as_linux (write_data sys p data s)"
  by (simp add: linux_write_data_def write_data_def split: prod.splits)

lemma linux_is_running_eq: "linux_is_running sys p s = as_linux (is_running sys p s)"
  by (simp add: linux_is_running_def is_running_def split: prod.splits)

lemma linux_shutdown_eq: "linux_shutdown_pty sys p s = as_linux (shutdown_pty sys p s)"
proof -
  obtain k s1 where k: "kill_process sys p SIGTERM s = (k, s1)" by fastforce
  obtain w s2 where w: "waitpid sys p 0 s1 = (w, s2)" by fastforce
  obtain f s3 where f: "force_kill sys p s2 = (f, s3)" by fastforce
  obtain c s4 where c: "close_master_fd sys p s3 = (c, s4)" by fastforce
  show ?thesis
    unfolding linux_shutdown_pty_def shutdown_pty_def linux_kill_eq linux_waitpid_eq linux_force_kill_eq linux_close_eq
    by (cases k; cases w; cases f; cases c) (simp_all add: as_linux_def k w f c)
qed

lemma linux_set_env_eq:
  "linux_set_env sys p key val s =
     (case set_env sys p key val s of
        (Returns r, s') \<Rightarrow> (Returns (map_err recode r), s')
      | (f, s') \<Rightarrow> (f, s'))"
proof -
  obtain r s1 where r: "is_running sys p s = (r, s1)" by fastforce
  define line where "line = as_bytes (''export '' @ key @ ''='' @ val @ [CHR 0x0A])"
  obtain w s2 where w: "write_data sys p line (k_setenv sys key val s1) = (w, s2)" by fastforce
  show ?thesis
  proof (cases r)
    case (Ok running)
    show ?thesis
      unfolding linux_set_env_def set_env_def linux_is_running_eq linux_write_eq r Ok line_def [symmetric]
      by (cases running; cases w) (simp_all add: as_linux_def w)
  next
    case (Err e)
    show ?thesis
      unfolding linux_set_env_def set_env_def linux_is_running_eq r Err by (simp add: as_linux_def)
  qed
qed

text \<open>C33: the Linux and the macOS file agree in eight operations. On the same system calls \<open>write_data\<close>,
  \<open>read_data\<close>, \<open>kill_process\<close>, \<open>waitpid\<close>, \<open>close_master_fd\<close>, \<open>status\<close>, \<open>shutdown_pty\<close> and \<open>set_env\<close>
  give the same results and states on both platforms, up to the kinds the platform's errno values decode to.
  Others do not: \<open>resize\<close>, \<open>send_to_pty\<close>, \<open>change_shell\<close>, the creation and \<open>from_js_object\<close> differ.\<close>

theorem linux_agrees_with_macos:
  "linux_write_data sys p data s = as_linux (write_data sys p data s) \<and>
   linux_read_data sys p len s = as_linux (read_data sys p len s) \<and>
   linux_kill_process sys p sig s = as_linux (kill_process sys p sig s) \<and>
   linux_waitpid sys p opts s = as_linux (waitpid sys p opts s) \<and>
   linux_close_master_fd sys p s = as_linux (close_master_fd sys p s) \<and>
   linux_status sys p s = as_linux (pty_status sys p s) \<and>
   linux_shutdown_pty sys p s = as_linux (shutdown_pty sys p s) \<and>
   fst (linux_set_env sys p key val s) =
     (case fst (set_env sys p key val s) of Returns r \<Rightarrow> Returns (map_err recode r) | f \<Rightarrow> f) \<and>
   snd (linux_set_env sys p key val s) = snd (set_env sys p key val s)"
proof (intro conjI)
  show "linux_read_data sys p len s = as_linux (read_data sys p len s)"
    by (simp add: linux_read_data_def read_data_def split: prod.splits)
  show "linux_status sys p s = as_linux (pty_status sys p s)"
    by (simp add: linux_status_def pty_status_def split: prod.splits)
qed (simp_all add: linux_write_eq linux_kill_eq linux_waitpid_eq linux_close_eq linux_shutdown_eq
    linux_set_env_eq split: prod.splits flow.splits)

section \<open>Descriptors\<close>

text \<open>What the five calls do to a descriptor table \<open>fds\<close>.\<close>

definition new_fd :: "'a set \<Rightarrow> 'a \<Rightarrow> 'a set \<Rightarrow> bool" where
  "new_fd A fd B \<longleftrightarrow> fd \<notin> A \<and> B = insert fd A"

definition pty_fd_laws :: "'s pty_calls \<Rightarrow> ('s \<Rightarrow> i32 set) \<Rightarrow> bool" where
  "pty_fd_laws lx fds \<longleftrightarrow>
     (\<forall>fl s fd errno s'. l_posix_openpt lx fl s = ((fd, errno), s') \<longrightarrow>
        (if sint fd < 0 then fds s' = fds s else new_fd (fds s) fd (fds s'))) \<and>
     (\<forall>nm fl s fd errno s'. l_open lx nm fl s = ((fd, errno), s') \<longrightarrow>
        (if sint fd < 0 then fds s' = fds s else new_fd (fds s) fd (fds s'))) \<and>
     (\<forall>fd s. fds (snd (l_grantpt lx fd s)) = fds s) \<and>
     (\<forall>fd s. fds (snd (l_unlockpt lx fd s)) = fds s) \<and>
     (\<forall>fd s. fds (snd (l_ptsname lx fd s)) = fds s) \<and>
     (\<forall>s. fds (snd (l_drop_name lx s)) = fds s)"

lemma pty_fd_lawsD:
  assumes "pty_fd_laws lx fds"
  shows "l_posix_openpt lx fl s = ((fd, errno), s') \<Longrightarrow> sint fd < 0 \<Longrightarrow> fds s' = fds s"
    and "l_posix_openpt lx fl s = ((fd, errno), s') \<Longrightarrow> \<not> sint fd < 0 \<Longrightarrow> new_fd (fds s) fd (fds s')"
    and "l_open lx nm fl s = ((fd, errno), s') \<Longrightarrow> sint fd < 0 \<Longrightarrow> fds s' = fds s"
    and "l_open lx nm fl s = ((fd, errno), s') \<Longrightarrow> \<not> sint fd < 0 \<Longrightarrow> new_fd (fds s) fd (fds s')"
    and "l_grantpt lx fd s = (x, s') \<Longrightarrow> fds s' = fds s"
    and "l_unlockpt lx fd s = (x, s') \<Longrightarrow> fds s' = fds s"
    and "l_ptsname lx fd s = (y, s') \<Longrightarrow> fds s' = fds s"
    and "l_drop_name lx s = (z, s') \<Longrightarrow> fds s' = fds s"
  using assms unfolding pty_fd_laws_def by (metis snd_conv)+

lemma close_then_error_fds:
  "fd_laws sys fds \<Longrightarrow> close_then_error sys fd errno s = (e, s') \<Longrightarrow> fds s' = fds s - {fd}"
  using fd_lawsD(1) unfolding close_then_error_def by (fastforce split: prod.splits)

lemma linux_cleanup_fd_fds:
  assumes "fd_laws sys fds" "linux_cleanup_fd sys m sl errno s = (errno', s')"
  shows "fds s' = fds s - {m, sl}"
  using assms(2) fd_lawsD(1) [OF assms(1)]
  unfolding linux_cleanup_fd_def by (auto split: prod.splits)

lemma drop_name_fds:
  "pty_fd_laws lx fds \<Longrightarrow> drop_name lx r s = (x, s') \<Longrightarrow> fds s' = fds s"
  using pty_fd_lawsD(8) unfolding drop_name_def by (fastforce split: prod.splits)

lemma drop_name_ends: "drop_name lx r s = (Ends r', s') \<Longrightarrow> r' = r"
  by (auto simp: drop_name_def split: prod.splits if_splits)

lemma open_master_fds:
  assumes "fd_laws sys fds" "pty_fd_laws lx fds" "open_master sys lx s = (r, s')"
  shows "case r of Ok (m, nm) \<Rightarrow> new_fd (fds s) m (fds s') | Err e \<Rightarrow> fds s' = fds s"
proof -
  obtain m e1 s1 where o: "l_posix_openpt lx (or O_RDWR O_NOCTTY) s = ((m, e1), s1)" by (metis prod.exhaust)
  obtain g e2 s2 where g: "l_grantpt lx m s1 = ((g, e2), s2)" by (metis prod.exhaust)
  obtain u e3 s3 where u: "l_unlockpt lx m s2 = ((u, e3), s3)" by (metis prod.exhaust)
  obtain nm e4 s4 where n: "l_ptsname lx m s3 = ((nm, e4), s4)" by (metis prod.exhaust)
  have same: "fds s2 = fds s1" "fds s3 = fds s1" "fds s4 = fds s1"
    using pty_fd_lawsD(5) [OF assms(2) g] pty_fd_lawsD(6) [OF assms(2) u] pty_fd_lawsD(7) [OF assms(2) n] by simp_all
  show ?thesis
  proof (cases "sint m < 0")
    case True
    then show ?thesis using assms(3) pty_fd_lawsD(1) [OF assms(2) o] by (auto simp: open_master_def o)
  next
    case False
    have new: "new_fd (fds s) m (fds s1)" using pty_fd_lawsD(2) [OF assms(2) o False] .
    have closed: "fds s6 = fds s" if "close_then_error sys m e s5 = (x, s6)" "fds s5 = fds s1" for e s5 x s6
      using close_then_error_fds [OF assms(1) that(1)] that(2) new by (auto simp: new_fd_def)
    have "r = Ok (m, the nm) \<and> s' = s4 \<or> (\<exists>e s5 x. r = Err x \<and> close_then_error sys m e s5 = (x, s') \<and> fds s5 = fds s1)"
      using assms(3) False same unfolding open_master_def o g u n
      by (auto simp: g u n split: if_splits option.splits prod.splits)
    then show ?thesis using closed new same by auto
  qed
qed

text \<open>After the master is open: the slave, the fork, and the return of the parent.\<close>

lemma linux_new_process_slave:
  assumes "fd_laws sys fds" "pty_fd_laws lx fds" "new_fd A m (fds s1)" "valid_utf8 nm"
    and "open_master sys lx s = (Ok (m, nm), s1)" "linux_new_process sys lx s = (Ends (Returns r), s')"
  shows "case r of Ok p \<Rightarrow> new_fd A (master_fd p) (fds s') | Err e \<Rightarrow> fds s' = A"
proof -
  obtain sl e2 s2 where o: "l_open lx nm O_RDWR s1 = ((sl, e2), s2)" by (metis prod.exhaust)
  obtain k e3 s3 where k: "k_fork sys s2 = ((k, e3), s3)" by (metis prod.exhaust)
  have f: "fds s3 = fds s2" using fd_lawsD(8) [OF assms(1) k] .
  show ?thesis
  proof (cases "sint sl < 0")
    case True
    obtain x s4 where c: "close_then_error sys m e2 s2 = (x, s4)" by fastforce
    have "fds s4 = A" using close_then_error_fds [OF assms(1) c] pty_fd_lawsD(3) [OF assms(2) o True] assms(3)
      by (auto simp: new_fd_def)
    moreover have "drop_name lx (Returns (Err x)) s4 = (Ends (Returns r), s')"
      using assms(4-6) True by (simp add: linux_new_process_def o c)
    ultimately show ?thesis using drop_name_fds [OF assms(2)] drop_name_ends by fastforce
  next
    case False
    have new: "new_fd (fds s1) sl (fds s3)" using pty_fd_lawsD(4) [OF assms(2) o False] f by simp
    show ?thesis
    proof (cases "k = -1")
      case True
      obtain x s4 where c: "linux_cleanup_fd sys m sl e3 s3 = (x, s4)" by fastforce
      have "fds s4 = A" using linux_cleanup_fd_fds [OF assms(1) c] new assms(3) by (auto simp: new_fd_def)
      moreover have "drop_name lx (Returns (Err (linux_os_error x))) s4 = (Ends (Returns r), s')"
        using assms(4-6) False True k by (simp add: linux_new_process_def o c)
      ultimately show ?thesis using drop_name_fds [OF assms(2)] drop_name_ends by fastforce
    next
      case False
      have k0: "k \<noteq> 0" using assms(4-6) False \<open>\<not> sint sl < 0\<close> k by (auto simp: linux_new_process_def o)
      have "drop_name lx (Returns (Ok \<lparr>master_fd = m, pid = k, command = ''/bin/bash''\<rparr>)) (snd (k_close sys sl s3)) =
          (Ends (Returns r), s')"
        using assms(4-6) False \<open>\<not> sint sl < 0\<close> k k0 by (simp add: linux_new_process_def o)
      then have "r = Ok \<lparr>master_fd = m, pid = k, command = ''/bin/bash''\<rparr>" "fds s' = fds s3 - {sl}"
        using drop_name_ends [of lx] drop_name_fds [OF assms(2)] fds_after_close [OF assms(1), of sl s3]
        by (blast, metis)
      then show ?thesis using new assms(3) by (auto simp: new_fd_def)
    qed
  qed
qed

text \<open>C31: the descriptors of a new Linux process. When the C library and the kernel keep the laws of
  their descriptors, a creation that succeeds opens exactly the master it returns, and one that
  fails opens nothing, but for a slave name that is not UTF-8, which leaves the new master open.\<close>

theorem linux_creation_descriptors:
  assumes "fd_laws sys fds" "pty_fd_laws lx fds" "linux_new_process sys lx s = (Ends (Returns r), s')"
  shows "case r of
      Ok p \<Rightarrow> new_fd (fds s) (master_fd p) (fds s')
    | Err e \<Rightarrow> fds s' = fds s \<or>
        (e = Custom OtherKind ''Invalid PTY name'' \<and> (\<exists>m. new_fd (fds s) m (fds s')))"
proof -
  obtain q s1 where q: "open_master sys lx s = (q, s1)" by fastforce
  note opened = open_master_fds [OF assms(1,2) q]
  show ?thesis
  proof (cases q)
    case (Err e)
    then show ?thesis using assms(3) opened q by (auto simp: linux_new_process_def)
  next
    case (Ok mn)
    obtain m nm where mn: "mn = (m, nm)" by fastforce
    show ?thesis
    proof (cases "valid_utf8 nm")
      case True
      have "new_fd (fds s) m (fds s1)" using opened Ok mn by simp
      then have "case r of Ok p \<Rightarrow> new_fd (fds s) (master_fd p) (fds s') | Err e \<Rightarrow> fds s' = fds s"
        using linux_new_process_slave [OF assms(1,2) _ True _ assms(3)] q Ok mn by blast
      then show ?thesis by (cases r) auto
    next
      case False
      have d: "drop_name lx (Returns (Err (Custom OtherKind ''Invalid PTY name''))) s1 = (Ends (Returns r), s')"
        using False q Ok mn assms(3) by (simp add: linux_new_process_def)
      from drop_name_ends [OF d] drop_name_fds [OF assms(2) d] opened Ok mn
      show ?thesis by (auto split: result.splits)
    qed
  qed
qed

text \<open>A C library on the sample kernel, whose PTY names are fixed.\<close>

definition demo_calls :: "bytes \<Rightarrow> kern pty_calls" where
  "demo_calls nm =
     \<lparr>l_posix_openpt = (\<lambda>fl k. if knext k \<in> set (kfds k) \<or> sint (knext k) < 0 then ((-1, 24), k)
          else ((knext k, 0), k\<lparr>kfds := knext k # kfds k, knext := knext k + 1\<rparr>)),
      l_grantpt = (\<lambda>fd k. ((0, 0), k)),
      l_unlockpt = (\<lambda>fd k. ((0, 0), k)),
      l_ptsname = (\<lambda>fd k. ((Some nm, 0), k)),
      l_open = (\<lambda>nm fl k. if knext k \<in> set (kfds k) \<or> sint (knext k) < 0 then ((-1, 24), k)
          else ((knext k, 0), k\<lparr>kfds := knext k # kfds k, knext := knext k + 1\<rparr>)),
      l_drop_name = (\<lambda>k. (True, k))\<rparr>"

lemma demo_pty_fd_laws: "pty_fd_laws (demo_calls nm) (\<lambda>k. set (kfds k))"
  by (auto simp: pty_fd_laws_def demo_calls_def new_fd_def split: if_splits)

theorem linux_creation_descriptors_witness:
  "(\<exists>p k. linux_new_process demo_sys (demo_calls (as_bytes ''/dev/pts/3'')) demo_kern = (Ends (Returns (Ok p)), k) \<and>
      new_fd {5} (master_fd p) (set (kfds k))) \<and>
   (\<exists>e k. linux_new_process demo_sys (demo_calls [255]) demo_kern = (Ends (Returns (Err e)), k) \<and>
      set (kfds k) \<noteq> {5} \<and> e = Custom OtherKind ''Invalid PTY name'')"
proof
  have "valid_utf8 (as_bytes ''/dev/pts/3'')" by code_simp
  then obtain p k where pk:
    "linux_new_process demo_sys (demo_calls (as_bytes ''/dev/pts/3'')) demo_kern = (Ends (Returns (Ok p)), k)"
    by (simp add: linux_new_process_def open_master_def demo_calls_def demo_sys_def demo_kern_def drop_name_def
        split_def)
  then show "\<exists>p k. linux_new_process demo_sys (demo_calls (as_bytes ''/dev/pts/3'')) demo_kern =
      (Ends (Returns (Ok p)), k) \<and> new_fd {5} (master_fd p) (set (kfds k))"
    using linux_creation_descriptors [OF demo_fd_laws demo_pty_fd_laws pk] by (auto simp: demo_kern_def)
  have "\<not> valid_utf8 [255]" by code_simp
  then obtain e k where ek: "linux_new_process demo_sys (demo_calls [255]) demo_kern = (Ends (Returns (Err e)), k)"
    "set (kfds k) \<noteq> {5}"
    by (auto simp: linux_new_process_def open_master_def demo_calls_def demo_sys_def demo_kern_def drop_name_def
        split_def)
  then show "\<exists>e k. linux_new_process demo_sys (demo_calls [255]) demo_kern = (Ends (Returns (Err e)), k) \<and>
      set (kfds k) \<noteq> {5} \<and> e = Custom OtherKind ''Invalid PTY name''"
    using linux_creation_descriptors [OF demo_fd_laws demo_pty_fd_laws ek(1)] by (auto simp: demo_kern_def)
qed

section \<open>Changing the shell\<close>

text \<open>The part of the result of a change of shell that the path has a say in.\<close>

definition with_command :: "string \<Rightarrow> (unit, io_error) result ending \<times> pty_process \<times> 's
    \<Rightarrow> (unit, io_error) result ending \<times> pty_process \<times> 's" where
  "with_command sh out =
     (case out of (r, p, s) \<Rightarrow> (r, if r = Ends (Returns (Ok ())) then p\<lparr>command := sh\<rparr> else p, s))"

lemma linux_spawn_path:
  assumes "CHR 0x00 \<notin> set sh" "CHR 0x00 \<notin> set sh'"
  shows "linux_spawn_new_shell sys lx p sh' s = with_command sh' (linux_spawn_new_shell sys lx p sh s)"
proof -
  obtain c s1 where c: "linux_close_master_fd sys p s = (c, s1)" by fastforce
  obtain o1 s2 where o1: "open_new_pty sys lx s1 = (o1, s2)" by fastforce
  obtain k e s3 where k: "k_fork sys s2 = ((k, e), s3)" by (metis prod.exhaust)
  show ?thesis
  proof (cases "\<exists>m sl. c = Ok () \<and> o1 = Ends (Returns (Ok (m, sl)))")
    case True
    then obtain m sl where t: "c = Ok ()" "o1 = Ends (Returns (Ok (m, sl)))" by blast
    obtain x s4 where x: "linux_cleanup_fd sys m sl e s3 = (x, s4)" by fastforce
    show ?thesis using assms by (simp add: linux_spawn_new_shell_def with_command_def c o1 t k x Let_def)
  next
    case False
    then show ?thesis
      by (cases c; cases o1)
        (auto simp: linux_spawn_new_shell_def with_command_def c o1 split: flow.splits result.splits)
  qed
qed

text \<open>On Linux the path given to \<open>changeShell\<close> does not choose the shell. Two paths without a NUL byte give
  the same calls of the system, in the parent and in the child, which runs \<open>/bin/bash\<close>: they differ
  only in the \<open>command\<close> the process records.\<close>

theorem linux_change_shell_ignores_path:
  assumes "CHR 0x00 \<notin> set sh" "CHR 0x00 \<notin> set sh'"
  shows "linux_change_shell sys lx p sh' s = with_command sh' (linux_change_shell sys lx p sh s)"
proof -
  obtain k s1 where k: "linux_kill_process sys p SIGTERM s = (k, s1)" by fastforce
  obtain w s2 where w: "linux_waitpid sys p 0 s1 = (w, s2)" by fastforce
  show ?thesis
  proof (cases k)
    case (Ok u)
    then show ?thesis by (simp add: linux_change_shell_def k w linux_spawn_path [OF assms])
  next
    case (Err e)
    then show ?thesis by (simp add: linux_change_shell_def k with_command_def)
  qed
qed

theorem linux_change_shell_ignores_path_witness:
  "linux_change_shell demo_sys (demo_calls (as_bytes ''/dev/pts/3'')) demo_proc ''/bin/zsh'' demo_kern =
     with_command ''/bin/zsh''
       (linux_change_shell demo_sys (demo_calls (as_bytes ''/dev/pts/3'')) demo_proc ''/bin/sh'' demo_kern)"
  by (rule linux_change_shell_ignores_path) simp_all

section \<open>Objects and the table of descriptors\<close>

text \<open>A process written to a JavaScript object and read back. On macOS the process comes back with its
  descriptor, its id and its command. On Linux reading back always fails: the \<open>multiplexer\<close> property
  that \<open>into_js_object\<close> writes wraps no \<open>Multiplexer\<close>, which \<open>from_js_object\<close> unwraps.\<close>

theorem process_object_roundtrip:
  "from_js_object type_err (into_js_object p) = Ok p \<and>
   linux_from_js_object type_err (linux_into_js_object p) = Err (type_err ''multiplexer'') \<and>
   linux_pid type_err (linux_into_js_object p) = Err (type_err ''multiplexer'')"
  by (simp add: linux_from_js_object_into linux_pid_def)

text \<open>Nothing is ever sent through the table of descriptors of a process. No function adds a descriptor to
  it: a process that was created, or read from an object, has the empty table, with which macOS
  refuses every \<open>send_to_pty\<close> and Linux reports success; on neither is a system call made.\<close>

theorem send_to_pty_sends_nothing:
  "send_to_pty disp sys proc_mux_new data s =
     (Err (from_reason (disp (from_reason ''Session ID 0 not found''))), s) \<and>
   linux_send_to_pty m data s = (Ok (), s)"
  by (simp add: send_to_pty_new linux_send_to_pty_def linux_send_to_session_def)

end
