(* ===== verification/Paths.thy ===== *)
theory Paths
  imports Pty_Prelude
begin

text \<open>
  \<open>src/path/mod.rs\<close>: paths of the system and the expansion of a tilde and of references
  \<open>${VAR}\<close> in a path. What the functions ask of the system (the variables, the home directory of
  the \<open>dirs_next\<close> crate, the file system) is a record of answers. Texts that are not UTF-8 are
  given as \<open>to_string_lossy\<close> shows them, and a variable whose value is not is not set (\<open>env::var\<close>).
\<close>

section \<open>The system\<close>

record path_system =
  ps_home :: "string option"
  ps_temp :: string
  ps_var :: "string \<Rightarrow> string option"
  ps_exists :: "string \<Rightarrow> bool"
  ps_is_file :: "string \<Rightarrow> bool"
  ps_is_dir :: "string \<Rightarrow> bool"
  ps_canonicalize :: "string \<Rightarrow> (string, string) result"

definition get_home_dir :: "path_system \<Rightarrow> (string, napi_error) result" where
  "get_home_dir ps =
     (case ps_home ps of
        Some dir \<Rightarrow> Ok dir
      | None \<Rightarrow> Err (napi_err GenericFailure ''Home directory not found.''))"

definition get_temp_dir :: "path_system \<Rightarrow> (string, napi_error) result" where
  "get_temp_dir ps =
     (if ps_exists ps (ps_temp ps) then Ok (ps_temp ps)
      else Err (napi_err GenericFailure ''Temporary directory not found.''))"

text \<open>The error text is the \<open>Display\<close> of the failed call.\<close>

definition absolute_path :: "path_system \<Rightarrow> string \<Rightarrow> (string, napi_error) result" where
  "absolute_path ps path_str =
     map_err (\<lambda>e. from_reason (''Failed to convert to absolute path: '' @ e)) (ps_canonicalize ps path_str)"

definition path_exists :: "path_system \<Rightarrow> string \<Rightarrow> (bool, napi_error) result" where
  "path_exists ps path_str = Ok (ps_exists ps path_str)"

definition is_file :: "path_system \<Rightarrow> string \<Rightarrow> (bool, napi_error) result" where
  "is_file ps path_str = Ok (ps_is_file ps path_str)"

definition is_dir :: "path_system \<Rightarrow> string \<Rightarrow> (bool, napi_error) result" where
  "is_dir ps path_str = Ok (ps_is_dir ps path_str)"

section \<open>Joining\<close>

text \<open>
  \<open>PathBuf::push\<close> of the standard library on Unix: an absolute segment replaces the path, any
  other is put after a slash, unless the path is empty or ends with one.
\<close>

definition path_push :: "string \<Rightarrow> string \<Rightarrow> string" where
  "path_push path segment =
     (if segment \<noteq> [] \<and> hd segment = CHR ''/'' then segment
      else if path \<noteq> [] \<and> last path \<noteq> CHR ''/'' then path @ ''/'' @ segment
      else path @ segment)"

definition join_paths :: "string list \<Rightarrow> (string, napi_error) result" where
  "join_paths segments = Ok (fold (\<lambda>segment path. path_push path segment) segments [])"

section \<open>References\<close>

text \<open>
  The regular expression \<open>\$\{(\w+)\}\<close>. \<open>\w\<close> is an ASCII letter, digit or underscore, or a word
  character of Unicode beyond ASCII, whose length in bytes at the front of a text is \<open>uw\<close> (0 when
  there is none): the tables of the \<open>regex\<close> crate.
\<close>

definition ascii_word :: "char \<Rightarrow> bool" where
  "ascii_word c \<longleftrightarrow>
     (CHR ''a'' \<le> c \<and> c \<le> CHR ''z'') \<or> (CHR ''A'' \<le> c \<and> c \<le> CHR ''Z'') \<or>
     (CHR ''0'' \<le> c \<and> c \<le> CHR ''9'') \<or> c = CHR ''_''"

definition word_length :: "(string \<Rightarrow> nat) \<Rightarrow> string \<Rightarrow> nat" where
  "word_length uw s =
     (case s of
        [] \<Rightarrow> 0
      | c # cs \<Rightarrow> if ascii_word c then 1 else if of_char c < (128::nat) then 0 else uw s)"

text \<open>The longest run of word characters; a shorter one is never followed by a brace.\<close>

function word_run :: "(string \<Rightarrow> nat) \<Rightarrow> string \<Rightarrow> string \<times> string" where
  "word_run uw s =
     (if word_length uw s = 0 then ([], s)
      else case word_run uw (drop (word_length uw s) s) of
             (w, rest) \<Rightarrow> (take (word_length uw s) s @ w, rest))"
  by pat_completeness auto

termination
  by (relation "measure (\<lambda>(uw, s). length s)") (auto simp: word_length_def split: list.splits)

declare word_run.simps [simp del]

definition match_at :: "(string \<Rightarrow> nat) \<Rightarrow> string \<Rightarrow> (string \<times> string) option" where
  "match_at uw s =
     (if take 2 s = ''${'' then
        (case word_run uw (drop 2 s) of
           (w, rest) \<Rightarrow>
             (if w \<noteq> [] \<and> rest \<noteq> [] \<and> hd rest = CHR ''}'' then Some (w, tl rest) else None))
      else None)"

lemma word_run_split: "word_run uw s = (w, rest) \<Longrightarrow> s = w @ rest"
proof (induction uw s arbitrary: w rest rule: word_run.induct)
  case (1 uw s)
  show ?case
  proof (cases "word_length uw s = 0")
    case True
    with "1.prems" show ?thesis by (simp add: word_run.simps [of uw s])
  next
    case False
    obtain v r where v: "word_run uw (drop (word_length uw s) s) = (v, r)" by fastforce
    with "1.prems" False have "w = take (word_length uw s) s @ v" "rest = r"
      by (simp_all add: word_run.simps [of uw s])
    with "1.IH" [OF False v] show ?thesis
      by (metis append.assoc append_take_drop_id)
  qed
qed

text \<open>A match decomposes the text.\<close>

lemma match_at_split: "match_at uw s = Some (w, rest) \<Longrightarrow> s = ''${'' @ w @ ''}'' @ rest \<and> w \<noteq> []"
proof -
  assume m: "match_at uw s = Some (w, rest)"
  then obtain r where r: "take 2 s = ''${''" "word_run uw (drop 2 s) = (w, r)" "w \<noteq> []" "r \<noteq> []"
    "hd r = CHR ''}''" "rest = tl r"
    by (auto simp: match_at_def split: if_splits prod.splits)
  have "r = ''}'' @ rest" using r(4-6) by (cases r) auto
  with word_run_split [OF r(2)] r(1,3) show ?thesis
    by (metis append_take_drop_id)
qed

text \<open>The matches from the left, none overlapping another, by the names they capture.\<close>

function captures :: "(string \<Rightarrow> nat) \<Rightarrow> string \<Rightarrow> string list" where
  "captures uw s =
     (case match_at uw s of
        Some (w, rest) \<Rightarrow> w # captures uw rest
      | None \<Rightarrow> (case s of [] \<Rightarrow> [] | c # cs \<Rightarrow> captures uw cs))"
  by pat_completeness auto

termination
  by (relation "measure (\<lambda>(uw, s). length s)") (auto dest!: match_at_split)

declare captures.simps [simp del]

definition reference :: "string \<Rightarrow> string" where
  "reference w = ''${'' @ w @ ''}''"

text \<open>\<open>find\<close> and \<open>replace_range\<close>: the first occurrence, if any, is replaced.\<close>

fun replace_first :: "string \<Rightarrow> string \<Rightarrow> string \<Rightarrow> string" where
  "replace_first pat val [] = (if pat = [] then val else [])"
| "replace_first pat val (c # cs) =
     (if prefix pat (c # cs) then val @ drop (length pat) (c # cs)
      else c # replace_first pat val cs)"

section \<open>Expansion\<close>

definition set_captures :: "path_system \<Rightarrow> string list \<Rightarrow> (string \<times> string) list" where
  "set_captures ps ws =
     concat (map (\<lambda>w. case ps_var ps w of Some val \<Rightarrow> [(reference w, val)] | None \<Rightarrow> []) ws)"

definition expand_references :: "(string \<Rightarrow> nat) \<Rightarrow> path_system \<Rightarrow> string \<Rightarrow> (string, napi_error) result" where
  "expand_references uw ps path_str =
     (let path_str' = fold (\<lambda>(full_match, var_value). replace_first full_match var_value)
                        (set_captures ps (captures uw path_str)) path_str
      in if captures uw path_str' \<noteq> []
         then Err (napi_err GenericFailure ''Some environment variables were not set.'')
         else Ok path_str')"

definition expand_path :: "(string \<Rightarrow> nat) \<Rightarrow> path_system \<Rightarrow> string \<Rightarrow> (string, napi_error) result" where
  "expand_path uw ps path_str =
     (if prefix ''~'' path_str then
        (case ps_home ps of
           Some home \<Rightarrow> expand_references uw ps (replace_first ''~'' home path_str)
         | None \<Rightarrow> Err (napi_err GenericFailure ''Home directory not found for tilde expansion.''))
      else expand_references uw ps path_str)"

definition expand_path_napi :: "(string \<Rightarrow> nat) \<Rightarrow> path_system \<Rightarrow> string \<Rightarrow> (string, napi_error) result" where
  "expand_path_napi uw ps path = expand_path uw ps path"

section \<open>Default shell and PTY device\<close>

datatype target = Linux | Macos | Windows | OtherTarget

definition shell_or_fallback :: "path_system \<Rightarrow> string \<Rightarrow> string \<Rightarrow> string \<Rightarrow> (string, napi_error) result" where
  "shell_or_fallback ps variable fallback missing =
     (case ps_var ps variable of
        Some shell \<Rightarrow>
          (if ps_is_file ps shell then Ok shell
           else Err (from_reason (variable @ '' environment variable points to a non-file.'')))
      | None \<Rightarrow> (if ps_is_file ps fallback then Ok fallback else Err (from_reason missing)))"

definition get_default_shell_linux :: "path_system \<Rightarrow> (string, napi_error) result" where
  "get_default_shell_linux ps =
     shell_or_fallback ps ''SHELL'' ''/bin/bash'' ''Fallback shell /bin/bash does not exist.''"

definition get_default_shell_macos :: "path_system \<Rightarrow> (string, napi_error) result" where
  "get_default_shell_macos ps =
     shell_or_fallback ps ''SHELL'' ''/bin/bash'' ''Fallback shell /bin/bash does not exist.''"

definition power_shell :: string where
  "power_shell =
     join [CHR 0x5C] [''C:'', ''Windows'', ''System32'', ''WindowsPowerShell'', ''v1.0'', ''powershell.exe'']"

definition get_default_shell_windows :: "path_system \<Rightarrow> (string, napi_error) result" where
  "get_default_shell_windows ps =
     shell_or_fallback ps ''COMSPEC'' power_shell ''Fallback shell PowerShell does not exist.''"

definition get_default_shell :: "target \<Rightarrow> path_system \<Rightarrow> (string, napi_error) result" where
  "get_default_shell tg ps =
     (case tg of
        Linux \<Rightarrow> get_default_shell_linux ps
      | Macos \<Rightarrow> get_default_shell_macos ps
      | Windows \<Rightarrow> get_default_shell_windows ps
      | OtherTarget \<Rightarrow>
          Err (napi_err InvalidArg ''Unsupported operating system for getting default shell.''))"

definition base_or_error :: "path_system \<Rightarrow> string \<Rightarrow> (string, napi_error) result" where
  "base_or_error ps base =
     (if ps_exists ps base then Ok base else Err (from_reason ''PTY base directory does not exist.''))"

definition get_pty_device_path_linux :: "path_system \<Rightarrow> (string, napi_error) result" where
  "get_pty_device_path_linux ps = base_or_error ps ''/dev/pts''"

definition get_pty_device_path_macos :: "path_system \<Rightarrow> (string, napi_error) result" where
  "get_pty_device_path_macos ps = base_or_error ps ''/dev''"

definition get_pty_device_path_windows :: "path_system \<Rightarrow> (string, napi_error) result" where
  "get_pty_device_path_windows ps =
     (case ps_var ps ''COMSPEC'' of
        Some cmd \<Rightarrow>
          (if ps_is_file ps cmd then Ok cmd
           else Err (from_reason ''COMSPEC environment variable points to a non-file.''))
      | None \<Rightarrow> Err (from_reason ''COMSPEC environment variable not set.''))"

definition get_pty_device_path :: "target \<Rightarrow> path_system \<Rightarrow> (string, napi_error) result" where
  "get_pty_device_path tg ps =
     (case tg of
        Linux \<Rightarrow> get_pty_device_path_linux ps
      | Macos \<Rightarrow> get_pty_device_path_macos ps
      | Windows \<Rightarrow> get_pty_device_path_windows ps
      | OtherTarget \<Rightarrow> Err (napi_err InvalidArg ''Unsupported operating system for PTY device path.''))"

definition get_expanded_pty_device_path :: "target \<Rightarrow> path_system \<Rightarrow> (string, napi_error) result" where
  "get_expanded_pty_device_path tg ps = get_pty_device_path tg ps"

end
