(* ===== verification/Path_Laws.thy ===== *)
theory Path_Laws
  imports Paths
begin

text \<open>
  What the expansion of a path does to a template: text without a dollar sign, and references. The
  source replaces the references one after the other, each by a search from the start; the
  reference definition here substitutes all at once.
\<close>

datatype piece = Lit string | Ref string

fun piece_text :: "piece \<Rightarrow> string" where
  "piece_text (Lit l) = l"
| "piece_text (Ref w) = reference w"

definition template_text :: "piece list \<Rightarrow> string" where
  "template_text ps = concat (map piece_text ps)"

definition plain :: "string \<Rightarrow> bool" where
  "plain l \<longleftrightarrow> CHR ''$'' \<notin> set l"

definition name :: "string \<Rightarrow> bool" where
  "name w \<longleftrightarrow> w \<noteq> [] \<and> (\<forall>c \<in> set w. ascii_word c)"

fun well_formed :: "piece \<Rightarrow> bool" where
  "well_formed (Lit l) = plain l"
| "well_formed (Ref w) = name w"

fun refs :: "piece list \<Rightarrow> string list" where
  "refs [] = []"
| "refs (Lit l # ps) = refs ps"
| "refs (Ref w # ps) = w # refs ps"

definition substitute :: "(string \<Rightarrow> string option) \<Rightarrow> piece \<Rightarrow> piece" where
  "substitute env p =
     (case p of Lit l \<Rightarrow> Lit l | Ref w \<Rightarrow> (case env w of Some val \<Rightarrow> Lit val | None \<Rightarrow> Ref w))"

lemma substitute_simps [simp]:
  "substitute env (Lit l) = Lit l"
  "env w = Some val \<Longrightarrow> substitute env (Ref w) = Lit val"
  "env w = None \<Longrightarrow> substitute env (Ref w) = Ref w"
  by (simp_all add: substitute_def)

lemma set_captures_simps [simp]:
  "set_captures sys [] = []"
  "ps_var sys w = Some val \<Longrightarrow> set_captures sys (w # ws) = (reference w, val) # set_captures sys ws"
  "ps_var sys w = None \<Longrightarrow> set_captures sys (w # ws) = set_captures sys ws"
  by (simp_all add: set_captures_def)

lemma template_simps [simp]:
  "template_text [] = []" "template_text (p # ps) = piece_text p @ template_text ps"
  by (simp_all add: template_text_def)

section \<open>The matches of a template\<close>

lemma ascii_word_not [simp]:
  "\<not> ascii_word (CHR ''$'')" "\<not> ascii_word (CHR ''{'')" "\<not> ascii_word (CHR ''}'')"
  by (simp_all add: ascii_word_def less_eq_char_def)

lemma name_chars:
  assumes "name w"
  shows "CHR ''$'' \<notin> set w" "CHR ''}'' \<notin> set w"
  using assms by (auto simp: name_def)

lemma word_run_name:
  "\<forall>c \<in> set w. ascii_word c \<Longrightarrow> word_run uw (w @ CHR ''}'' # s) = (w, CHR ''}'' # s)"
proof (induction w)
  case Nil
  have "word_length uw (CHR ''}'' # s) = 0" by (simp add: word_length_def)
  then show ?case by (simp add: word_run.simps [of uw "CHR ''}'' # s"])
next
  case (Cons c w)
  then have "word_length uw (c # w @ CHR ''}'' # s) = 1" by (simp add: word_length_def)
  then show ?case using Cons by (simp add: word_run.simps [of uw "c # w @ CHR ''}'' # s"])
qed

lemma match_at_not_dollar: "c \<noteq> CHR ''$'' \<Longrightarrow> match_at uw (c # s) = None"
  by (simp add: match_at_def)

lemma match_at_reference: "name w \<Longrightarrow> match_at uw (reference w @ s) = Some (w, s)"
  by (simp add: match_at_def reference_def name_def word_run_name)

lemma captures_plain: "plain l \<Longrightarrow> captures uw (l @ s) = captures uw s"
proof (induction l)
  case (Cons c l)
  then have "c \<noteq> CHR ''$''" "plain l" by (auto simp: plain_def)
  then show ?case
    using Cons.IH by (simp add: captures.simps [of uw "c # l @ s"] match_at_not_dollar)
qed simp

lemma captures_Nil [simp]: "captures uw [] = []"
  by (subst captures.simps) (simp add: match_at_def)

lemma captures_reference: "name w \<Longrightarrow> captures uw (reference w @ s) = w # captures uw s"
  by (subst captures.simps) (simp add: match_at_reference)

lemma captures_template: "\<forall>p \<in> set ps. well_formed p \<Longrightarrow> captures uw (template_text ps) = refs ps"
  by (induction ps rule: refs.induct) (auto simp: captures_plain captures_reference)

section \<open>One replacement in a template\<close>

lemma replace_first_plain:
  "plain l \<Longrightarrow> replace_first (reference v) val (l @ s) = l @ replace_first (reference v) val s"
  by (induction l) (auto simp: plain_def reference_def)

lemma replace_first_same: "replace_first (reference v) val (reference v @ s) = val @ s"
proof -
  have "prefix (reference v) (reference v @ s)" by simp
  then show ?thesis by (simp add: reference_def)
qed

lemma braced_prefix_eq:
  "CHR ''}'' \<notin> set u \<Longrightarrow> CHR ''}'' \<notin> set v \<Longrightarrow> prefix (v @ ''}'') (u @ CHR ''}'' # s) \<Longrightarrow> u = v"
proof (induction v arbitrary: u)
  case Nil
  then show ?case by (cases u) auto
next
  case (Cons c v)
  then show ?case by (cases u) auto
qed

lemma replace_first_other:
  assumes "name u" "name v" "u \<noteq> v"
  shows "replace_first (reference v) val (reference u @ s) = reference u @ replace_first (reference v) val s"
proof -
  have "\<not> prefix (reference v) (reference u @ s)"
    using braced_prefix_eq [of u v s] assms name_chars(2) by (auto simp: reference_def)
  then have "replace_first (reference v) val (reference u @ s) =
      CHR ''$'' # replace_first (reference v) val ((''{'' @ u @ ''}'') @ s)"
    by (simp add: reference_def)
  moreover have "plain (''{'' @ u @ ''}'')" using name_chars(1) [OF assms(1)] by (simp add: plain_def)
  ultimately show ?thesis
    using replace_first_plain [of "''{'' @ u @ ''}''" v val s] by (simp add: reference_def)
qed

fun replace_ref :: "string \<Rightarrow> string \<Rightarrow> piece list \<Rightarrow> piece list" where
  "replace_ref v val [] = []"
| "replace_ref v val (Lit l # ps) = Lit l # replace_ref v val ps"
| "replace_ref v val (Ref w # ps) = (if w = v then Lit val # ps else Ref w # replace_ref v val ps)"

lemma replace_first_template:
  assumes "name v" "\<forall>p \<in> set ps. well_formed p"
  shows "replace_first (reference v) val (template_text ps) = template_text (replace_ref v val ps)"
  using assms
proof (induction v val ps rule: replace_ref.induct)
  case (1 v val)
  then show ?case by (simp add: reference_def)
next
  case (2 v val l ps)
  then show ?case by (simp add: replace_first_plain)
next
  case (3 v val w ps)
  then show ?case by (auto simp: replace_first_same replace_first_other)
qed

lemma replace_ref_well_formed:
  "plain val \<Longrightarrow> \<forall>p \<in> set ps. well_formed p \<Longrightarrow> \<forall>p \<in> set (replace_ref v val ps). well_formed p"
  by (induction v val ps rule: replace_ref.induct) auto

section \<open>All replacements\<close>

text \<open>
  After the references of a first part are dealt with, those that are set are gone and the others
  are passed over by every later search.
\<close>

lemma replace_ref_done:
  assumes "env v = Some val"
  shows "replace_ref v val (map (substitute env) ps @ Ref v # qs) = map (substitute env) ps @ Lit val # qs"
  using assms
proof (induction ps)
  case (Cons p ps)
  then show ?case by (cases p) (auto simp: substitute_def split: option.splits)
qed simp

lemma replace_all_template:
  assumes "\<forall>p \<in> set (ps @ qs). well_formed p" "\<forall>v val. ps_var sys v = Some val \<longrightarrow> plain val"
  shows "fold (\<lambda>(full_match, var_value). replace_first full_match var_value)
      (set_captures sys (refs qs)) (template_text (map (substitute (ps_var sys)) ps @ qs)) =
    template_text (map (substitute (ps_var sys)) (ps @ qs))"
  using assms(1)
proof (induction qs arbitrary: ps rule: refs.induct)
  case 1
  then show ?case by (simp add: set_captures_def)
next
  case (2 l qs)
  from "2.IH" [of "ps @ [Lit l]"] "2.prems" show ?case by simp
next
  case (3 w qs)
  have wf: "\<forall>p \<in> set (map (substitute (ps_var sys)) ps @ Ref w # qs). well_formed p"
    using "3.prems" assms(2) by (auto simp: substitute_def split: piece.splits option.splits)
  show ?case
  proof (cases "ps_var sys w")
    case None
    with "3.IH" [of "ps @ [Ref w]"] "3.prems" show ?thesis by simp
  next
    case (Some val)
    have "replace_first (reference w) val (template_text (map (substitute (ps_var sys)) ps @ Ref w # qs)) =
        template_text (map (substitute (ps_var sys)) ps @ Lit val # qs)"
      using replace_first_template [OF _ wf, of w val] "3.prems"
      by (simp add: replace_ref_done [where env = "ps_var sys", OF Some])
    with Some "3.IH" [of "ps @ [Ref w]"] "3.prems" show ?thesis by simp
  qed
qed

lemma substituted_well_formed:
  assumes "\<forall>p \<in> set ps. well_formed p" "\<forall>v val. env v = Some val \<longrightarrow> plain val"
  shows "\<forall>p \<in> set (map (substitute env) ps). well_formed p"
  using assms by (auto simp: substitute_def split: piece.splits option.splits)

lemma refs_substitute: "refs (map (substitute env) ps) = filter (\<lambda>w. env w = None) (refs ps)"
proof (induction ps)
  case (Cons p ps)
  then show ?case by (cases p) (auto simp: substitute_def split: option.splits)
qed simp

lemma expand_references_template:
  assumes "\<forall>p \<in> set ps. well_formed p" "\<forall>v val. ps_var sys v = Some val \<longrightarrow> plain val"
  shows "expand_references uw sys (template_text ps) =
    (if \<forall>w \<in> set (refs ps). ps_var sys w \<noteq> None
     then Ok (template_text (map (substitute (ps_var sys)) ps))
     else Err (napi_err GenericFailure ''Some environment variables were not set.''))"
proof -
  have "captures uw (template_text (map (substitute (ps_var sys)) ps)) =
      filter (\<lambda>w. ps_var sys w = None) (refs ps)"
    using captures_template [OF substituted_well_formed [OF assms]] by (simp add: refs_substitute)
  then show ?thesis
    using replace_all_template [of "[]" ps sys] assms captures_template [OF assms(1), of uw]
    by (auto simp: expand_references_def filter_empty_conv)
qed

section \<open>Results\<close>

text \<open>A text that expands has no reference left, so expanding it again changes nothing.\<close>

lemma expand_references_none: "captures uw s = [] \<Longrightarrow> expand_references uw sys s = Ok s"
  by (simp add: expand_references_def set_captures_def)

lemma expand_references_ok: "expand_references uw sys s = Ok t \<Longrightarrow> captures uw t = []"
  by (auto simp: expand_references_def Let_def split: if_splits)

lemma expand_path_ok: "expand_path uw sys s = Ok t \<Longrightarrow> captures uw t = []"
  by (auto simp: expand_path_def dest: expand_references_ok split: if_splits option.splits)

lemma expand_path_again:
  "expand_path uw sys s = Ok t \<Longrightarrow> \<not> prefix ''~'' t \<Longrightarrow> expand_path uw sys' t = Ok t"
  by (simp add: expand_path_def [of uw sys' t] expand_references_none [OF expand_path_ok])

text \<open>Joining relative segments puts slashes between them.\<close>

lemma fold_push_relative:
  assumes "\<forall>s \<in> set segs. s \<noteq> [] \<and> hd s \<noteq> CHR ''/'' \<and> last s \<noteq> CHR ''/''"
    "path \<noteq> []" "last path \<noteq> CHR ''/''"
  shows "fold (\<lambda>segment path. path_push path segment) segs path = join ''/'' (path # segs)"
  using assms
proof (induction segs arbitrary: path)
  case (Cons s segs)
  have "fold (\<lambda>segment path. path_push path segment) segs (path @ ''/'' @ s) = join ''/'' ((path @ ''/'' @ s) # segs)"
    using Cons.prems by (intro Cons.IH) auto
  then show ?case using Cons.prems by (cases segs) (auto simp: path_push_def)
qed simp

lemma join_paths_absolute:
  assumes "hd s = CHR ''/''" "s \<noteq> []"
  shows "join_paths (xs @ s # ys) = join_paths (s # ys)"
  using assms by (simp add: join_paths_def path_push_def)

lemma join_paths_relative:
  assumes "\<forall>s \<in> set segs. s \<noteq> [] \<and> hd s \<noteq> CHR ''/'' \<and> last s \<noteq> CHR ''/''"
  shows "join_paths segs = Ok (join ''/'' segs)"
proof (cases segs)
  case (Cons s ss)
  with fold_push_relative [of ss s] assms show ?thesis by (auto simp: join_paths_def path_push_def)
qed (simp add: join_paths_def)

end
