(* ===== verification/Vdom_State.thy ===== *)
theory Vdom_State
  imports Decimal
begin

text \<open>
  \<open>src/virtual_dom/state.rs\<close>: a value with listeners. A listener is a thread-safe function of
  JavaScript: \<open>call cb text s\<close> queues the text for it and gives the status, \<open>None\<close> for
  \<open>Status::Ok\<close> and the \<open>Debug\<close> text of any other. The conversion of a JavaScript value to a text
  is done by N-API: the operations take its result, and \<open>disp\<close> is the \<open>Display\<close> of an N-API error.
  The identifiers wrap at 32 bits, as in a release build.
\<close>

record 'cb vstate =
  st_value :: "string option"
  st_listeners :: "(u32, 'cb) fmap"
  st_next_id :: u32

type_synonym ('cb, 's) call = "'cb \<Rightarrow> string \<Rightarrow> 's \<Rightarrow> string option \<times> 's"

definition serialization_error :: "(napi_error \<Rightarrow> string) \<Rightarrow> napi_error \<Rightarrow> napi_error" where
  "serialization_error disp e = napi_err GenericFailure (''Serialization Error: '' @ disp e)"

definition state_new ::
  "(napi_error \<Rightarrow> string) \<Rightarrow> (string, napi_error) result \<Rightarrow> ('cb vstate, napi_error) result" where
  "state_new disp initial =
     map_err (serialization_error disp)
       (map_ok (\<lambda>t. \<lparr>st_value = Some t, st_listeners = fmempty, st_next_id = 0\<rparr>) initial)"

fun call_all :: "('cb, 's) call \<Rightarrow> 'cb list \<Rightarrow> string \<Rightarrow> 's \<Rightarrow> (unit, napi_error) result \<times> 's" where
  "call_all call [] text s = (Ok (), s)"
| "call_all call (cb # cbs) text s =
     (case call cb text s of
        (None, s1) \<Rightarrow> call_all call cbs text s1
      | (Some status, s1) \<Rightarrow>
          (Err (napi_err GenericFailure (''Failed to call threadsafe function: '' @ status)), s1))"

definition not_set :: napi_error where
  "not_set = napi_err GenericFailure ''State value is not set.''"

definition notify_listeners ::
  "(u32 \<Rightarrow> nat) \<Rightarrow> ('cb, 's) call \<Rightarrow> 'cb vstate \<Rightarrow> 's \<Rightarrow> (unit, napi_error) result \<times> 's" where
  "notify_listeners h call st s =
     (case st_value st of
        Some text \<Rightarrow> call_all call (map snd (entries_in h (st_listeners st))) text s
      | None \<Rightarrow> (Err not_set, s))"

definition state_set ::
  "(napi_error \<Rightarrow> string) \<Rightarrow> (u32 \<Rightarrow> nat) \<Rightarrow> ('cb, 's) call \<Rightarrow> (string, napi_error) result
     \<Rightarrow> 'cb vstate \<Rightarrow> 's \<Rightarrow> (unit, napi_error) result \<times> 'cb vstate \<times> 's" where
  "state_set disp h call new_value st s =
     (case new_value of
        Err e \<Rightarrow> (Err (serialization_error disp e), st, s)
      | Ok text \<Rightarrow>
          (let st1 = st\<lparr>st_value := Some text\<rparr>
           in case notify_listeners h call st1 s of (r, s1) \<Rightarrow> (r, st1, s1)))"

definition state_get :: "'cb vstate \<Rightarrow> (string, napi_error) result" where
  "state_get st = (case st_value st of Some v \<Rightarrow> Ok v | None \<Rightarrow> Err not_set)"

text \<open>The argument is the result of making the callback thread-safe.\<close>

definition state_subscribe ::
  "('cb, napi_error) result \<Rightarrow> 'cb vstate \<Rightarrow> (u32, napi_error) result \<times> 'cb vstate" where
  "state_subscribe tsfn st =
     (case tsfn of
        Err e \<Rightarrow> (Err e, st)
      | Ok cb \<Rightarrow>
          (let current_id = st_next_id st
           in (Ok current_id,
               st\<lparr>st_next_id := current_id + 1,
                  st_listeners := fmupd current_id cb (st_listeners st)\<rparr>)))"

definition state_unsubscribe :: "u32 \<Rightarrow> 'cb vstate \<Rightarrow> (unit, napi_error) result \<times> 'cb vstate" where
  "state_unsubscribe listener_id st =
     (Ok (), st\<lparr>st_listeners := fmdrop listener_id (st_listeners st)\<rparr>)"

text \<open>The code and the modifiers of the event object, or the error of reading them.\<close>

definition state_handle_key_event ::
  "(u32 \<Rightarrow> nat) \<Rightarrow> ('cb, 's) call \<Rightarrow> (string, napi_error) result \<Rightarrow> (i32, napi_error) result
     \<Rightarrow> 'cb vstate \<Rightarrow> 's \<Rightarrow> (unit, napi_error) result \<times> 'cb vstate \<times> 's" where
  "state_handle_key_event h call code modifiers st s =
     (case code of
        Err e \<Rightarrow> (Err e, st, s)
      | Ok code_str \<Rightarrow>
          (case modifiers of
             Err e \<Rightarrow> (Err e, st, s)
           | Ok mods \<Rightarrow>
               (let st1 = st\<lparr>st_value :=
                      Some (''Key pressed: '' @ code_str @ '', Modifiers: '' @ show_i32 mods)\<rparr>
                in case notify_listeners h call st1 s of (r, s1) \<Rightarrow> (r, st1, s1))))"

section \<open>Histories\<close>

text \<open>
  What each listener was called with is a log of pairs. \<open>log_call\<close> is a call that is always taken.
  In a history a listener can also refuse calls, from the moment its environment closes it: \<open>SRefuse\<close>
  sets the status its calls have from then on, \<open>None\<close> for \<open>Status::Ok\<close>.
\<close>

datatype 'cb state_op = SSet string | SSubscribe 'cb | SUnsubscribe u32 | SKey string i32
  | SRefuse 'cb "string option"

definition log_call :: "('cb, ('cb \<times> string) list) call" where
  "log_call cb text s = (None, s @ [(cb, text)])"

type_synonym 'cb listening = "('cb \<Rightarrow> string option) \<times> ('cb \<times> string) list"

fun listen_call :: "('cb, 'cb listening) call" where
  "listen_call cb text (refusing, lg) =
     (case refusing cb of
        None \<Rightarrow> (None, (refusing, lg @ [(cb, text)]))
      | Some status \<Rightarrow> (Some status, (refusing, lg)))"

fun state_exec :: "(u32 \<Rightarrow> nat) \<Rightarrow> 'cb state_op \<Rightarrow> 'cb vstate \<times> 'cb listening \<Rightarrow> 'cb vstate \<times> 'cb listening" where
  "state_exec h (SSet v) (st, c) = snd (state_set err_reason h listen_call (Ok v) st c)"
| "state_exec h (SSubscribe cb) (st, c) = (snd (state_subscribe (Ok cb) st), c)"
| "state_exec h (SUnsubscribe k) (st, c) = (snd (state_unsubscribe k st), c)"
| "state_exec h (SKey code m) (st, c) = snd (state_handle_key_event h listen_call (Ok code) (Ok m) st c)"
| "state_exec h (SRefuse cb status) (st, (refusing, lg)) = (st, (refusing(cb := status), lg))"

text \<open>The value an operation sets.\<close>

fun set_value :: "'cb state_op \<Rightarrow> string option" where
  "set_value (SSet v) = Some v"
| "set_value (SKey c m) = Some (''Key pressed: '' @ c @ '', Modifiers: '' @ show_i32 m)"
| "set_value _ = None"

definition values_set :: "'cb state_op list \<Rightarrow> string list" where
  "values_set ops = concat (map (\<lambda>op. case set_value op of Some v \<Rightarrow> [v] | None \<Rightarrow> []) ops)"

definition received :: "'cb \<Rightarrow> ('cb \<times> string) list \<Rightarrow> string list" where
  "received cb lg = map snd (filter (\<lambda>e. fst e = cb) lg)"

lemma call_all_log: "call_all log_call cbs text lg = (Ok (), lg @ map (\<lambda>cb. (cb, text)) cbs)"
  by (induction cbs arbitrary: lg) (simp_all add: log_call_def)

text \<open>A notification calls the listeners in order up to the first that refuses.\<close>

definition told :: "('cb \<Rightarrow> string option) \<Rightarrow> 'cb list \<Rightarrow> 'cb list" where
  "told refusing cbs = takeWhile (\<lambda>cb. refusing cb = None) cbs"

lemma call_all_listen:
  "snd (call_all listen_call cbs text (refusing, lg)) = (refusing, lg @ map (\<lambda>cb. (cb, text)) (told refusing cbs))"
  by (induction cbs arbitrary: lg) (simp_all add: told_def split: option.split)

lemma state_exec_value:
  "set_value op = Some v \<Longrightarrow> state_exec h op (st, (refusing, lg)) =
     (st\<lparr>st_value := Some v\<rparr>, (refusing, lg @ map (\<lambda>cb. (cb, v)) (told refusing (map snd (entries_in h (st_listeners st))))))"
  using call_all_listen [of "map snd (entries_in h (st_listeners st))" v refusing lg]
  by (cases op) (auto simp: state_set_def state_handle_key_event_def notify_listeners_def split: prod.splits)

lemma received_append [simp]: "received cb (a @ b) = received cb a @ received cb b"
  by (simp add: received_def)

text \<open>A callback registered once is called once by a notification.\<close>

lemma filter_eq_single: "distinct xs \<Longrightarrow> k \<in> set xs \<Longrightarrow> filter (\<lambda>x. x = k) xs = [k]"
  by (induction xs) (auto simp: filter_empty_conv)

text \<open>The listener \<open>k\<close> is reached when no listener visited up to it refuses.\<close>

definition visited_to :: "(u32 \<Rightarrow> nat) \<Rightarrow> u32 \<Rightarrow> 'cb vstate \<Rightarrow> u32 list" where
  "visited_to h k st = takeWhile (\<lambda>j. j \<noteq> k) (keys_in h (st_listeners st)) @ [k]"

definition reaches :: "(u32 \<Rightarrow> nat) \<Rightarrow> u32 \<Rightarrow> 'cb vstate \<Rightarrow> ('cb \<Rightarrow> string option) \<Rightarrow> bool" where
  "reaches h k st refusing \<longleftrightarrow>
     list_all (\<lambda>j. refusing (the (fmlookup (st_listeners st) j)) = None) (visited_to h k st)"

lemma filter_takeWhile:
  assumes "distinct ks" "k \<in> set ks"
  shows "filter (\<lambda>x. x = k) (takeWhile P ks) = (if list_all P (takeWhile (\<lambda>j. j \<noteq> k) ks @ [k]) then [k] else [])"
  using assms
proof (induction ks)
  case (Cons x xs)
  show ?case
  proof (cases "x = k")
    case True
    then have "filter (\<lambda>y. y = k) (takeWhile P xs) = []"
      using Cons.prems(1) by (auto simp: filter_empty_conv dest: set_takeWhileD)
    then show ?thesis using True by simp
  next
    case False
    then show ?thesis using Cons by simp
  qed
qed simp

lemma received_entries:
  assumes "fmlookup (st_listeners st) k = Some cb" "\<And>j. fmlookup (st_listeners st) j = Some cb \<Longrightarrow> j = k"
  shows "received cb (map (\<lambda>cb'. (cb', v)) (told refusing (map snd (entries_in h (st_listeners st))))) =
    (if reaches h k st refusing then [v] else [])"
proof -
  let ?m = "st_listeners st"
  let ?P = "\<lambda>j. refusing (the (fmlookup ?m j)) = None"
  have k: "k \<in> set (keys_in h ?m)" unfolding in_keys_in_iff using assms(1) by simp
  have "told refusing (map snd (entries_in h ?m)) = map (\<lambda>j. the (fmlookup ?m j)) (takeWhile ?P (keys_in h ?m))"
    by (simp add: told_def entries_in_def takeWhile_map comp_def)
  moreover have "filter (\<lambda>x. the (fmlookup ?m x) = cb) (takeWhile ?P (keys_in h ?m)) =
      filter (\<lambda>x. x = k) (takeWhile ?P (keys_in h ?m))"
  proof (rule filter_cong [OF refl])
    fix x assume "x \<in> set (takeWhile ?P (keys_in h ?m))"
    then have "x \<in> set (keys_in h ?m)" by (meson set_takeWhileD)
    then obtain cb' where cb': "fmlookup ?m x = Some cb'" unfolding in_keys_in_iff by blast
    show "(the (fmlookup ?m x) = cb) = (x = k)"
      using assms(1) assms(2) [of x] cb' by auto
  qed
  ultimately show ?thesis
    using filter_takeWhile [OF distinct_keys_in k, of ?P]
    by (simp add: received_def filter_map comp_def reaches_def visited_to_def)
qed

text \<open>The values a history sets while the listener \<open>k\<close> is reached.\<close>

fun due :: "(u32 \<Rightarrow> nat) \<Rightarrow> u32 \<Rightarrow> 'cb state_op list \<Rightarrow> 'cb vstate \<times> 'cb listening \<Rightarrow> string list" where
  "due h k [] c = []"
| "due h k (op # ops) c =
     (case set_value op of
        Some v \<Rightarrow> if reaches h k (fst c) (fst (snd c)) then [v] else []
      | None \<Rightarrow> []) @ due h k ops (state_exec h op c)"

text \<open>
  The identifiers in use are below the next one, and there is room for \<open>n\<close> more before they wrap.
\<close>

definition ids_room :: "nat \<Rightarrow> 'cb vstate \<Rightarrow> bool" where
  "ids_room n st \<longleftrightarrow> unat (st_next_id st) + n < 2 ^ 32 \<and>
     (\<forall>k. fmlookup (st_listeners st) k \<noteq> None \<longrightarrow> unat k < unat (st_next_id st))"

fun subscriptions :: "'cb state_op list \<Rightarrow> nat" where
  "subscriptions [] = 0"
| "subscriptions (SSubscribe cb # ops) = Suc (subscriptions ops)"
| "subscriptions (_ # ops) = subscriptions ops"

lemma ids_room_subscribe:
  assumes "ids_room (Suc n) st" "state_subscribe (Ok cb) st = (r, st')"
  shows "ids_room n st' \<and> r = Ok (st_next_id st) \<and> fmlookup (st_listeners st) (st_next_id st) = None"
proof -
  have n: "unat (st_next_id st + 1) = Suc (unat (st_next_id st))"
    using assms(1) by (simp add: ids_room_def unat_add_lem [THEN iffD1] unat_word_ariths)
  have st': "st' = st\<lparr>st_next_id := st_next_id st + 1,
      st_listeners := fmupd (st_next_id st) cb (st_listeners st)\<rparr>" and r: "r = Ok (st_next_id st)"
    using assms(2) by (simp_all add: state_subscribe_def Let_def)
  have below: "unat k < unat (st_next_id st)" if "fmlookup (st_listeners st) k \<noteq> None" for k
    using assms(1) that by (simp add: ids_room_def)
  have "unat k < Suc (unat (st_next_id st))" if "fmlookup (st_listeners st') k \<noteq> None" for k
    using that below [of k] by (cases "k = st_next_id st") (auto simp: st')
  then have "ids_room n st'" using assms(1) n by (simp add: ids_room_def st')
  moreover have "fmlookup (st_listeners st) (st_next_id st) = None"
    using below [of "st_next_id st"] by (metis less_irrefl)
  ultimately show ?thesis using r by simp
qed

lemma ids_room_less: "ids_room n st \<Longrightarrow> m \<le> n \<Longrightarrow> ids_room m st"
  by (auto simp: ids_room_def)

text \<open>
  Between its subscription and its cancellation a listener is called exactly with the values set while
  it is reached, in order.
\<close>

definition registered_once :: "u32 \<Rightarrow> 'cb \<Rightarrow> 'cb vstate \<Rightarrow> bool" where
  "registered_once k cb st \<longleftrightarrow> fmlookup (st_listeners st) k = Some cb \<and>
     (\<forall>j. fmlookup (st_listeners st) j = Some cb \<longrightarrow> j = k)"

lemma registered_once_subscribe:
  assumes "registered_once k cb st" "state_subscribe (Ok cb') st = (r, st')" "cb' \<noteq> cb"
    and "fmlookup (st_listeners st) (st_next_id st) = None"
  shows "registered_once k cb st'"
proof -
  have l: "fmlookup (st_listeners st') j = (if j = st_next_id st then Some cb' else fmlookup (st_listeners st) j)" for j
    using assms(2) by (auto simp: state_subscribe_def Let_def)
  have k: "fmlookup (st_listeners st) k = Some cb" using assms(1) by (simp add: registered_once_def)
  then have "k \<noteq> st_next_id st" using assms(4) by auto
  then have "fmlookup (st_listeners st') k = Some cb" using k by (simp add: l)
  moreover have "j = k" if j: "fmlookup (st_listeners st') j = Some cb" for j
  proof -
    have "fmlookup (st_listeners st) j = Some cb" using j assms(3) by (simp add: l split: if_splits)
    then show ?thesis using assms(1) unfolding registered_once_def by blast
  qed
  ultimately show ?thesis unfolding registered_once_def by blast
qed

lemma values_set_Cons:
  "values_set (op # ops) = (case set_value op of Some v \<Rightarrow> [v] | None \<Rightarrow> []) @ values_set ops"
  by (simp add: values_set_def)

lemma due_subseq: "subseq (due h k ops c) (values_set ops)"
proof (induction ops arbitrary: c)
  case (Cons op ops)
  show ?case
    by (cases "set_value op") (auto simp: values_set_Cons Cons intro: list_emb_Cons)
qed (simp add: values_set_def)

lemma due_all:
  "(\<And>cb. refusing cb = None) \<Longrightarrow> (\<And>cb status. SRefuse cb (Some status) \<notin> set ops) \<Longrightarrow>
   due h k ops (st, (refusing, lg)) = values_set ops"
proof (induction ops arbitrary: st refusing lg)
  case (Cons op ops)
  have r: "reaches h k st refusing" using Cons.prems(1) by (simp add: reaches_def list_all_iff)
  have keep: "(\<forall>cb. fst (snd (state_exec h op (st, (refusing, lg)))) cb = None)"
  proof (cases "set_value op")
    case None
    have "status = None" if "op = SRefuse cb status" for cb status
      using Cons.prems(2) [of cb] that by (cases status) auto
    with None show ?thesis using Cons.prems(1) by (cases op) auto
  qed (use Cons.prems(1) in \<open>simp add: state_exec_value\<close>)
  obtain st' f' lg' where c: "state_exec h op (st, (refusing, lg)) = (st', (f', lg'))" by (metis prod.collapse)
  have "due h k ops (st', (f', lg')) = values_set ops"
    by (rule Cons.IH) (use keep c Cons.prems(2) in auto)
  then show ?case using r c by (simp add: values_set_Cons split: option.split)
qed (simp add: values_set_def)

lemma history_received:
  assumes "registered_once k cb st" "ids_room (subscriptions ops) st"
    and "SUnsubscribe k \<notin> set ops" "SSubscribe cb \<notin> set ops"
  shows "received cb (snd (snd (fold (state_exec h) ops (st, (refusing, lg))))) =
    received cb lg @ due h k ops (st, (refusing, lg))"
  using assms
proof (induction ops arbitrary: st refusing lg)
  case (Cons op ops)
  show ?case
  proof (cases "set_value op")
    case (Some v)
    have got: "received cb (map (\<lambda>cb'. (cb', v)) (told refusing (map snd (entries_in h (st_listeners st))))) =
        (if reaches h k st refusing then [v] else [])"
      using Cons.prems(1) by (intro received_entries) (auto simp: registered_once_def)
    have "subscriptions (op # ops) = subscriptions ops" using Some by (cases op) auto
    then have "registered_once k cb (st\<lparr>st_value := Some v\<rparr>)" "ids_room (subscriptions ops) (st\<lparr>st_value := Some v\<rparr>)"
      using Cons.prems(1,2) by (simp_all add: registered_once_def ids_room_def)
    from Cons.IH [OF this] Cons.prems(3,4) got Some show ?thesis
      by (simp add: state_exec_value [OF Some] del: map_map)
  next
    case None
    show ?thesis
    proof (cases op)
      case (SSubscribe cb')
      obtain r st' where st': "state_subscribe (Ok cb') st = (r, st')" by fastforce
      have room: "ids_room (Suc (subscriptions ops)) st" using Cons.prems(2) SSubscribe by simp
      note new = ids_room_subscribe [OF room st']
      have ne: "cb' \<noteq> cb" using Cons.prems(4) SSubscribe by auto
      have "registered_once k cb st'"
        by (rule registered_once_subscribe [OF Cons.prems(1) st' ne]) (use new in blast)
      then show ?thesis
        using Cons.IH [of st' refusing lg] Cons.prems(3,4) new SSubscribe st' by simp
    next
      case (SUnsubscribe j)
      have "registered_once k cb (st\<lparr>st_listeners := fmdrop j (st_listeners st)\<rparr>)"
        "ids_room (subscriptions ops) (st\<lparr>st_listeners := fmdrop j (st_listeners st)\<rparr>)"
        using Cons.prems SUnsubscribe by (auto simp: registered_once_def ids_room_def split: if_splits)
      then show ?thesis
        using Cons.IH [of "st\<lparr>st_listeners := fmdrop j (st_listeners st)\<rparr>" refusing lg] Cons.prems(3,4) SUnsubscribe
        by (simp add: state_unsubscribe_def)
    next
      case (SRefuse cb' status)
      then show ?thesis using Cons.IH [OF Cons.prems(1), of "refusing(cb' := status)" lg] Cons.prems(2-4) by (simp add: fun_upd_def)
    qed (use None in simp_all)
  qed
qed simp

text \<open>The first call that fails ends the notification; the value is set all the same.\<close>

lemma call_all_append:
  "call_all call (cbs @ cbs') text s =
     (case call_all call cbs text s of (Ok _, s1) \<Rightarrow> call_all call cbs' text s1 | (Err e, s1) \<Rightarrow> (Err e, s1))"
  by (induction cbs arbitrary: s) (auto split: prod.splits option.splits)

end
