(* ===== verification/Node_Objects.thy ===== *)
theory Node_Objects
  imports Vdom
begin

text \<open>
  The JavaScript objects of virtual DOM nodes (\<open>src/virtual_dom/mod.rs\<close>) and of the maps of the
  renderer (\<open>WrappedHashMap\<close> in \<open>src/virtual_dom/renderer.rs\<close>): how nodes are written and read
  back. Creating an object and a string is taken to succeed. \<open>err\<close> gives the error of the N-API
  crate for a field that is missing or of another type.
\<close>

section \<open>Objects\<close>

datatype js_node = JStr string | JArr "js_node list" | JObj "(string \<times> js_node) list"

text \<open>
  Setting a property. A string set for \<open>__proto__\<close> is ignored by the language; the other values are set
  here under fixed names.
\<close>

definition js_put :: "string \<Rightarrow> js_node \<Rightarrow> (string \<times> js_node) list \<Rightarrow> (string \<times> js_node) list" where
  "js_put key v obj = (if key = ''__proto__'' then obj else (key, v) # filter (\<lambda>kv. fst kv \<noteq> key) obj)"

definition map_object :: "(string \<Rightarrow> nat) \<Rightarrow> props \<Rightarrow> js_node" where
  "map_object h m = JObj (fold (\<lambda>(k, v). js_put k (JStr v)) (entries_in h m) [])"

fun to_node :: "(string \<Rightarrow> nat) \<Rightarrow> vnode \<Rightarrow> js_node"
  and to_element :: "(string \<Rightarrow> nat) \<Rightarrow> velement \<Rightarrow> js_node" where
  "to_node h (Text t) = JObj (js_put ''content'' (JStr t) (js_put ''type'' (JStr ''Text'') []))"
| "to_node h (Element e) = JObj (js_put ''content'' (to_element h e) (js_put ''type'' (JStr ''Element'') []))"
| "to_element h (VElement t p s cs) =
     JObj (js_put ''children'' (JArr (map (to_node h) cs)) (js_put ''styles'' (map_object h s)
       (js_put ''props'' (map_object h p) (js_put ''tag'' (JStr t) []))))"

section \<open>Reading\<close>

definition get_string :: "(string \<Rightarrow> napi_error) \<Rightarrow> string \<Rightarrow> (string \<times> js_node) list \<Rightarrow> (string, napi_error) result" where
  "get_string err key obj = (case map_of obj key of Some (JStr t) \<Rightarrow> Ok t | _ \<Rightarrow> Err (err key))"

text \<open>The properties in the order of the object, each a string; a later one of the same name wins.\<close>

fun read_entries :: "(string \<Rightarrow> napi_error) \<Rightarrow> (string \<times> js_node) list \<Rightarrow> props \<Rightarrow> (props, napi_error) result" where
  "read_entries err [] m = Ok m"
| "read_entries err ((k, JStr v) # kvs) m = read_entries err kvs (fmupd k v m)"
| "read_entries err ((k, v) # kvs) m = Err (err k)"

definition read_map :: "(string \<Rightarrow> napi_error) \<Rightarrow> js_node \<Rightarrow> (props, napi_error) result" where
  "read_map err v = (case v of JObj kvs \<Rightarrow> read_entries err kvs fmempty | _ \<Rightarrow> Err (err []))"

definition get_map :: "(string \<Rightarrow> napi_error) \<Rightarrow> string \<Rightarrow> (string \<times> js_node) list \<Rightarrow> (props, napi_error) result" where
  "get_map err key obj = (case map_of obj key of Some v \<Rightarrow> read_map err v | None \<Rightarrow> Err (err key))"

lemma map_of_size: "map_of kvs k = Some v \<Longrightarrow> size v < Suc (size_list (size_prod (\<lambda>x. 0) size) kvs)"
  by (induction kvs) (auto split: if_splits)

function from_node :: "(string \<Rightarrow> napi_error) \<Rightarrow> js_node \<Rightarrow> (vnode, napi_error) result"
  and from_element :: "(string \<Rightarrow> napi_error) \<Rightarrow> js_node \<Rightarrow> (velement, napi_error) result"
  and from_nodes :: "(string \<Rightarrow> napi_error) \<Rightarrow> js_node list \<Rightarrow> (vnode list, napi_error) result" where
  "from_node err v =
     (case v of
        JObj obj \<Rightarrow>
          (case get_string err ''type'' obj of
             Err e \<Rightarrow> Err e
           | Ok node_type \<Rightarrow>
               (if node_type = ''Text'' then map_ok Text (get_string err ''content'' obj)
                else if node_type = ''Element'' then
                  (case map_of obj ''content'' of
                     Some c \<Rightarrow> map_ok Element (from_element err c)
                   | None \<Rightarrow> Err (err ''content''))
                else Err (from_reason (''Unknown VNode type: '' @ node_type))))
      | _ \<Rightarrow> Err (err ''type''))"
| "from_element err v =
     (case v of
        JObj obj \<Rightarrow>
          (case get_string err ''tag'' obj of
             Err e \<Rightarrow> Err e
           | Ok tg \<Rightarrow>
               (case get_map err ''props'' obj of
                  Err e \<Rightarrow> Err e
                | Ok p \<Rightarrow>
                    (case get_map err ''styles'' obj of
                       Err e \<Rightarrow> Err e
                     | Ok s \<Rightarrow>
                         (case map_of obj ''children'' of
                            Some (JArr cs) \<Rightarrow> map_ok (VElement tg p s) (from_nodes err cs)
                          | _ \<Rightarrow> Err (err ''children'')))))
      | _ \<Rightarrow> Err (err ''tag''))"
| "from_nodes err [] = Ok []"
| "from_nodes err (v # vs) =
     (case from_node err v of
        Err e \<Rightarrow> Err e
      | Ok n \<Rightarrow> map_ok ((#) n) (from_nodes err vs))"
  by pat_completeness auto

termination
  by (relation "measure (\<lambda>x. case x of Inl (err, v) \<Rightarrow> size v
      | Inr (Inl (err, v)) \<Rightarrow> size v | Inr (Inr (err, vs)) \<Rightarrow> size_list size vs)")
    (auto dest: map_of_size)

text \<open>
  \<open>validate\<close> reads the fields of a node, or of an element, with the conversions above and keeps
  the object; the text of an unknown type does not name it.
\<close>

definition validate_element :: "(string \<Rightarrow> napi_error) \<Rightarrow> js_node \<Rightarrow> (js_node, napi_error) result" where
  "validate_element err v = map_ok (\<lambda>_. v) (from_element err v)"

definition validate_node :: "(string \<Rightarrow> napi_error) \<Rightarrow> js_node \<Rightarrow> (js_node, napi_error) result" where
  "validate_node err v =
     (case v of
        JObj obj \<Rightarrow>
          (case get_string err ''type'' obj of
             Err e \<Rightarrow> Err e
           | Ok node_type \<Rightarrow>
               (if node_type = ''Text'' then map_ok (\<lambda>_. v) (get_string err ''content'' obj)
                else if node_type = ''Element'' then
                  (case map_of obj ''content'' of
                     Some c \<Rightarrow> map_ok (\<lambda>_. v) (from_element err c)
                   | None \<Rightarrow> Err (err ''content''))
                else Err (from_reason ''Unknown VNode type'')))
      | _ \<Rightarrow> Err (err ''type''))"

declare from_node.simps [simp del] from_element.simps [simp del]

section \<open>Round trips\<close>

text \<open>A node none of whose property and style names is \<open>__proto__\<close>.\<close>

fun plain_names :: "vnode \<Rightarrow> bool"
  and plain_names_element :: "velement \<Rightarrow> bool" where
  "plain_names (Text t) = True"
| "plain_names (Element e) = plain_names_element e"
| "plain_names_element (VElement t p s cs) =
     (fmlookup p ''__proto__'' = None \<and> fmlookup s ''__proto__'' = None \<and> list_all plain_names cs)"

lemma read_entries_strings:
  "read_entries err (map (\<lambda>(k, v). (k, JStr v)) kvs) m = Ok (fold (\<lambda>(k, v). fmupd k v) kvs m)"
  by (induction kvs arbitrary: m) auto

lemma fold_js_put:
  assumes "distinct (map fst kvs)" "''__proto__'' \<notin> set (map fst kvs)"
    and "\<forall>k \<in> set (map fst kvs). k \<notin> set (map fst obj)"
  shows "fold (\<lambda>(k, v). js_put k (JStr v)) kvs obj = rev (map (\<lambda>(k, v). (k, JStr v)) kvs) @ obj"
  using assms
proof (induction kvs arbitrary: obj)
  case (Cons kv kvs)
  obtain k v where kv: "kv = (k, v)" by fastforce
  have "filter (\<lambda>kv. fst kv \<noteq> k) obj = obj" using Cons.prems(3) kv by (force simp: filter_id_conv)
  then have "js_put k (JStr v) obj = (k, JStr v) # obj" using Cons.prems(2) kv by (auto simp: js_put_def)
  then show ?case using Cons.IH [of "(k, JStr v) # obj"] Cons.prems kv by auto
qed simp

lemma fold_fmupd_lookup:
  "distinct (map fst kvs) \<Longrightarrow> fmlookup (fold (\<lambda>(k, v). fmupd k v) kvs m) k =
     (case map_of kvs k of Some v \<Rightarrow> Some v | None \<Rightarrow> fmlookup m k)"
proof (induction kvs arbitrary: m)
  case (Cons kv kvs)
  then have "map_of kvs (fst kv) = None" by (simp add: map_of_eq_None_iff)
  then show ?case using Cons by (cases kv) (auto split: option.splits)
qed simp

lemma map_of_entries: "map_of (rev (entries_in h m)) k = fmlookup m k"
proof -
  have d: "distinct (map fst (rev (entries_in h m)))" by (simp add: rev_map [symmetric])
  show ?thesis
  proof (cases "fmlookup m k")
    case None
    then have "k \<notin> fst ` set (rev (entries_in h m))" by (auto simp: set_entries_in)
    then have "map_of (rev (entries_in h m)) k = None" by (simp only: map_of_eq_None_iff not_False_eq_True)
    then show ?thesis using None by simp
  next
    case (Some v)
    then have "(k, v) \<in> set (rev (entries_in h m))" by (simp add: set_entries_in)
    then show ?thesis using Some d by (simp only: map_of_eq_Some_iff)
  qed
qed

lemma read_map_object:
  assumes "fmlookup m ''__proto__'' = None"
  shows "read_map err (map_object h m) = Ok m"
proof -
  let ?es = "entries_in h m"
  have d: "distinct (map fst ?es)" "''__proto__'' \<notin> set (map fst ?es)"
    using assms by (simp_all add: fmlookup_dom_iff)
  have "map_object h m = JObj (map (\<lambda>(k, v). (k, JStr v)) (rev ?es))"
    using fold_js_put [of ?es "[]"] d by (simp add: map_object_def rev_map)
  moreover have "fold (\<lambda>(k, v). fmupd k v) (rev ?es) fmempty = m"
    using d(1) by (intro fmap_ext) (simp add: fold_fmupd_lookup rev_map [symmetric] map_of_entries split: option.splits)
  ultimately show ?thesis by (simp add: read_map_def read_entries_strings)
qed

lemma from_to_node:
  "plain_names n \<Longrightarrow> from_node err (to_node h n) = Ok n"
  "plain_names_element e \<Longrightarrow> from_element err (to_element h e) = Ok e"
proof (induction n and e rule: plain_names_plain_names_element.induct)
  case (1 t)
  then show ?case by (simp add: from_node.simps js_put_def get_string_def)
next
  case (2 e)
  then show ?case by (simp add: from_node.simps js_put_def get_string_def)
next
  case (3 t p s cs)
  have "\<forall>n \<in> set cs. from_node err (to_node h n) = Ok n"
    using 3 by (simp add: list_all_iff)
  then have "from_nodes err (map (to_node h) cs) = Ok cs" by (induction cs) auto
  then show ?case
    using 3(2) by (simp add: from_element.simps js_put_def get_string_def get_map_def read_map_object)
qed

lemma validate_read: "from_node err v = Ok n \<Longrightarrow> validate_node err v = Ok v"
  by (auto simp: from_node.simps [of err v] validate_node_def map_ok_Ok_iff
      split: js_node.splits result.splits if_splits option.splits)

end
