(* ===== verification/Console_Input.thy ===== *)
theory Console_Input
  imports Key_Input Vdom_State Process_Objects
begin

text \<open>
  Keys on their way from the console to the state: \<open>src/virtual_dom/input_handler.rs\<close>,
  \<open>src/virtual_dom/key_state.rs\<close>, and \<open>src/utils/input_events.rs\<close>. The events of the console are those
  of the \<open>crossterm\<close> crate: asking for one and reading it are calls over a state of the system, and the
  texts of a key code and of modifiers are arguments.
\<close>

section \<open>Reading an event\<close>

text \<open>A key event with its modifier bits, of which \<open>k_ctrl\<close> and \<open>k_alt\<close> are two.\<close>

record console_key = key_event +
  k_bits :: u8

datatype console_event = EventKey console_key | OtherEvent

definition key_event_to_js_object ::
  "(key_code \<Rightarrow> string) \<Rightarrow> (u8 \<Rightarrow> string) \<Rightarrow> console_key \<Rightarrow> js_object" where
  "key_event_to_js_object show_code show_modifiers key =
     js_set ''modifiers'' (JsString (show_modifiers (k_bits key)))
       (js_set ''code'' (JsString (show_code (k_code key))) [])"

definition handle_input ::
  "(key_code \<Rightarrow> string) \<Rightarrow> (u8 \<Rightarrow> string) \<Rightarrow> ('s \<Rightarrow> (bool, string) result \<times> 's)
     \<Rightarrow> ('s \<Rightarrow> (console_event, string) result \<times> 's) \<Rightarrow> 's \<Rightarrow> (js_object option, napi_error) result \<times> 's" where
  "handle_input show_code show_modifiers poll read_event s =
     (case poll s of
        (Ok True, s1) \<Rightarrow>
          (case read_event s1 of
             (Ok (EventKey key), s2) \<Rightarrow> (Ok (Some (key_event_to_js_object show_code show_modifiers key)), s2)
           | (Ok OtherEvent, s2) \<Rightarrow> (Ok None, s2)
           | (Err e, s2) \<Rightarrow> (Err (from_reason (''Error reading event: '' @ e)), s2))
      | (Ok False, s1) \<Rightarrow> (Ok None, s1)
      | (Err e, s1) \<Rightarrow> (Err (from_reason (''Error polling events: '' @ e)), s1))"

text \<open>The bytes of a key, by the functions of this file.\<close>

fun input_control_key_to_byte :: "key_code \<Rightarrow> u8 option" where
  "input_control_key_to_byte (KChar c) = Some (and (as_u8 c) 0x1F)"
| "input_control_key_to_byte _ = None"

definition input_key_event_to_bytes :: "key_event \<Rightarrow> bytes" where
  "input_key_event_to_bytes key =
     (if k_ctrl key then (case input_control_key_to_byte (k_code key) of Some b \<Rightarrow> [b] | None \<Rightarrow> [])
      else case k_code key of
        KChar c \<Rightarrow> [as_u8 c]
      | KEnter \<Rightarrow> [0x0A]
      | KBackspace \<Rightarrow> [0x7F]
      | KTab \<Rightarrow> [0x09]
      | KEsc \<Rightarrow> [0x1B]
      | KLeft \<Rightarrow> csi_bytes ''D''
      | KRight \<Rightarrow> csi_bytes ''C''
      | KUp \<Rightarrow> csi_bytes ''A''
      | KDown \<Rightarrow> csi_bytes ''B''
      | _ \<Rightarrow> [])"

text \<open>A placeholder in the source.\<close>

definition process_key_event :: "console_key \<Rightarrow> 'cb vstate \<Rightarrow> 'cb vstate" where
  "process_key_event key st = st"

section \<open>A key event as the state reads it\<close>

text \<open>A property that is missing or of another type is an error of the N-API crate.\<close>

definition named_string :: "(string \<Rightarrow> napi_error) \<Rightarrow> string \<Rightarrow> js_object \<Rightarrow> (string, napi_error) result" where
  "named_string type_err key obj =
     (case map_of obj key of Some (JsString t) \<Rightarrow> Ok t | _ \<Rightarrow> Err (type_err key))"

definition named_number :: "(string \<Rightarrow> napi_error) \<Rightarrow> string \<Rightarrow> js_object \<Rightarrow> (i32, napi_error) result" where
  "named_number type_err key obj =
     (case map_of obj key of Some (JsNumber n) \<Rightarrow> Ok n | _ \<Rightarrow> Err (type_err key))"

definition state_key_object ::
  "(string \<Rightarrow> napi_error) \<Rightarrow> (u32 \<Rightarrow> nat) \<Rightarrow> ('cb, 's) call \<Rightarrow> js_object \<Rightarrow> 'cb vstate \<Rightarrow> 's
     \<Rightarrow> (unit, napi_error) result \<times> 'cb vstate \<times> 's" where
  "state_key_object type_err h call obj st s =
     state_handle_key_event h call (named_string type_err ''code'' obj)
       (named_number type_err ''modifiers'' obj) st s"

section \<open>KeyState\<close>

text \<open>The object \<open>KeyState\<close> makes of an event, whose modifiers are a number.\<close>

definition convert_key_event :: "(uchar \<Rightarrow> string) \<Rightarrow> console_key \<Rightarrow> js_object" where
  "convert_key_event utf8 key =
     js_set ''modifiers'' (JsNumber (ucast (k_bits key)))
       (js_set ''code'' (JsString (key_name_of utf8 (k_code key))) [])"

definition key_state_handle_key_event ::
  "(uchar \<Rightarrow> string) \<Rightarrow> (string \<Rightarrow> napi_error) \<Rightarrow> (u32 \<Rightarrow> nat) \<Rightarrow> ('cb, 's) call \<Rightarrow> console_key \<Rightarrow> 'cb vstate
     \<Rightarrow> 's \<Rightarrow> (unit, napi_error) result \<times> 'cb vstate \<times> 's" where
  "key_state_handle_key_event utf8 type_err h call key st s =
     state_key_object type_err h call (convert_key_event utf8 key) st s"

section \<open>Input events\<close>

record input_event =
  ie_key :: string
  ie_modifiers :: "string list"

definition input_event_new :: "string \<Rightarrow> string list \<Rightarrow> input_event" where
  "input_event_new key modifiers = \<lparr>ie_key = key, ie_modifiers = modifiers\<rparr>"

section \<open>Laws\<close>

text \<open>The functions of this file and those of the emulator give the same bytes.\<close>

lemma input_key_event_to_bytes_eq: "input_key_event_to_bytes key = key_event_to_bytes key"
  by (cases "k_code key") (simp_all add: input_key_event_to_bytes_def key_event_to_bytes_def)

lemma convert_key_event_read:
  "named_string type_err ''code'' (convert_key_event utf8 key) = Ok (key_name_of utf8 (k_code key))"
  "named_number type_err ''modifiers'' (convert_key_event utf8 key) = Ok (ucast (k_bits key))"
  by (simp_all add: named_string_def named_number_def convert_key_event_def js_set_def)

text \<open>Modifier bits are never shown as a negative number.\<close>

lemma show_modifier_bits: "show_i32 (ucast (b :: u8)) = show_nat (unat b)"
proof -
  have "uint (ucast b :: i32) = uint b" by (simp add: unsigned_ucast_eq take_bit_int_eq_self_iff order_less_le_trans [OF unsigned_less])
  moreover have "uint b < 256" using unsigned_less [where w = b, where 'a = int] by simp
  moreover have "- 2147483648 \<le> uint b"
    by (rule order_trans [of _ 0]) simp_all
  ultimately have "sint (ucast b :: i32) = uint b"
    by (simp add: sint_uint signed_take_bit_int_eq_self_iff)
  then show ?thesis by (simp add: show_i32_def)
qed

lemma key_state_handles:
  "key_state_handle_key_event utf8 type_err h call key st s =
     (let st1 = st\<lparr>st_value := Some (''Key pressed: '' @ key_name_of utf8 (k_code key) @
            '', Modifiers: '' @ show_nat (unat (k_bits key)))\<rparr>
      in case notify_listeners h call st1 s of (r, s1) \<Rightarrow> (r, st1, s1))"
  by (simp add: key_state_handle_key_event_def state_key_object_def state_handle_key_event_def
      convert_key_event_read show_modifier_bits)

lemma input_object_refused:
  "state_key_object type_err h call (key_event_to_js_object show_code show_modifiers key) st s =
     (Err (type_err ''modifiers''), st, s)"
  by (simp add: state_key_object_def state_handle_key_event_def named_string_def named_number_def
      key_event_to_js_object_def js_set_def)

end
