(* ===== verification/Support_Properties.thy ===== *)
theory Support_Properties
  imports Path_Laws Vdom_State Node_Objects Console_Input
begin

text \<open>The properties of the path functions, of the state with listeners and of the objects of nodes.\<close>

section \<open>Expanding paths\<close>

text \<open>C23: the expansion of a simple path is the simultaneous substitution. A path made of texts without a dollar
  sign and of references \<open>${NAME}\<close> whose names are not empty and have ASCII word characters only, with a leading
  tilde or none, expands to the home directory followed by the texts and the values, when every referenced
  variable is set, and is refused otherwise. The home directory must be known, and neither it nor the value of
  any variable may have a dollar sign; a dollar sign elsewhere in the path, as in a reference within a reference,
  is not covered.\<close>

theorem expand_path_substitutes:
  assumes "\<forall>p \<in> set ps. well_formed p" "\<forall>v val. ps_var sys v = Some val \<longrightarrow> plain val"
    and "ps_home sys = Some home" "plain home" "\<not> tilde \<longrightarrow> \<not> prefix ''~'' (template_text ps)"
  shows "expand_path uw sys ((if tilde then ''~'' else []) @ template_text ps) =
    (if \<forall>w \<in> set (refs ps). ps_var sys w \<noteq> None
     then Ok ((if tilde then home else []) @ template_text (map (substitute (ps_var sys)) ps))
     else Err (napi_err GenericFailure ''Some environment variables were not set.''))"
proof (cases tilde)
  case True
  have "expand_references uw sys (home @ template_text ps) =
    (if \<forall>w \<in> set (refs ps). ps_var sys w \<noteq> None
     then Ok (home @ template_text (map (substitute (ps_var sys)) ps))
     else Err (napi_err GenericFailure ''Some environment variables were not set.''))"
    using expand_references_template [of "Lit home # ps" sys uw] assms by simp
  then show ?thesis using True assms(3) by (simp add: expand_path_def)
next
  case False
  then show ?thesis using expand_references_template [OF assms(1,2)] assms(5) by (simp add: expand_path_def)
qed

definition demo_system :: path_system where
  "demo_system =
     \<lparr>ps_home = Some ''/home/u'', ps_temp = ''/tmp'',
      ps_var = [''USER'' \<mapsto> ''u''],
      ps_exists = (\<lambda>p. True), ps_is_file = (\<lambda>p. False), ps_is_dir = (\<lambda>p. True), ps_canonicalize = Ok\<rparr>"

theorem expand_path_substitutes_witness:
  "expand_path (\<lambda>_. 0) demo_system ''~/${USER}/documents'' = Ok ''/home/u/u/documents'' \<and>
   expand_path (\<lambda>_. 0) demo_system ''/x/${NONE}'' =
     Err (napi_err GenericFailure ''Some environment variables were not set.'')"
proof
  show "expand_path (\<lambda>_. 0) demo_system ''~/${USER}/documents'' = Ok ''/home/u/u/documents''"
    using expand_path_substitutes [of "[Lit ''/'', Ref ''USER'', Lit ''/documents'']" demo_system "''/home/u''" True "\<lambda>_. 0"]
    by (simp add: demo_system_def plain_def name_def ascii_word_def less_eq_char_def reference_def
        substitute_def split: if_splits)
  show "expand_path (\<lambda>_. 0) demo_system ''/x/${NONE}'' =
     Err (napi_err GenericFailure ''Some environment variables were not set.'')"
    using expand_path_substitutes [of "[Lit ''/x/'', Ref ''NONE'']" demo_system "''/home/u''" False "\<lambda>_. 0"]
    by (simp add: demo_system_def plain_def name_def ascii_word_def less_eq_char_def reference_def
        split: if_splits)
qed

text \<open>Expanding is idempotent. A text that an expansion returned has no reference left: unless it starts
  with a tilde, expanding it again, whatever the environment then is, returns it unchanged.\<close>

theorem expand_path_idempotent:
  assumes "expand_path uw sys s = Ok t" "\<not> prefix ''~'' t"
  shows "captures uw t = [] \<and> expand_path uw sys' t = Ok t"
  using expand_path_ok [OF assms(1)] expand_path_again [OF assms] by simp

theorem expand_path_idempotent_witness:
  "expand_path (\<lambda>_. 0) (demo_system\<lparr>ps_var := Map.empty\<rparr>) ''/home/u/u/documents'' = Ok ''/home/u/u/documents''"
proof -
  have "captures (\<lambda>_. 0) ''/home/u/u/documents'' = []"
    using captures_plain [of "''/home/u/u/documents''" "\<lambda>_. 0" "[]"] by (simp add: plain_def)
  then have "expand_path (\<lambda>_. 0) demo_system ''/home/u/u/documents'' = Ok ''/home/u/u/documents''"
    by (simp add: expand_path_def expand_references_none)
  from expand_path_idempotent [OF this, of "demo_system\<lparr>ps_var := Map.empty\<rparr>"] show ?thesis by simp
qed

text \<open>A variable whose value has the form of a reference makes the expansion report an unset variable,
  whether that variable and the one its value names are set or not.\<close>

theorem reference_as_value_refused:
  assumes "name w" "name v" "ps_var sys w = Some (reference v)"
  shows "expand_path uw sys (reference w) =
    Err (napi_err GenericFailure ''Some environment variables were not set.'')"
proof -
  have c: "captures uw (reference w) = [w]" "captures uw (reference v) = [v]"
    using captures_reference [OF assms(1), of uw "[]"] captures_reference [OF assms(2), of uw "[]"] by simp_all
  have "replace_first (reference w) (reference v) (reference w) = reference v"
    using replace_first_same [of w "reference v" "[]"] by simp
  then show ?thesis
    using c assms(3) by (simp add: expand_path_def expand_references_def set_captures_def Let_def) (simp add: reference_def)
qed

theorem reference_as_value_refused_witness:
  "expand_path (\<lambda>_. 0) (demo_system\<lparr>ps_var := [''A'' \<mapsto> ''${B}'', ''B'' \<mapsto> ''x'']\<rparr>) ''${A}'' =
     Err (napi_err GenericFailure ''Some environment variables were not set.'')"
  using reference_as_value_refused
    [of "''A''" "''B''" "demo_system\<lparr>ps_var := [''A'' \<mapsto> ''${B}'', ''B'' \<mapsto> ''x'']\<rparr>" "\<lambda>_. 0"]
  by (simp add: name_def ascii_word_def less_eq_char_def reference_def)

section \<open>A state with listeners\<close>

text \<open>C34: what a listener of a state is called with, from its subscription to its cancellation, while the
  identifiers do not wrap and its function is registered once. It is called once, in order, for every value
  set and every key event at which neither it nor a listener visited before it refuses the call, and with
  nothing else, however other listeners come and go: some of the values set, and all of them as long as no
  listener refuses.\<close>

theorem listener_receives_values:
  assumes "registered_once k cb st" "ids_room (subscriptions ops) st"
    and "SUnsubscribe k \<notin> set ops" "SSubscribe cb \<notin> set ops"
  shows "received cb (snd (snd (fold (state_exec h) ops (st, (refusing, lg))))) =
      received cb lg @ due h k ops (st, (refusing, lg)) \<and>
    subseq (due h k ops (st, (refusing, lg))) (values_set ops) \<and>
    ((\<forall>cb. refusing cb = None) \<longrightarrow> (\<forall>cb status. SRefuse cb (Some status) \<notin> set ops) \<longrightarrow>
      due h k ops (st, (refusing, lg)) = values_set ops)"
  using history_received [OF assms] due_subseq due_all by blast

definition demo_state :: "nat vstate" where
  "demo_state = \<lparr>st_value = None, st_listeners = fmupd 0 10 fmempty, st_next_id = 1\<rparr>"

text \<open>A listener that is visited earlier and refuses in the middle of the history.\<close>

definition demo_history :: "nat state_op list" where
  "demo_history = [SSet ''a'', SSubscribe 11, SSet ''b'', SRefuse 11 (Some ''Closing''), SSet ''c'', SUnsubscribe 1,
     SSet ''d'']"

theorem listener_receives_values_witness:
  "received 10 (snd (snd (fold (state_exec (\<lambda>k. 5 - unat k)) demo_history (demo_state, (Map.empty, []))))) =
     [''a'', ''b'', ''d'']"
proof -
  have "registered_once 0 10 demo_state" by (simp add: registered_once_def demo_state_def)
  moreover have "ids_room (subscriptions demo_history) demo_state" by (simp add: ids_room_def demo_state_def demo_history_def)
  moreover have "SUnsubscribe 0 \<notin> set demo_history" "SSubscribe 10 \<notin> set demo_history" by (simp_all add: demo_history_def)
  moreover have "due (\<lambda>k. 5 - unat k) 0 demo_history (demo_state, (Map.empty, [])) = [''a'', ''b'', ''d'']"
    by (simp add: demo_history_def demo_state_def reaches_def visited_to_def state_exec_value keys_in_def
        sorted_list_of_fset.rep_eq state_subscribe_def state_unsubscribe_def del: state_exec.simps(1,4))
  ultimately show ?thesis
    using listener_receives_values [of 0 10 demo_state demo_history "\<lambda>k. 5 - unat k" Map.empty "[]"]
    by (simp add: received_def)
qed

text \<open>A listener that cannot be called. \<open>set\<close> stores the value all the same and reports the error; the
  listeners visited before it were called with the value, those after it are not called.\<close>

theorem failed_listener_ends_notification:
  assumes "map snd (entries_in h (st_listeners st)) = before @ cb # after"
    and "call_all call before v s = (Ok (), s1)" "call cb v s1 = (Some status, s2)"
  shows "state_set disp h call (Ok v) st s =
    (Err (napi_err GenericFailure (''Failed to call threadsafe function: '' @ status)),
     st\<lparr>st_value := Some v\<rparr>, s2)"
  using assms by (simp add: state_set_def notify_listeners_def call_all_append del: map_map)

definition closing_call :: "(nat, (nat \<times> string) list) call" where
  "closing_call cb v lg = (if cb = 10 then (Some ''Closing'', lg) else (None, lg @ [(cb, v)]))"

theorem failed_listener_ends_notification_witness:
  "state_set err_reason unat closing_call (Ok ''v'') demo_state [] =
     (Err (napi_err GenericFailure ''Failed to call threadsafe function: Closing''),
      demo_state\<lparr>st_value := Some ''v''\<rparr>, [])"
proof -
  have "map snd (entries_in unat (st_listeners demo_state)) = [] @ 10 # []"
    by (simp add: demo_state_def entries_in_def keys_in_def sorted_list_of_fset.rep_eq)
  from failed_listener_ends_notification [OF this, of closing_call "''v''" "[]" "[]" "''Closing''" "[]" err_reason]
  show ?thesis by (simp add: closing_call_def)
qed

section \<open>Nodes as objects\<close>

text \<open>C37: a tree crosses the JavaScript boundary unchanged. A virtual DOM tree none of whose properties and
  styles is named \<open>__proto__\<close>, written to an object, reads back as the same tree, whatever the order in
  which its maps are visited, and the object validates.\<close>

theorem node_object_roundtrip:
  assumes "plain_names n"
  shows "from_node err (to_node h n) = Ok n \<and> validate_node err (to_node h n) = Ok (to_node h n)"
  using from_to_node(1) [OF assms] validate_read by blast

theorem node_object_roundtrip_witness:
  "from_node from_reason (to_node length
      (vnode_element ''box'' (fmupd ''id'' ''x'' fmempty) fmempty [Text ''a'', vnode_element ''text'' fmempty fmempty []])) =
    Ok (vnode_element ''box'' (fmupd ''id'' ''x'' fmempty) fmempty [Text ''a'', vnode_element ''text'' fmempty fmempty []])"
  by (rule conjunct1 [OF node_object_roundtrip]) (simp add: vnode_element_def)

section \<open>Keys\<close>

text \<open>C35: what becomes of a key. The object \<open>handle_input\<close> makes of a key is refused by the state, which
  wants a number where it has a text, and changes nothing; the same key given to \<open>KeyState\<close> becomes
  the value of the state and reaches every listener, when the listeners take the call.\<close>

theorem key_events_reach_state:
  assumes "poll s = (Ok True, s1)" "read_event s1 = (Ok (EventKey key), s2)"
  shows "(\<exists>obj. handle_input show_code show_modifiers poll read_event s = (Ok (Some obj), s2) \<and>
        state_key_object type_err h call obj st t = (Err (type_err ''modifiers''), st, t)) \<and>
      (let msg = ''Key pressed: '' @ key_name_of utf8 (k_code key) @ '', Modifiers: '' @ show_nat (unat (k_bits key))
       in key_state_handle_key_event utf8 type_err h log_call key st lg =
          (Ok (), st\<lparr>st_value := Some msg\<rparr>, lg @ map (\<lambda>(i, cb). (cb, msg)) (entries_in h (st_listeners st))))"
  using assms
  by (simp add: handle_input_def input_object_refused key_state_handles notify_listeners_def call_all_log
      Let_def comp_def split_def)

definition enter_key :: console_key where
  "enter_key = \<lparr>k_code = KEnter, k_ctrl = False, k_alt = False, k_bits = 1\<rparr>"

definition one_listener :: "nat vstate" where
  "one_listener = \<lparr>st_value = None, st_listeners = fmupd 3 7 fmempty, st_next_id = 4\<rparr>"

theorem key_events_reach_state_witness:
  "\<exists>obj. handle_input (\<lambda>c. ''Enter'') (\<lambda>m. ''SHIFT'') (\<lambda>s. (Ok True, s)) (\<lambda>s. (Ok (EventKey enter_key), s)) () =
      (Ok (Some obj), ()) \<and>
    state_key_object from_reason unat log_call obj one_listener [] =
      (Err (from_reason ''modifiers''), one_listener, [])"
  using key_events_reach_state [of "\<lambda>s. (Ok True, s)" "()" "()" "\<lambda>s. (Ok (EventKey enter_key), s)" enter_key "()"
      "\<lambda>c. ''Enter''" "\<lambda>m. ''SHIFT''" from_reason unat log_call one_listener "[]"]
  by simp

end
