(* ===== verification/Call_Queue.thy ===== *)
theory Call_Queue
  imports Handle_Laws
begin

text \<open>
  Calls of the handle that overlap. The methods of \<open>src/pty/handle.rs\<close> are asynchronous: many calls
  can be pending at a time, each with its own answer channel, while the thread of
  \<open>src/pty/command_handler.rs\<close> takes one command at a time. The channel, the pending calls and the
  thread are one state machine, whose steps come in any order: a call sends its command, the thread
  takes the first command and runs its handler to the end, the timeout of a call passes, the thread
  drops its end of the channel after it has ended.
\<close>

section \<open>State and steps\<close>

text \<open>
  A call has a number, used once. It is absent before it is made, \<open>Some None\<close> while it awaits its
  answer, and then what it ended in. What the channel crate does with commands nobody will take is not
  the program's code: it may drop them with their answer channels (\<open>Discard\<close>) or keep them.
\<close>

datatype queue_event = Send nat pty_command | Take | Expire nat | Hangup | Discard

type_synonym pending = "nat \<Rightarrow> call_result option option"

record 's call_queue =
  q_world :: "'s world"
  q_state :: loop_state
  q_commands :: "(nat \<times> pty_command) list"
  q_open :: bool
  q_calls :: pending

text \<open>An answer to a call that no longer waits for it is thrown away (\<open>let _ = responder.send(..)\<close>).\<close>

definition resolve :: "nat \<Rightarrow> call_result \<Rightarrow> pending \<Rightarrow> pending" where
  "resolve i r cs = (if cs i = Some None then cs(i \<mapsto> Some r) else cs)"

text \<open>A send on a full channel blocks, which is no step; one on a closed channel fails.\<close>

definition send_step :: "string \<Rightarrow> nat \<Rightarrow> pty_command \<Rightarrow> 's call_queue \<Rightarrow> 's call_queue option" where
  "send_step send_err i cmd q =
     (if q_calls q i \<noteq> None then None
      else if \<not> q_open q then Some (q\<lparr>q_calls := (q_calls q)(i \<mapsto> Some (SendFailed send_err))\<rparr>)
      else if length (q_commands q) < channel_capacity then
        Some (q\<lparr>q_commands := q_commands q @ [(i, cmd)], q_calls := (q_calls q)(i \<mapsto> None)\<rparr>)
      else None)"

definition take_step :: "'s ctx \<Rightarrow> 's call_queue \<Rightarrow> 's call_queue option" where
  "take_step c q =
     (case q_commands q of
        [] \<Rightarrow> None
      | (i, cmd) # rest \<Rightarrow>
          (if q_state q \<noteq> Waiting then None
           else case handle c cmd (q_world q) of
             (f, w) \<Rightarrow>
               Some \<lparr>q_world = w, q_state = state_after cmd f, q_commands = rest, q_open = q_open q,
                     q_calls = (case f of
                        Returns r \<Rightarrow> resolve i (Answered r) (q_calls q)
                      | Panics \<Rightarrow> resolve i Dropped (q_calls q)
                      | _ \<Rightarrow> q_calls q)\<rparr>))"

definition expire_step :: "nat \<Rightarrow> 's call_queue \<Rightarrow> 's call_queue option" where
  "expire_step i q =
     (if q_calls q i = Some None then Some (q\<lparr>q_calls := (q_calls q)(i \<mapsto> Some TimedOut)\<rparr>) else None)"

fun queue_step :: "'s ctx \<Rightarrow> string \<Rightarrow> queue_event \<Rightarrow> 's call_queue \<Rightarrow> 's call_queue option" where
  "queue_step c send_err (Send i cmd) q = (if q_state q = Forked then None else send_step send_err i cmd q)"
| "queue_step c send_err Take q = take_step c q"
| "queue_step c send_err (Expire i) q = (if q_state q = Forked then None else expire_step i q)"
| "queue_step c send_err Hangup q =
     (if q_open q \<and> q_state q \<in> {Stopped, Crashed} then Some (q\<lparr>q_open := False\<rparr>) else None)"
| "queue_step c send_err Discard q =
     (if q_open q then None
      else Some (q\<lparr>q_commands := [], q_calls := fold (\<lambda>x. resolve (fst x) Dropped) (q_commands q) (q_calls q)\<rparr>))"

fun run_queue :: "'s ctx \<Rightarrow> string \<Rightarrow> queue_event list \<Rightarrow> 's call_queue \<Rightarrow> 's call_queue option" where
  "run_queue c send_err [] q = Some q"
| "run_queue c send_err (s # ss) q =
     (case queue_step c send_err s q of None \<Rightarrow> None | Some q1 \<Rightarrow> run_queue c send_err ss q1)"

definition queue_start :: "'s world \<Rightarrow> 's call_queue" where
  "queue_start w = \<lparr>q_world = w, q_state = Waiting, q_commands = [], q_open = True, q_calls = Map.empty\<rparr>"

text \<open>The calls of a run in the order of their sends, and the number of commands taken.\<close>

fun sends :: "queue_event list \<Rightarrow> (nat \<times> pty_command) list" where
  "sends [] = []"
| "sends (Send i cmd # ss) = (i, cmd) # sends ss"
| "sends (_ # ss) = sends ss"

fun takes :: "queue_event list \<Rightarrow> nat" where
  "takes [] = 0"
| "takes (Take # ss) = Suc (takes ss)"
| "takes (_ # ss) = takes ss"

lemma run_queue_snoc:
  "run_queue c e (ss @ [s]) q = (case run_queue c e ss q of None \<Rightarrow> None | Some q1 \<Rightarrow> queue_step c e s q1)"
  by (induction ss arbitrary: q) (auto split: option.splits)

lemma run_queue_append:
  "run_queue c e (ss @ ts) q = (case run_queue c e ss q of None \<Rightarrow> None | Some q1 \<Rightarrow> run_queue c e ts q1)"
  by (induction ss arbitrary: q) (auto split: option.splits)

lemma sends_snoc: "sends (ss @ [s]) = sends ss @ sends [s]"
  by (induction ss rule: sends.induct) auto

lemma takes_snoc: "takes (ss @ [s]) = takes ss + takes [s]"
  by (induction ss rule: takes.induct) auto

section \<open>Every run is a sequential one\<close>

text \<open>
  The answers given: each reached its call or found it timed out, and no call has another answer.
\<close>

definition answered :: "(nat \<times> pty_result) set \<Rightarrow> pending \<Rightarrow> bool" where
  "answered A cs \<longleftrightarrow>
     (\<forall>i r. (i, r) \<in> A \<longrightarrow> cs i = Some (Some (Answered r)) \<or> cs i = Some (Some TimedOut)) \<and>
     (\<forall>i r. cs i = Some (Some (Answered r)) \<longrightarrow> (i, r) \<in> A)"

lemma answered_upd:
  assumes "answered A cs" "\<And>r. cs i \<noteq> Some (Some (Answered r))" "cs i \<noteq> Some (Some TimedOut)"
    "\<And>r. v \<noteq> Some (Answered r)"
  shows "answered A (cs(i \<mapsto> v))"
  using assms unfolding answered_def by simp blast

lemma answered_dropped: "answered A cs \<Longrightarrow> answered A (resolve i Dropped cs)"
  by (simp add: resolve_def answered_upd)

lemma answered_fold:
  "answered A cs \<Longrightarrow> answered A (fold (\<lambda>x. resolve (fst x) Dropped) xs cs)"
  by (induction xs arbitrary: cs) (simp_all add: answered_dropped)

lemma answered_take:
  assumes "answered A cs" "cs i = Some None \<or> cs i = Some (Some TimedOut)"
  shows "answered (insert (i, r) A) (resolve i (Answered r) cs)"
proof (cases "cs i = Some None")
  case True
  then have "(i, r') \<notin> A" for r' using assms(1) unfolding answered_def by force
  with True assms(1) show ?thesis unfolding answered_def resolve_def by simp
next
  case False
  with assms show ?thesis unfolding answered_def resolve_def by simp
qed

lemma dom_resolve [simp]: "dom (resolve i r cs) = dom cs"
  by (auto simp: resolve_def)

lemma dom_fold_resolve [simp]: "dom (fold (\<lambda>x. resolve (fst x) r) xs cs) = dom cs"
  by (induction xs arbitrary: cs) simp_all

text \<open>The calls made, each once.\<close>

definition made :: "nat list \<Rightarrow> pending \<Rightarrow> bool" where
  "made ids cs \<longleftrightarrow> distinct ids \<and> dom cs = set ids"

lemma made_send: "made (xs @ ys) cs \<Longrightarrow> cs i = None \<Longrightarrow> made (xs @ ys @ [i]) (cs(i \<mapsto> v))"
  by (auto simp: made_def)

lemma made_again: "made ids cs \<Longrightarrow> cs i = Some u \<Longrightarrow> made ids (cs(i \<mapsto> v))"
  by (auto simp: made_def)

lemma made_resolve: "made ids cs \<Longrightarrow> made ids (resolve i r cs)"
  by (simp add: made_def)

lemma made_fold: "made ids cs \<Longrightarrow> made ids (fold (\<lambda>x. resolve (fst x) r) xs cs)"
  by (simp add: made_def)

text \<open>
  \<open>dn\<close> are the commands taken and \<open>rest\<close> the other calls made, both in the order of the sends. A call
  whose command is still in the channel has no answer.
\<close>

definition pending_in :: "pending \<Rightarrow> (nat \<times> pty_command) list \<Rightarrow> bool" where
  "pending_in cs xs \<longleftrightarrow> (\<forall>x \<in> set xs. cs (fst x) = Some None \<or> cs (fst x) = Some (Some TimedOut))"

lemma pending_in_upd:
  "pending_in cs xs \<Longrightarrow> v \<in> {None, Some TimedOut} \<Longrightarrow> pending_in (cs(i \<mapsto> v)) xs"
  by (auto simp: pending_in_def)

lemma pending_in_take:
  assumes "pending_in cs ((i, cmd) # xs)" "distinct (map fst ((i, cmd) # xs))"
  shows "pending_in (resolve i r cs) xs"
proof -
  have "fst x \<noteq> i" if "x \<in> set xs" for x using assms(2) that by force
  then show ?thesis using assms(1) by (simp add: pending_in_def resolve_def)
qed

definition kept_order :: "(nat \<times> pty_command) list \<Rightarrow> (nat \<times> pty_command) list \<Rightarrow> 's call_queue \<Rightarrow> bool" where
  "kept_order dn rest q \<longleftrightarrow>
     made (map fst dn @ map fst rest) (q_calls q) \<and>
     (if q_open q then rest = q_commands q \<and> pending_in (q_calls q) rest
      else q_state q \<in> {Stopped, Crashed})"

text \<open>\<open>rs\<close> are the answers of the loop \<open>handle_commands\<close> on the commands taken.\<close>

definition serial :: "'s ctx \<Rightarrow> 's world \<Rightarrow> (nat \<times> pty_command) list \<Rightarrow> (nat \<times> pty_command) list
    \<Rightarrow> pty_result list \<Rightarrow> 's call_queue \<Rightarrow> bool" where
  "serial c w0 dn rest rs q \<longleftrightarrow>
     handle_commands c (map (\<lambda>x. Received (snd x)) dn) w0 = (rs, q_state q, q_world q) \<and>
     kept_order dn rest q \<and> answered (set (zip (map fst dn) rs)) (q_calls q)"

lemma serial_start: "serial c w [] [] [] (queue_start w)"
  by (simp add: serial_def kept_order_def answered_def queue_start_def made_def pending_in_def)

text \<open>Every step keeps the order of the calls, and takes at most one command.\<close>

lemma kept_order_send:
  assumes "kept_order dn rest q" "send_step e i cmd q = Some q'"
  shows "kept_order dn (rest @ [(i, cmd)]) q'"
proof (cases "q_open q")
  case True
  then have q': "q' = q\<lparr>q_commands := q_commands q @ [(i, cmd)], q_calls := (q_calls q)(i \<mapsto> None)\<rparr>"
    "q_calls q i = None"
    using assms(2) by (auto simp: send_step_def split: if_splits)
  from assms(1) True show ?thesis
    unfolding q'(1) kept_order_def
    by (auto simp: pending_in_def q'(2) intro: made_send)
next
  case False
  then have q': "q' = q\<lparr>q_calls := (q_calls q)(i \<mapsto> Some (SendFailed e))\<rparr>" "q_calls q i = None"
    using assms(2) by (auto simp: send_step_def split: if_splits)
  from assms(1) False show ?thesis
    unfolding q'(1) kept_order_def by (auto simp: q'(2) intro: made_send)
qed

lemma serial_send:
  assumes "serial c w0 dn rest rs q" "send_step e i cmd q = Some q'"
  shows "serial c w0 dn (rest @ [(i, cmd)]) rs q'"
proof -
  obtain v where v: "q_calls q' = (q_calls q)(i \<mapsto> v)" "\<And>r. v \<noteq> Some (Answered r)" "q_calls q i = None"
    "q_state q' = q_state q" "q_world q' = q_world q"
    using assms(2) by (auto simp: send_step_def split: if_splits)
  then show ?thesis
    using assms(1) kept_order_send [OF _ assms(2)] by (simp add: serial_def answered_upd)
qed

lemma serial_expire:
  assumes "serial c w0 dn rest rs q" "expire_step i q = Some q'"
  shows "serial c w0 dn rest rs q'"
proof -
  have q': "q' = q\<lparr>q_calls := (q_calls q)(i \<mapsto> Some TimedOut)\<rparr>" "q_calls q i = Some None"
    using assms(2) by (auto simp: expire_step_def split: if_splits)
  from assms(1) show ?thesis
    unfolding q'(1)
    by (auto simp: serial_def kept_order_def answered_upd pending_in_upd q'(2) made_again)
qed

lemma serial_hangup:
  assumes "serial c w0 dn rest rs q" "queue_step c e Hangup q = Some q'"
  shows "serial c w0 dn rest rs q'"
proof -
  from assms(2) have q': "q' = q\<lparr>q_open := False\<rparr>" "q_state q \<in> {Stopped, Crashed}"
    by (simp_all split: if_splits)
  then show ?thesis using assms(1) by (auto simp: serial_def kept_order_def)
qed

lemma serial_discard:
  assumes "serial c w0 dn rest rs q" "queue_step c e Discard q = Some q'"
  shows "serial c w0 dn rest rs q'"
proof -
  let ?cs = "fold (\<lambda>x. resolve (fst x) Dropped) (q_commands q) (q_calls q)"
  from assms(2) have q': "q' = q\<lparr>q_commands := [], q_calls := ?cs\<rparr>" "\<not> q_open q"
    by (simp_all split: if_splits)
  have "answered (set (zip (map fst dn) rs)) ?cs"
    using assms(1) answered_fold unfolding serial_def by blast
  then show ?thesis using assms(1) q' by (simp add: serial_def kept_order_def made_fold)
qed

lemma commands_snoc:
  assumes "handle_commands c (map (\<lambda>x. Received (snd x)) dn) w0 = (rs, Waiting, w1)"
    "handle c cmd w1 = (f, w2)"
  shows "handle_commands c (map (\<lambda>x. Received (snd x)) (dn @ [(i, cmd)])) w0 =
    (case f of Returns r \<Rightarrow> rs @ [r] | _ \<Rightarrow> rs, state_after cmd f, w2)"
  using assms by (simp add: handle_commands_append state_after_def split: flow.splits)

lemma serial_take:
  assumes "serial c w0 dn rest rs q" "take_step c q = Some q'"
  shows "\<exists>x rest' rs'. rest = x # rest' \<and> serial c w0 (dn @ [x]) rest' rs' q'"
proof -
  obtain i cmd cs f w where q: "q_commands q = (i, cmd) # cs" "q_state q = Waiting"
    and f: "handle c cmd (q_world q) = (f, w)"
    using assms(2) by (cases "handle c (snd (hd (q_commands q))) (q_world q)")
      (auto simp: take_step_def split: list.splits if_splits)
  define calls' where "calls' = (case f of Returns r \<Rightarrow> resolve i (Answered r) (q_calls q)
    | Panics \<Rightarrow> resolve i Dropped (q_calls q) | _ \<Rightarrow> q_calls q)"
  define rs' where "rs' = (case f of Returns r \<Rightarrow> rs @ [r] | _ \<Rightarrow> rs)"
  have q': "q' = \<lparr>q_world = w, q_state = state_after cmd f, q_commands = cs, q_open = q_open q,
      q_calls = calls'\<rparr>"
    using assms(2) by (simp add: take_step_def q f calls'_def)
  from assms(1) have h: "handle_commands c (map (\<lambda>x. Received (snd x)) dn) w0 = (rs, Waiting, q_world q)"
    and k: "q_open q" "rest = (i, cmd) # cs" "pending_in (q_calls q) ((i, cmd) # cs)"
      "made (map fst dn @ i # map fst cs) (q_calls q)"
    and a: "answered (set (zip (map fst dn) rs)) (q_calls q)"
    by (auto simp: serial_def kept_order_def q split: if_splits)
  have i: "q_calls q i = Some None \<or> q_calls q i = Some (Some TimedOut)"
    using k(3) by (simp add: pending_in_def)
  have d: "distinct (map fst ((i, cmd) # cs))" using k(4) by (simp add: made_def)
  have len: "length rs = length dn" using handle_commands_replies [OF h] by simp
  have "answered (set (zip (map fst (dn @ [(i, cmd)])) rs')) calls'"
    using a i len by (cases f) (simp_all add: rs'_def calls'_def answered_take answered_dropped zip_append1)
  moreover have "made (map fst (dn @ [(i, cmd)]) @ map fst cs) calls'"
    using k(4) by (cases f) (simp_all add: calls'_def made_resolve)
  moreover have "pending_in calls' cs"
  proof -
    have "pending_in (q_calls q) cs" using k(3) by (simp add: pending_in_def)
    then show ?thesis using pending_in_take [OF k(3) d] by (cases f) (simp_all add: calls'_def)
  qed
  ultimately have "serial c w0 (dn @ [(i, cmd)]) cs rs' q'"
    using commands_snoc [OF h f, of i] k(1) unfolding serial_def kept_order_def q' rs'_def by simp
  then show ?thesis using k(2) by blast
qed

lemma serial_step:
  assumes "serial c w0 dn rest rs q" "queue_step c e s q = Some q'"
  shows "\<exists>dn' rest' rs'. serial c w0 dn' rest' rs' q' \<and> dn' @ rest' = dn @ rest @ sends [s] \<and>
    length dn' = length dn + takes [s]"
proof (cases s)
  case (Send i cmd)
  then have "send_step e i cmd q = Some q'" using assms(2) by (simp split: if_splits)
  from serial_send [OF assms(1) this] Send show ?thesis by fastforce
next
  case Take
  then have "take_step c q = Some q'" using assms(2) by simp
  from serial_take [OF assms(1) this] obtain x rest' rs' where
    "rest = x # rest'" "serial c w0 (dn @ [x]) rest' rs' q'" by blast
  then show ?thesis using Take by (intro exI [of _ "dn @ [x]"] exI [of _ rest'] exI [of _ rs']) simp
next
  case (Expire i)
  then have "expire_step i q = Some q'" using assms(2) by (simp split: if_splits)
  from serial_expire [OF assms(1) this] Expire show ?thesis by fastforce
next
  case Hangup
  with serial_hangup [OF assms(1)] assms(2) show ?thesis by fastforce
next
  case Discard
  with serial_discard [OF assms(1)] assms(2) show ?thesis by fastforce
qed

lemma serial_run:
  assumes "run_queue c e ss (queue_start w) = Some q"
  shows "\<exists>dn rest rs. serial c w dn rest rs q \<and> dn @ rest = sends ss \<and> length dn = takes ss"
  using assms
proof (induction ss arbitrary: q rule: rev_induct)
  case Nil
  then show ?case using serial_start by fastforce
next
  case (snoc s ss)
  then obtain q1 where q1: "run_queue c e ss (queue_start w) = Some q1" "queue_step c e s q1 = Some q"
    by (auto simp: run_queue_snoc split: option.splits)
  from snoc.IH [OF q1(1)] obtain dn rest rs where
    IH: "serial c w dn rest rs q1" "dn @ rest = sends ss" "length dn = takes ss" by blast
  from serial_step [OF IH(1) q1(2)] obtain dn' rest' rs' where
    "serial c w dn' rest' rs' q" "dn' @ rest' = dn @ rest @ sends [s]" "length dn' = length dn + takes [s]"
    by blast
  then show ?case using IH(2,3) sends_snoc [of ss s] takes_snoc [of ss s] by (metis append_assoc)
qed

section \<open>Calls that are answered, and calls that never are\<close>

text \<open>While the thread takes commands, only a call whose command is in the channel awaits an answer.\<close>

lemma serial_awaits:
  assumes "serial c w0 dn rest rs q" "q_state q = Waiting" "q_calls q i = Some None"
  shows "i \<in> fst ` set (q_commands q)"
proof -
  from assms(1,2) have h: "handle_commands c (map (\<lambda>x. Received (snd x)) dn) w0 = (rs, Waiting, q_world q)"
    and rest: "rest = q_commands q" and m: "made (map fst dn @ map fst rest) (q_calls q)"
    and a: "answered (set (zip (map fst dn) rs)) (q_calls q)"
    by (auto simp: serial_def kept_order_def split: if_splits)
  have len: "length rs = length (map fst dn)" using handle_commands_replies [OF h] by simp
  have "i \<notin> set (map fst dn)"
  proof
    assume "i \<in> set (map fst dn)"
    then obtain k where k: "k < length (map fst dn)" "map fst dn ! k = i" by (metis in_set_conv_nth)
    then have "(i, rs ! k) \<in> set (zip (map fst dn) rs)"
      unfolding in_set_zip using len by (intro exI [of _ k]) simp
    then show False using a assms(3) unfolding answered_def by force
  qed
  moreover have "i \<in> set (map fst dn @ map fst rest)"
    using m assms(3) unfolding made_def by blast
  ultimately show ?thesis using rest by simp
qed

text \<open>Commands whose handler always returns and leaves the loop running.\<close>

fun orderly :: "pty_command \<Rightarrow> bool" where
  "orderly (MergeSessions ids) = False"
| "orderly (SetEnv key val) = False"
| "orderly (ChangeShell path) = False"
| "orderly ShutdownPty = False"
| "orderly _ = True"

lemma orderly_returns:
  assumes "orderly cmd" "world_inv w"
  shows "\<exists>r w'. handle c cmd w = (Returns r, w') \<and> world_inv w' \<and> state_after cmd (Returns r) = Waiting"
proof -
  have "\<not> existing_merge w cmd" "\<not> panicking_env c w cmd" "cmd \<noteq> ShutdownPty" "cmd \<noteq> ChangeShell path" for path
    using assms(1) by (auto simp: existing_merge_def panicking_env_def)
  from handle_returns [OF assms(2) this(1,2,4)] this(3) obtain r w' where
    r: "handle c cmd w = (Returns r, w')" by (metis prod.collapse)
  moreover have "world_inv w'" using handle_inv [OF assms(2) r] by simp
  ultimately show ?thesis using \<open>cmd \<noteq> ShutdownPty\<close> by (simp add: state_after_def)
qed

lemma take_all:
  assumes "q_state q = Waiting" "world_inv (q_world q)" "\<forall>x \<in> set (q_commands q). orderly (snd x)"
    "distinct (map fst (q_commands q))"
  shows "\<exists>q'. run_queue c e (replicate (length (q_commands q)) Take) q = Some q' \<and> q_commands q' = [] \<and>
    q_state q' = Waiting \<and>
    (\<forall>i. q_calls q i = Some None \<and> i \<in> fst ` set (q_commands q) \<longrightarrow> (\<exists>r. q_calls q' i = Some (Some (Answered r)))) \<and>
    (\<forall>i. i \<notin> fst ` set (q_commands q) \<longrightarrow> q_calls q' i = q_calls q i)"
  using assms
proof (induction "q_commands q" arbitrary: q)
  case Nil
  then show ?case by simp
next
  case (Cons x cs)
  obtain i cmd where x: "x = (i, cmd)" by fastforce
  note q = Cons.hyps(2) [symmetric, unfolded x]
  from Cons.prems(3) have "orderly cmd" by (simp add: q)
  from orderly_returns [OF this Cons.prems(2)] obtain r w' where
    r: "handle c cmd (q_world q) = (Returns r, w')" "world_inv w'" "state_after cmd (Returns r) = Waiting"
    by blast
  define q1 where "q1 = \<lparr>q_world = w', q_state = Waiting, q_commands = cs, q_open = q_open q,
    q_calls = resolve i (Answered r) (q_calls q)\<rparr>"
  have step: "take_step c q = Some q1" using r by (simp add: take_step_def q q1_def Cons.prems(1))
  have ni: "i \<notin> fst ` set cs" using Cons.prems(4) by (simp add: q)
  have "cs = q_commands q1" "q_state q1 = Waiting" "world_inv (q_world q1)"
    "\<forall>x \<in> set (q_commands q1). orderly (snd x)" "distinct (map fst (q_commands q1))"
    using Cons.prems(3,4) r(2) by (simp_all add: q1_def q)
  from Cons.hyps(1) [OF this] obtain q' where
    q': "run_queue c e (replicate (length cs) Take) q1 = Some q'" "q_commands q' = []" "q_state q' = Waiting"
      "\<And>j. q_calls q1 j = Some None \<Longrightarrow> j \<in> fst ` set cs \<Longrightarrow> \<exists>r. q_calls q' j = Some (Some (Answered r))"
      "\<And>j. j \<notin> fst ` set cs \<Longrightarrow> q_calls q' j = q_calls q1 j"
    by (auto simp: q1_def)
  have "q_calls q' i = q_calls q1 i" using q'(5) ni by blast
  then have ans: "q_calls q i = Some None \<Longrightarrow> q_calls q' i = Some (Some (Answered r))"
    by (simp add: q1_def resolve_def)
  have oth: "j \<noteq> i \<Longrightarrow> q_calls q1 j = q_calls q j" for j by (simp add: q1_def resolve_def)
  have "run_queue c e (replicate (length (q_commands q)) Take) q = Some q'"
    using q'(1) step by (simp add: q)
  moreover have "\<exists>r. q_calls q' j = Some (Some (Answered r))"
    if "q_calls q j = Some None" "j \<in> fst ` set (q_commands q)" for j
    using that ans q'(4) [of j] oth [of j] by (cases "j = i") (auto simp: q)
  moreover have "q_calls q' j = q_calls q j" if "j \<notin> fst ` set (q_commands q)" for j
    using that q'(5) [of j] oth [of j] by (auto simp: q)
  ultimately show ?case using q'(2,3) by blast
qed

text \<open>A stuck thread: nothing more is executed or answered, and the channel fills up.\<close>

definition all_stuck :: "'s world \<Rightarrow> nat \<Rightarrow> 's call_queue \<Rightarrow> bool" where
  "all_stuck w n q \<longleftrightarrow> q_state q = Stuck \<and> q_open q \<and> q_world q = w \<and> length (q_commands q) = n \<and>
     n \<le> channel_capacity"

lemma stuck_step:
  assumes "all_stuck w n q" "queue_step c e s q = Some q'"
  shows "all_stuck w (n + length (sends [s])) q' \<and>
    (\<forall>i r. q_calls q' i = Some (Some (Answered r)) \<longrightarrow> q_calls q i = Some (Some (Answered r)))"
  using assms
  by (cases s) (auto simp: all_stuck_def send_step_def take_step_def expire_step_def
      split: if_splits list.splits)

lemma stuck_run:
  assumes "all_stuck w n q" "run_queue c e ss q = Some q'"
  shows "all_stuck w (n + length (sends ss)) q' \<and>
    (\<forall>i r. q_calls q' i = Some (Some (Answered r)) \<longrightarrow> q_calls q i = Some (Some (Answered r)))"
  using assms
proof (induction ss arbitrary: n q)
  case (Cons s ss)
  then obtain q1 where q1: "queue_step c e s q = Some q1" "run_queue c e ss q1 = Some q'"
    by (auto split: option.splits)
  note s1 = stuck_step [OF Cons.prems(1) q1(1)]
  from Cons.IH [OF conjunct1 [OF s1] q1(2)] s1 show ?case
    by (cases s) auto
qed simp

section \<open>One call at a time\<close>

text \<open>The channel of one client that makes one call at a time is a schedule of this machine.\<close>

definition same_link :: "'s link \<Rightarrow> 's call_queue \<Rightarrow> bool" where
  "same_link l q \<longleftrightarrow> lworld l = q_world q \<and> lstate l = q_state q \<and> queued l = length (q_commands q) \<and>
     (lstate l = Waiting \<longrightarrow> q_commands q = []) \<and> (q_open q \<longleftrightarrow> lstate l \<notin> {Stopped, Crashed})"

definition schedule :: "nat \<Rightarrow> pty_command \<Rightarrow> 's ctx \<Rightarrow> 's link \<Rightarrow> queue_event list" where
  "schedule i cmd c l =
     Send i cmd #
     (if lstate l = Waiting then
        (case fst (handle c cmd (lworld l)) of
           Returns r \<Rightarrow> (if next_late (lateness l) then [Expire i] else []) @ [Take] @
             (if cmd = ShutdownPty then [Hangup] else [])
         | Panics \<Rightarrow> [Take, Hangup]
         | _ \<Rightarrow> [Take, Expire i])
      else if lstate l = Stuck then [Expire i] else [])"

lemma handler_call_schedule:
  assumes "same_link l q" "q_calls q i = None" "lstate l \<noteq> Forked"
    and "handler_call e c ms cmd l = (res, l')" "res \<noteq> Never"
  shows "\<exists>q'. run_queue c e (schedule i cmd c l) q = Some q' \<and> same_link l' q' \<and> q_calls q' i = Some (Some res)"
proof (cases "lstate l")
  case Waiting
  obtain f w' where f: "handle c cmd (lworld l) = (f, w')" by fastforce
  show ?thesis
    using assms Waiting f
    by (cases f) (auto simp: handler_call_def schedule_def same_link_def send_step_def take_step_def
        expire_step_def resolve_def state_after_def channel_capacity_def Let_def)
qed (use assms in \<open>auto simp: handler_call_def schedule_def same_link_def send_step_def expire_step_def
    channel_capacity_def split: if_splits\<close>)

end
