(* ===== verification/Handle_Object.thy ===== *)
theory Handle_Object
  imports Call_Queue Worker_Laws
begin

text \<open>
  The handle as a whole (\<open>PtyHandle\<close> in \<open>src/pty/handle.rs\<close>): its calls, its worker, and the end of
  its life. \<open>drop\<close> runs on the thread of JavaScript: it signals the background task, sends the command
  that ends the handler thread, and shuts down the worker, while the handler thread, the timeouts of
  pending calls and the threads of the worker go on. Methods can be called, and the worker shut down by
  one of them, only before \<open>drop\<close> begins.
\<close>

section \<open>State and steps\<close>

datatype drop_stage = Held | DropSend | DropWorker | Gone

record 's handle_object =
  ho_calls :: "'s call_queue"
  ho_worker :: worker
  ho_signalled :: bool
  ho_stage :: drop_stage

datatype object_event = OCall queue_event | OWorker action | ODrop nat

text \<open>\<open>PtyHandle::new\<close>, once the world of the handler thread is there: nothing runs yet but the thread.\<close>

definition handle_object :: "'s world \<Rightarrow> 's handle_object" where
  "handle_object w =
     \<lparr>ho_calls = queue_start w, ho_worker = new_worker, ho_signalled = False, ho_stage = Held\<rparr>"

text \<open>
  One step of \<open>drop\<close>. Nobody awaits the answer of the command, which is sent under a fresh number; the
  result of the send is not looked at, but a send on a full channel blocks.
\<close>

definition drop_step ::
  "string \<Rightarrow> (u32 \<Rightarrow> nat) \<Rightarrow> nat \<Rightarrow> 's handle_object \<Rightarrow> 's handle_object option" where
  "drop_step send_err h i ho =
     (case ho_stage ho of
        Held \<Rightarrow>
          (if w_main (ho_worker ho) = MIdle
           then Some (ho\<lparr>ho_signalled := True, ho_stage := DropSend\<rparr>) else None)
      | DropSend \<Rightarrow>
          map_option (\<lambda>q. ho\<lparr>ho_calls := q, ho_stage := DropWorker\<rparr>)
            (send_step send_err i ShutdownPty (ho_calls ho))
      | DropWorker \<Rightarrow>
          map_option (\<lambda>wk. ho\<lparr>ho_worker := wk, ho_stage := (if w_main wk = MIdle then Gone else DropWorker)\<rparr>)
            (shutdown_step h (ho_worker ho))
      | Gone \<Rightarrow> None)"

text \<open>The method \<open>shutdown_worker\<close> of the handle is that of its worker.\<close>

definition h_shutdown_worker :: "(u32 \<Rightarrow> nat) \<Rightarrow> 's handle_object \<Rightarrow> 's handle_object option" where
  "h_shutdown_worker h ho =
     map_option (\<lambda>wk. ho\<lparr>ho_worker := wk\<rparr>) (shutdown_step h (ho_worker ho))"

text \<open>So is \<open>start_worker\<close>; the results of its connections are inputs.\<close>

definition h_start_worker ::
  "(unit, string) result \<Rightarrow> (unit, string) result \<Rightarrow> (unit, string) result \<Rightarrow> 's handle_object \<Rightarrow> 's handle_object" where
  "h_start_worker connect nonblocking bind ho =
     ho\<lparr>ho_worker := start_worker connect nonblocking bind (ho_worker ho)\<rparr>"

fun is_send :: "queue_event \<Rightarrow> bool" where
  "is_send (Send i cmd) = True"
| "is_send _ = False"

fun object_step :: "'s ctx \<Rightarrow> string \<Rightarrow> (u32 \<Rightarrow> nat) \<Rightarrow> object_event \<Rightarrow> 's handle_object \<Rightarrow> 's handle_object option" where
  "object_step c send_err h (OCall ev) ho =
     (if is_send ev \<and> ho_stage ho \<noteq> Held then None
      else map_option (\<lambda>q. ho\<lparr>ho_calls := q\<rparr>) (queue_step c send_err ev (ho_calls ho)))"
| "object_step c send_err h (OWorker a) ho =
     (if a = ShutdownStep then (if ho_stage ho = Held then h_shutdown_worker h ho else None)
      else map_option (\<lambda>wk. ho\<lparr>ho_worker := wk\<rparr>) (step h a (ho_worker ho)))"
| "object_step c send_err h (ODrop i) ho = drop_step send_err h i ho"

fun run_object ::
  "'s ctx \<Rightarrow> string \<Rightarrow> (u32 \<Rightarrow> nat) \<Rightarrow> object_event list \<Rightarrow> 's handle_object \<Rightarrow> 's handle_object option" where
  "run_object c send_err h [] ho = Some ho"
| "run_object c send_err h (e # es) ho =
     (case object_step c send_err h e ho of None \<Rightarrow> None | Some ho1 \<Rightarrow> run_object c send_err h es ho1)"

lemma run_object_append:
  "run_object c e h (es @ fs) ho =
     (case run_object c e h es ho of None \<Rightarrow> None | Some ho1 \<Rightarrow> run_object c e h fs ho1)"
  by (induction es arbitrary: ho) (auto split: option.splits)

section \<open>A drop that completes\<close>

lemma drop_sockets:
  assumes "ho_stage ho = DropWorker" "w_main (ho_worker ho) = MSockets cs"
    and "\<forall>k \<in> set cs. w_locks (ho_worker ho) (LSocket k) = None"
  shows "run_object c e h (replicate (length cs) (ODrop i)) ho =
    Some (ho\<lparr>ho_worker := (ho_worker ho)\<lparr>w_main := MSockets [], w_shut := w_shut (ho_worker ho) @ map Peer cs\<rparr>\<rparr>)"
  using assms
proof (induction cs arbitrary: ho)
  case Nil
  then show ?case by simp
next
  case (Cons k cs)
  define wk where "wk = (ho_worker ho)\<lparr>w_main := MSockets cs, w_shut := w_shut (ho_worker ho) @ [Peer k]\<rparr>"
  have "shutdown_step h (ho_worker ho) = Some wk"
    using Cons.prems by (simp add: shutdown_step_def worker_state_defs wk_def)
  then have st: "drop_step e h i ho = Some (ho\<lparr>ho_worker := wk\<rparr>)"
    using Cons.prems(1) by (simp add: drop_step_def wk_def)
  have "run_object c e h (replicate (length cs) (ODrop i)) (ho\<lparr>ho_worker := wk\<rparr>) =
      Some (ho\<lparr>ho_worker := wk, ho_worker := wk\<lparr>w_main := MSockets [], w_shut := w_shut wk @ map Peer cs\<rparr>\<rparr>)"
    using Cons.IH [of "ho\<lparr>ho_worker := wk\<rparr>"] Cons.prems by (simp add: wk_def)
  then show ?case using st by (simp add: wk_def)
qed

section \<open>A drop that never ends\<close>

text \<open>A full channel that nobody empties stops \<open>drop\<close> at its send.\<close>

definition full_stuck :: "'s handle_object \<Rightarrow> bool" where
  "full_stuck ho \<longleftrightarrow> q_state (ho_calls ho) = Stuck \<and> q_open (ho_calls ho) \<and>
     length (q_commands (ho_calls ho)) = channel_capacity \<and> ho_stage ho \<in> {Held, DropSend}"

lemma full_stuck_step:
  assumes "full_stuck ho" "object_step c e h ev ho = Some ho'"
  shows "full_stuck ho' \<and> q_world (ho_calls ho') = q_world (ho_calls ho)"
proof (cases ev)
  case (OCall qe)
  then obtain q where "queue_step c e qe (ho_calls ho) = Some q" "ho' = ho\<lparr>ho_calls := q\<rparr>"
    using assms(2) by (auto split: if_splits)
  then show ?thesis using assms(1)
    by (cases qe) (auto simp: full_stuck_def send_step_def take_step_def expire_step_def
        split: if_splits list.splits)
next
  case (OWorker a)
  then obtain wk where "ho' = ho\<lparr>ho_worker := wk\<rparr>"
    using assms(2) by (auto simp: h_shutdown_worker_def split: if_splits)
  then show ?thesis using assms(1) by (simp add: full_stuck_def)
next
  case (ODrop i)
  then show ?thesis using assms
    by (auto simp: full_stuck_def drop_step_def send_step_def split: if_splits)
qed

lemma full_stuck_run:
  "full_stuck ho \<Longrightarrow> run_object c e h es ho = Some ho' \<Longrightarrow>
     full_stuck ho' \<and> q_world (ho_calls ho') = q_world (ho_calls ho)"
proof (induction es arbitrary: ho)
  case (Cons ev es)
  then obtain ho1 where "object_step c e h ev ho = Some ho1" "run_object c e h es ho1 = Some ho'"
    by (auto split: option.splits)
  with Cons.IH [of ho1] full_stuck_step [OF Cons.prems(1)] show ?case by metis
qed simp

text \<open>A connection whose peer is silent stops it in the worker.\<close>

definition dropping_silent :: "nat \<Rightarrow> u32 \<Rightarrow> 's handle_object \<Rightarrow> bool" where
  "dropping_silent k sid ho \<longleftrightarrow> locks_inv (ho_worker ho) \<and> ho_stage ho = DropWorker \<and>
     w_writers (ho_worker ho) k = Some (sid, WReading) \<and> closing k (ho_worker ho)"

lemma dropping_silent_step:
  assumes "dropping_silent k sid ho" "object_step c e h ev ho = Some ho'"
    and "\<And>inp. ev \<noteq> OWorker (WriterStep k inp)"
  shows "dropping_silent k sid ho'"
proof -
  note inv = assms(1) [unfolded dropping_silent_def]
  have worker: "dropping_silent k sid (ho\<lparr>ho_worker := wk\<rparr>)"
    if "step h a (ho_worker ho) = Some wk" "\<And>inp. a \<noteq> WriterStep k inp" for a wk
    using inv writer_waiting_step [of "ho_worker ho" k sid h a wk] step_inv [of h a "ho_worker ho" wk] that
    by (simp add: dropping_silent_def)
  show ?thesis
  proof (cases ev)
    case (OCall qe)
    then show ?thesis using assms(1,2) by (auto simp: dropping_silent_def split: if_splits)
  next
    case (OWorker a)
    then have "a \<noteq> ShutdownStep" using assms(2) inv by (auto split: if_splits)
    then obtain wk where "step h a (ho_worker ho) = Some wk" "ho' = ho\<lparr>ho_worker := wk\<rparr>"
      using OWorker assms(2) by auto
    then show ?thesis using worker [of a wk] assms(3) OWorker by blast
  next
    case (ODrop i)
    then obtain wk where wk: "shutdown_step h (ho_worker ho) = Some wk"
      "ho' = ho\<lparr>ho_worker := wk, ho_stage := (if w_main wk = MIdle then Gone else DropWorker)\<rparr>"
      using assms(2) inv by (auto simp: drop_step_def)
    have "dropping_silent k sid (ho\<lparr>ho_worker := wk\<rparr>)" using worker [of ShutdownStep wk] wk(1) by simp
    then show ?thesis using wk(2) by (auto simp: dropping_silent_def closing_def)
  qed
qed

lemma dropping_silent_run:
  "dropping_silent k sid ho \<Longrightarrow> run_object c e h es ho = Some ho' \<Longrightarrow>
     \<forall>inp. OWorker (WriterStep k inp) \<notin> set es \<Longrightarrow> dropping_silent k sid ho'"
proof (induction es arbitrary: ho)
  case (Cons ev es)
  then obtain ho1 where ho1: "object_step c e h ev ho = Some ho1" "run_object c e h es ho1 = Some ho'"
    by (auto split: option.splits)
  have "dropping_silent k sid ho1"
    using Cons.prems(3) by (intro dropping_silent_step [OF Cons.prems(1) ho1(1)]) auto
  with Cons.IH [of ho1] ho1(2) Cons.prems(3) show ?case by auto
qed simp

end
