(* ===== verification/Queue_Properties.thy ===== *)
theory Queue_Properties
  imports Call_Queue Handler_Properties
begin

text \<open>
  Properties of overlapping calls of the handle.
\<close>

lemma run_capacity:
  "run_queue c e ss q = Some q' \<Longrightarrow> length (q_commands q) \<le> channel_capacity \<Longrightarrow>
     length (q_commands q') \<le> channel_capacity"
proof (induction ss arbitrary: q)
  case (Cons s ss)
  then obtain q1 where q1: "queue_step c e s q = Some q1" "run_queue c e ss q1 = Some q'"
    by (auto split: option.splits)
  have "length (q_commands q1) \<le> channel_capacity"
    using q1(1) Cons.prems(2)
    by (cases s) (auto simp: send_step_def take_step_def expire_step_def split: if_splits list.splits prod.splits)
  with Cons.IH [OF q1(2)] show ?case by simp
qed simp

text \<open>C2: overlapping calls are executed one at a time, in the order of their sends, whatever the
  interleaving: world, state and answers are those of the receive loop run on the commands taken, each
  answer reaches its own call or finds it timed out, and no call gets an answer that is not its own. A
  call that has timed out is executed all the same.\<close>

theorem calls_serialised:
  assumes "run_queue c e ss (queue_start w) = Some q"
  shows "\<exists>rs. handle_commands c (map (\<lambda>x. Received (snd x)) (take (takes ss) (sends ss))) w =
        (rs, q_state q, q_world q) \<and>
      (\<forall>k < length rs. q_calls q (fst (sends ss ! k)) \<in> {Some (Some (Answered (rs ! k))), Some (Some TimedOut)}) \<and>
      (\<forall>i r. q_calls q i = Some (Some (Answered r)) \<longrightarrow> (\<exists>k < length rs. fst (sends ss ! k) = i \<and> rs ! k = r))"
proof -
  from serial_run [OF assms] obtain dn rest rs where
    s: "serial c w dn rest rs q" "dn @ rest = sends ss" "length dn = takes ss" by blast
  then have dn: "take (takes ss) (sends ss) = dn" by (metis append_eq_conv_conj)
  from s(1) have h: "handle_commands c (map (\<lambda>x. Received (snd x)) dn) w = (rs, q_state q, q_world q)"
    and a: "answered (set (zip (map fst dn) rs)) (q_calls q)" by (simp_all add: serial_def)
  have len: "length rs \<le> length dn" using handle_commands_replies [OF h] by simp
  have nth: "fst (sends ss ! k) = map fst dn ! k" if "k < length rs" for k
    using that len s(2) by (metis length_map nth_append nth_map order_less_le_trans)
  have z: "(i, r) \<in> set (zip (map fst dn) rs) \<longleftrightarrow> (\<exists>k < length rs. map fst dn ! k = i \<and> rs ! k = r)" for i r
    unfolding in_set_zip using len by auto
  have "q_calls q (fst (sends ss ! k)) \<in> {Some (Some (Answered (rs ! k))), Some (Some TimedOut)}"
    if "k < length rs" for k
  proof -
    have "(fst (sends ss ! k), rs ! k) \<in> set (zip (map fst dn) rs)" using z nth that by metis
    then show ?thesis using a unfolding answered_def by blast
  qed
  moreover have "\<exists>k < length rs. fst (sends ss ! k) = i \<and> rs ! k = r"
    if "q_calls q i = Some (Some (Answered r))" for i r
  proof -
    have "(i, r) \<in> set (zip (map fst dn) rs)" using a that unfolding answered_def by blast
    then show ?thesis using z nth by metis
  qed
  ultimately show ?thesis using h dn by blast
qed

text \<open>The run of the applications: two writes and a status overlap, and the first write times out.\<close>

definition demo_run :: "queue_event list" where
  "demo_run = [Send 0 (Write [104]), Send 1 (Write [105]), Expire 0, Take, Send 2 Status, Take]"

definition demo_queue :: "kern call_queue" where
  "demo_queue = \<lparr>q_world = demo_world\<lparr>os := demo_kern\<lparr>kout := [104, 105]\<rparr>\<rparr>, q_state = Waiting,
     q_commands = [(2, Status)], q_open = True,
     q_calls = Map.empty(0 \<mapsto> Some TimedOut, 1 \<mapsto> Some (Answered (Success ''Wrote 1 bytes'')), 2 \<mapsto> None)\<rparr>"

lemma demo_write:
  "handle demo_ctx (Write d) (demo_world\<lparr>os := demo_kern\<lparr>kout := out\<rparr>\<rparr>) =
     (Returns (Success (''Wrote '' @ show_nat (length d) @ '' bytes'')),
      demo_world\<lparr>os := demo_kern\<lparr>kout := out @ d\<rparr>\<rparr>)"
  by (simp add: handle_write_def with_pty_def write_data_def demo_world_def demo_ctx_def demo_sys_def
      demo_kern_def demo_proc_def)

lemma demo_world_os: "demo_world\<lparr>os := demo_kern\<lparr>kout := []\<rparr>\<rparr> = demo_world"
  by (simp add: demo_world_def demo_kern_def)

lemma show_one: "show_nat (Suc 0) = ''1''"
  by code_simp

lemma demo_run_result: "run_queue demo_ctx ''closed'' demo_run (queue_start demo_world) = Some demo_queue"
  using demo_write [of "[104]" "[]"] demo_write [of "[105]" "[104]"]
  by (simp add: demo_run_def demo_queue_def queue_start_def send_step_def take_step_def expire_step_def
      demo_world_os resolve_def state_after_def channel_capacity_def show_one fun_upd_twist)

theorem calls_serialised_witness:
  "\<exists>rs. handle_commands demo_ctx [Received (Write [104]), Received (Write [105])] demo_world =
      (rs, q_state demo_queue, q_world demo_queue)"
  using calls_serialised [OF demo_run_result] by (auto simp: demo_run_def)

text \<open>While the thread takes commands, every pending call can be answered: once the commands in
  the channel have been taken the channel is empty and no call awaits an answer, if their handlers are
  those of which none blocks, panics, forks or ends the loop.\<close>

theorem pending_calls_answered:
  assumes "run_queue c e ss (queue_start w) = Some q" "world_inv w" "q_state q = Waiting"
    and "\<forall>x \<in> set (q_commands q). orderly (snd x)"
  shows "\<exists>q'. run_queue c e (ss @ replicate (length (q_commands q)) Take) (queue_start w) = Some q' \<and>
      q_commands q' = [] \<and> q_state q' = Waiting \<and>
      (\<forall>i. q_calls q i = Some None \<longrightarrow> (\<exists>r. q_calls q' i = Some (Some (Answered r))))"
proof -
  from serial_run [OF assms(1)] obtain dn rest rs where s: "serial c w dn rest rs q" by blast
  then have inv: "world_inv (q_world q)"
    using handle_commands_inv [OF assms(2)] assms(3) by (auto simp: serial_def)
  have "distinct (map fst (q_commands q))"
    using s assms(3) by (auto simp: serial_def kept_order_def made_def split: if_splits)
  from take_all [OF assms(3) inv assms(4) this, of c e] obtain q' where
    q': "run_queue c e (replicate (length (q_commands q)) Take) q = Some q'" "q_commands q' = []"
      "q_state q' = Waiting"
      "\<And>i. q_calls q i = Some None \<Longrightarrow> i \<in> fst ` set (q_commands q) \<Longrightarrow> \<exists>r. q_calls q' i = Some (Some (Answered r))"
    by blast
  then show ?thesis
    using serial_awaits [OF s assms(3)] assms(1) by (auto simp: run_queue_append)
qed

theorem pending_calls_answered_witness:
  "\<exists>q'. run_queue demo_ctx ''closed'' (demo_run @ [Take]) (queue_start demo_world) = Some q' \<and>
     q_commands q' = [] \<and> (\<exists>r. q_calls q' 2 = Some (Some (Answered r)))"
proof -
  have "replicate (length (q_commands demo_queue)) Take = [Take]" by (simp add: demo_queue_def)
  note [simp] = this
  have "q_calls demo_queue 2 = Some None" "q_state demo_queue = Waiting"
    "\<forall>x \<in> set (q_commands demo_queue). orderly (snd x)"
    by (simp_all add: demo_queue_def)
  with pending_calls_answered [OF demo_run_result demo_world_inv] show ?thesis by auto
qed

text \<open>C24: a merge of an existing session blocks every overlapping call: whatever happens afterwards, the
  thread stays stuck, the merge, the calls already pending and all later ones stay without an answer, and
  of the later ones at most a hundred are sent.\<close>

theorem merge_blocks_all_calls:
  assumes "run_queue c e ss (queue_start w) = Some q" "world_inv w" "q_state q = Waiting"
    and "q_commands q = (i, MergeSessions ids) # cs" "existing_merge (q_world q) (MergeSessions ids)"
    and "run_queue c e (Take # ts) q = Some q'"
  shows "q_state q' = Stuck \<and> length cs + length (sends ts) \<le> 100 \<and>
      (\<forall>j r. q_calls q' j = Some (Some (Answered r)) \<longrightarrow> q_calls q j = Some (Some (Answered r)))"
proof -
  from serial_run [OF assms(1)] obtain dn rest rs where s: "serial c w dn rest rs q" by blast
  then have inv: "world_inv (q_world q)" and opn: "q_open q"
    using handle_commands_inv [OF assms(2)] assms(3) by (auto simp: serial_def kept_order_def split: if_splits)
  have "length (q_commands q) \<le> channel_capacity"
    using run_capacity [OF assms(1)] by (simp add: queue_start_def)
  then have len: "length cs \<le> channel_capacity" by (simp add: assms(4))
  obtain w' where h: "handle c (MergeSessions ids) (q_world q) = (Hangs, w')"
    using handle_hangs_iff [OF inv] assms(5) by (metis prod.collapse)
  define q1 where "q1 = q\<lparr>q_world := w', q_state := Stuck, q_commands := cs\<rparr>"
  have "take_step c q = Some q1"
    using h by (simp add: take_step_def assms(3,4) q1_def state_after_def)
  then have "run_queue c e ts q1 = Some q'" using assms(6) by simp
  moreover have "all_stuck w' (length cs) q1" using opn len by (simp add: all_stuck_def q1_def)
  ultimately have "all_stuck w' (length cs + length (sends ts)) q' \<and>
      (\<forall>j r. q_calls q' j = Some (Some (Answered r)) \<longrightarrow> q_calls q1 j = Some (Some (Answered r)))"
    using stuck_run by blast
  then show ?thesis by (simp add: all_stuck_def q1_def channel_capacity_def)
qed

definition merge_run :: "queue_event list" where
  "merge_run = [Send 0 (MergeSessions [1, 2]), Send 1 Status]"

definition merge_queue :: "kern call_queue" where
  "merge_queue = \<lparr>q_world = demo_world, q_state = Waiting,
     q_commands = [(0, MergeSessions [1, 2]), (1, Status)], q_open = True,
     q_calls = Map.empty(0 \<mapsto> None, 1 \<mapsto> None)\<rparr>"

lemma merge_run_result: "run_queue demo_ctx ''closed'' merge_run (queue_start demo_world) = Some merge_queue"
  by (simp add: merge_run_def merge_queue_def queue_start_def send_step_def channel_capacity_def)

theorem merge_blocks_all_calls_witness:
  "\<exists>q'. run_queue demo_ctx ''closed'' [Take, Send 2 Status, Expire 1] merge_queue = Some q' \<and>
     q_state q' = Stuck \<and> (\<forall>j r. q_calls q' j \<noteq> Some (Some (Answered r)))"
proof -
  have m: "existing_merge (q_world merge_queue) (MergeSessions [1, 2])"
    by (auto simp: existing_merge_def merge_queue_def demo_world_def two_sessions_view)
  then have "existing_merge demo_world (MergeSessions [1, 2])" by (simp add: merge_queue_def)
  then have "fst (handle demo_ctx (MergeSessions [1, 2]) demo_world) = Hangs"
    by (rule handle_hangs_iff [OF demo_world_inv, THEN iffD2])
  then obtain w' where "handle demo_ctx (MergeSessions [1, 2]) demo_world = (Hangs, w')"
    by (metis prod.collapse)
  then obtain q' where q': "run_queue demo_ctx ''closed'' (Take # [Send 2 Status, Expire 1]) merge_queue = Some q'"
    by (simp add: merge_queue_def take_step_def send_step_def expire_step_def state_after_def channel_capacity_def)
  have "q_state merge_queue = Waiting"
    "q_commands merge_queue = (0, MergeSessions [1, 2]) # [(1, Status)]"
    "q_calls merge_queue j \<noteq> Some (Some (Answered r))" for j r
    by (simp_all add: merge_queue_def)
  with merge_blocks_all_calls [OF merge_run_result demo_world_inv _ _ m q'] q' show ?thesis by blast
qed

end
