(* ===== verification/Object_Properties.thy ===== *)
theory Object_Properties
  imports Handle_Object Queue_Properties Worker_Properties
begin

text \<open>
  Properties of the end of a handle's life.
\<close>

text \<open>C29: dropping a handle. When the channel has room, or its other end is gone, and nothing holds a mutex
  of the worker, \<open>drop\<close> returns after one step for each session of the worker and seven more: the
  background task was signalled, the shutdown command is the last in the channel, every socket of the
  worker was shut down once, and nothing else changed in the calls.\<close>

theorem drop_completes:
  assumes "ho_stage ho = Held" "q_state (ho_calls ho) \<noteq> Forked" "q_calls (ho_calls ho) i = None"
    and "q_open (ho_calls ho) \<longrightarrow> length (q_commands (ho_calls ho)) < channel_capacity"
    and "w_main (ho_worker ho) = MIdle" "w_locks (ho_worker ho) LSessions = None"
    and "\<forall>ses \<in> set (map snd (entries_in h (w_sessions (ho_worker ho)))).
      w_locks (ho_worker ho) (LSocket (ws_socket ses)) = None"
  shows "\<exists>ho'. run_object c e h (replicate (length (entries_in h (w_sessions (ho_worker ho))) + 7) (ODrop i)) ho = Some ho' \<and>
    ho_stage ho' = Gone \<and> ho_signalled ho' \<and> q_world (ho_calls ho') = q_world (ho_calls ho) \<and>
    q_commands (ho_calls ho') =
      q_commands (ho_calls ho) @ (if q_open (ho_calls ho) then [(i, ShutdownPty)] else []) \<and>
    w_shutdown (ho_worker ho') \<and>
    w_shut (ho_worker ho') = w_shut (ho_worker ho) @ (if w_conout (ho_worker ho) then [Conout] else []) @
      map (Peer \<circ> ws_socket \<circ> snd) (entries_in h (w_sessions (ho_worker ho)))"
proof -
  define q where "q = ho_calls ho"
  define wk where "wk = ho_worker ho"
  define cs where "cs = map (ws_socket \<circ> snd) (entries_in h (w_sessions wk))"
  obtain q1 where q1: "send_step e i ShutdownPty q = Some q1" "q_world q1 = q_world q"
    "q_commands q1 = q_commands q @ (if q_open q then [(i, ShutdownPty)] else [])"
    using assms(3,4) by (cases "q_open q") (auto simp: send_step_def q_def)
  define wk3 where "wk3 = wk\<lparr>w_shutdown := True, w_conout := False, w_main := MSockets cs,
    w_shut := w_shut wk @ (if w_conout wk then [Conout] else []),
    w_locks := (w_locks wk)(LSessions := Some TMain)\<rparr>"
  define ho5 where "ho5 = ho\<lparr>ho_signalled := True, ho_calls := q1, ho_stage := DropWorker, ho_worker := wk3\<rparr>"
  have start: "run_object c e h (replicate 5 (ODrop i)) ho = Some ho5"
    using assms(1,5,6) q1(1)
    by (simp add: numeral_eq_Suc drop_step_def shutdown_step_def worker_state_defs wk3_def ho5_def cs_def
        q_def wk_def)
  define ho6 where "ho6 = ho5\<lparr>ho_worker := wk3\<lparr>w_main := MSockets [], w_shut := w_shut wk3 @ map Peer cs\<rparr>\<rparr>"
  have loop: "run_object c e h (replicate (length cs) (ODrop i)) ho5 = Some ho6"
    using drop_sockets [of ho5 cs c e h i] assms(7) by (auto simp: ho5_def ho6_def wk3_def cs_def wk_def)
  obtain ho' where last: "run_object c e h (replicate 2 (ODrop i)) ho6 = Some ho'"
    and ho': "ho_stage ho' = Gone" "ho_signalled ho'" "ho_calls ho' = q1" "w_shutdown (ho_worker ho')"
      "w_shut (ho_worker ho') = w_shut wk @ (if w_conout wk then [Conout] else []) @ map Peer cs"
    by (simp add: numeral_eq_Suc drop_step_def shutdown_step_def worker_state_defs ho6_def ho5_def wk3_def)
  have n: "length (entries_in h (w_sessions wk)) + 7 = 5 + (length cs + 2)" by (simp add: cs_def)
  have "replicate (length (entries_in h (w_sessions wk)) + 7) (ODrop i) =
      replicate 5 (ODrop i) @ replicate (length cs) (ODrop i) @ replicate 2 (ODrop i)"
    by (simp only: n replicate_add)
  then have "run_object c e h (replicate (length (entries_in h (w_sessions wk)) + 7) (ODrop i)) ho = Some ho'"
    by (simp only: run_object_append start loop last option.case)
  then show ?thesis using ho' q1 by (auto simp: q_def wk_def cs_def)
qed

text \<open>A handle with two sessions in its multiplexer and a worker with one connection.\<close>

definition demo_object :: "kern handle_object" where
  "demo_object = \<lparr>ho_calls = demo_queue, ho_worker = connected, ho_signalled = False, ho_stage = Held\<rparr>"

theorem drop_completes_witness:
  "\<exists>ho'. run_object demo_ctx ''closed'' visit (replicate 8 (ODrop 5)) demo_object = Some ho' \<and>
     ho_stage ho' = Gone \<and> q_commands (ho_calls ho') = [(2, Status), (5, ShutdownPty)]"
  using drop_completes [of demo_object 5 visit demo_ctx "''closed''"]
  by (auto simp: demo_object_def demo_queue_def channel_capacity_def connected_def worker_eval)

text \<open>C16: two ways in which dropping a handle never ends, whatever the threads, the timeouts and the calls
  still do. While the handler thread is stuck and the channel is full, \<open>drop\<close> does not get past its send,
  and the shell it was to end lives on. While a peer of the worker is silent with its socket's mutex held,
  \<open>drop\<close> does not get past the worker.\<close>

theorem drop_never_ends:
  assumes "run_object c e h es ho = Some ho'"
  shows "(full_stuck ho \<longrightarrow> ho_stage ho' \<in> {Held, DropSend} \<and> q_world (ho_calls ho') = q_world (ho_calls ho)) \<and>
    (worker_reach h (ho_worker ho) \<and> ho_stage ho = DropWorker \<and> w_writers (ho_worker ho) k = Some (sid, WReading) \<and>
     closing k (ho_worker ho) \<and> (\<forall>inp. OWorker (WriterStep k inp) \<notin> set es) \<longrightarrow> ho_stage ho' = DropWorker)"
  using full_stuck_run [OF _ assms] dropping_silent_run [OF _ assms, of k sid] worker_reach_inv [of h "ho_worker ho"]
  by (auto simp: full_stuck_def dropping_silent_def)

definition full_object :: "kern handle_object" where
  "full_object = demo_object\<lparr>ho_calls :=
     \<lparr>q_world = demo_world, q_state = Stuck, q_commands = map (\<lambda>i. (i, Status)) [1..<101], q_open = True,
      q_calls = Map.empty\<rparr>\<rparr>"

theorem drop_never_ends_witness:
  "(\<exists>ho'. run_object demo_ctx ''closed'' visit [ODrop 200, OWorker (ReaderStep 0 NoData)] full_object = Some ho' \<and>
     ho_stage ho' \<in> {Held, DropSend}) \<and>
   (\<exists>st ho'. run visit (connecting @ [WriterStep 0 Go] @ closing_down) started_worker = Some st \<and>
     run_object demo_ctx ''closed'' visit [OWorker (ReaderStep 0 (Got [])), OCall Take]
       (demo_object\<lparr>ho_worker := st, ho_stage := DropWorker\<rparr>) = Some ho' \<and> ho_stage ho' = DropWorker)"
proof (rule conjI)
  have full: "full_stuck full_object"
    by (simp add: full_stuck_def full_object_def demo_object_def channel_capacity_def)
  obtain ho' where ho': "run_object demo_ctx ''closed'' visit [ODrop 200, OWorker (ReaderStep 0 NoData)] full_object = Some ho'"
    by (simp add: full_object_def demo_object_def drop_step_def connected_def worker_eval)
  from drop_never_ends [OF this] full ho'
  show "\<exists>ho'. run_object demo_ctx ''closed'' visit [ODrop 200, OWorker (ReaderStep 0 NoData)] full_object = Some ho' \<and>
     ho_stage ho' \<in> {Held, DropSend}" by blast
next
  obtain st where st: "run visit ([WriterStep 0 Go] @ closing_down) connected = Some st"
    "w_writers st 0 = Some (1, WReading)" "closing 0 st" "w_readers st 0 = Some (1, RRead)"
    by (simp add: connected_def worker_eval closing_def)
  then have r: "run visit (connecting @ [WriterStep 0 Go] @ closing_down) started_worker = Some st"
    unfolding run_append [of _ connecting] run_connected by simp
  note reach = worker_reach_run [OF worker_reach_started r]
  define ho where "ho = demo_object\<lparr>ho_worker := st, ho_stage := DropWorker\<rparr>"
  obtain ho' where ho': "run_object demo_ctx ''closed'' visit [OWorker (ReaderStep 0 (Got [])), OCall Take] ho = Some ho'"
    using st(4) by (cases "take_step demo_ctx demo_queue")
      (auto simp: ho_def demo_object_def reader_step_def worker_state_defs demo_queue_def take_step_def
        split: prod.splits)
  have "ho_stage ho' = DropWorker"
    using drop_never_ends [OF ho', of 0 1] reach st by (auto simp: ho_def)
  then show "\<exists>st ho'. run visit (connecting @ [WriterStep 0 Go] @ closing_down) started_worker = Some st \<and>
     run_object demo_ctx ''closed'' visit [OWorker (ReaderStep 0 (Got [])), OCall Take]
       (demo_object\<lparr>ho_worker := st, ho_stage := DropWorker\<rparr>) = Some ho' \<and> ho_stage ho' = DropWorker"
    using r ho' unfolding ho_def by blast
qed

end
