(* ===== verification/Live_Output.thy ===== *)
theory Live_Output
  imports Call_Queue "HOL-Library.Multiset"
begin

text \<open>
  Output while calls overlap. Two background tasks read the master side and hand what they read to every
  session: the one \<open>PtyMultiplexer::new\<close> spawns (\<open>src/pty/multiplexer.rs\<close>) and the one
  \<open>PtyHandle::new\<close> spawns (\<open>src/pty/handle.rs\<close>). They share the sessions with the handler thread but no
  lock, so that a read and the dispatch of what was read are two steps between which the other task and
  the handler thread can run. A dispatch is one step: it takes a clone of every session of the table and
  appends the piece to the buffer of each, so that a session that is there from its start to its end sees
  one append. \<open>Overlapping_Ops\<close> has its steps, and what can happen to the other sessions between them.
\<close>

section \<open>State and steps\<close>

datatype task = TMux | THandle

datatype task_state = TReady | THolding bytes | TStuck | TEnded

text \<open>
  The last three fields record the run: the pieces of output in the order they were read and in the order
  they were dispatched, and the calls the thread has answered, with their commands and answers.
\<close>

record 's live =
  lv_queue :: "'s call_queue"
  lv_tasks :: "task \<Rightarrow> task_state"
  lv_read :: "bytes list"
  lv_sent :: "bytes list"
  lv_log :: "(nat \<times> pty_command \<times> pty_result) list"

datatype live_event = LCall queue_event | LRead task | LDispatch task | LSignal

definition live_start :: "'s world \<Rightarrow> 's live" where
  "live_start w = \<lparr>lv_queue = queue_start w, lv_tasks = (\<lambda>t. TReady), lv_read = [], lv_sent = [], lv_log = []\<rparr>"

text \<open>After an error the task of the handle ends, that of the multiplexer sleeps and tries again.\<close>

fun after_error :: "task \<Rightarrow> task_state" where
  "after_error TMux = TReady"
| "after_error THandle = TEnded"

text \<open>The first half of \<open>read_and_dispatch\<close>: \<open>read_data\<close> and the match on its result.\<close>

definition read_step :: "'s ctx \<Rightarrow> task \<Rightarrow> 's live \<Rightarrow> 's live option" where
  "read_step c t lv =
     (let w = q_world (lv_queue lv)
      in case (lv_tasks lv t, hmux w) of
           (TReady, Some (p, m)) \<Rightarrow>
             (case if_read_data (process_iface (c_sys c) p) 4096 (os w) of
                (r, s1) \<Rightarrow>
                  let lv1 = lv\<lparr>lv_queue := (lv_queue lv)\<lparr>q_world := w\<lparr>os := s1\<rparr>\<rparr>\<rparr>
                  in case r of
                       Ok d \<Rightarrow>
                         (if d \<noteq> [] then
                            Some (lv1\<lparr>lv_tasks := (lv_tasks lv)(t := THolding d), lv_read := lv_read lv @ [d]\<rparr>)
                          else Some lv1)
                     | Err e \<Rightarrow>
                         (if kind e = WouldBlock then Some lv1
                          else Some (lv1\<lparr>lv_tasks := (lv_tasks lv)(t := after_error t)\<rparr>)))
         | _ \<Rightarrow> None)"

text \<open>The second half: \<open>dispatch_output\<close>, which hangs on a buffer that stays locked.\<close>

definition dispatch_step :: "'s ctx \<Rightarrow> task \<Rightarrow> 's live \<Rightarrow> 's live option" where
  "dispatch_step c t lv =
     (let w = q_world (lv_queue lv)
      in case (lv_tasks lv t, hmux w) of
           (THolding d, Some (p, m)) \<Rightarrow>
             (case dispatch_output (c_hash c) d m of
                (f, m1) \<Rightarrow>
                  let lv1 = lv\<lparr>lv_queue := (lv_queue lv)\<lparr>q_world := w\<lparr>hmux := Some (p, m1)\<rparr>\<rparr>,
                    lv_sent := lv_sent lv @ [d]\<rparr>
                  in Some (lv1\<lparr>lv_tasks := (lv_tasks lv)(t := (case f of
                       Returns (Ok _) \<Rightarrow> TReady
                     | Returns (Err _) \<Rightarrow> after_error t
                     | _ \<Rightarrow> TStuck))\<rparr>))
         | _ \<Rightarrow> None)"

text \<open>What a step of the calls adds to the record.\<close>

fun log_of :: "'s ctx \<Rightarrow> queue_event \<Rightarrow> 's call_queue \<Rightarrow> (nat \<times> pty_command \<times> pty_result) list" where
  "log_of c Take q =
     (case q_commands q of
        (i, cmd) # rest \<Rightarrow> (case handle c cmd (q_world q) of (Returns r, w) \<Rightarrow> [(i, cmd, r)] | _ \<Rightarrow> [])
      | [] \<Rightarrow> [])"
| "log_of c _ q = []"

text \<open>The signal of \<open>drop\<close> is seen by the task of the handle before a read. The child of a fork has no tasks.\<close>

fun live_step :: "'s ctx \<Rightarrow> string \<Rightarrow> live_event \<Rightarrow> 's live \<Rightarrow> 's live option" where
  "live_step c send_err (LCall ev) lv =
     map_option (\<lambda>q. lv\<lparr>lv_queue := q, lv_log := lv_log lv @ log_of c ev (lv_queue lv)\<rparr>)
       (queue_step c send_err ev (lv_queue lv))"
| "live_step c send_err (LRead t) lv = (if q_state (lv_queue lv) = Forked then None else read_step c t lv)"
| "live_step c send_err (LDispatch t) lv =
     (if q_state (lv_queue lv) = Forked then None else dispatch_step c t lv)"
| "live_step c send_err LSignal lv =
     (if lv_tasks lv THandle = TReady then Some (lv\<lparr>lv_tasks := (lv_tasks lv)(THandle := TEnded)\<rparr>) else None)"

fun run_live :: "'s ctx \<Rightarrow> string \<Rightarrow> live_event list \<Rightarrow> 's live \<Rightarrow> 's live option" where
  "run_live c send_err [] lv = Some lv"
| "run_live c send_err (ev # evs) lv =
     (case live_step c send_err ev lv of None \<Rightarrow> None | Some lv1 \<Rightarrow> run_live c send_err evs lv1)"

text \<open>The two halves in a row are a turn of the task of the handle.\<close>

lemma task_turn_steps:
  assumes "lv_tasks lv THandle = TReady" "hmux (q_world (lv_queue lv)) = Some (p, m)" "mux_inv m"
    and "handle_task_turn (c_hash c) (show_err c) (process_iface (c_sys c) p) False
      (m, os (q_world (lv_queue lv))) = (go, (m1, s1))"
  shows "\<exists>lv1. (read_step c THandle lv = Some lv1 \<and> (\<forall>d. lv_tasks lv1 THandle \<noteq> THolding d) \<or>
      (\<exists>lv0. read_step c THandle lv = Some lv0 \<and> dispatch_step c THandle lv0 = Some lv1)) \<and>
    os (q_world (lv_queue lv1)) = s1 \<and> hmux (q_world (lv_queue lv1)) = Some (p, m1) \<and>
    lv_tasks lv1 THandle = (if go then TReady else TEnded)"
proof -
  obtain r s' where r: "if_read_data (process_iface (c_sys c) p) 4096 (os (q_world (lv_queue lv))) = (r, s')"
    by fastforce
  show ?thesis
  proof (cases "\<exists>d. r = Ok d \<and> d \<noteq> []")
    case True
    then obtain d where d: "r = Ok d" "d \<noteq> []" by blast
    obtain m' where disp: "dispatch_output (c_hash c) d m = (Returns (Ok ()), m')"
      using dispatch_output_refines [OF assms(3), of "c_hash c" d] by blast
    have g: "go" "m1 = m'" "s1 = s'"
      using assms(4) d by (simp_all add: handle_task_turn_def read_and_dispatch_def r disp)
    define lv0 where "lv0 = lv\<lparr>lv_queue := (lv_queue lv)\<lparr>q_world := (q_world (lv_queue lv))\<lparr>os := s'\<rparr>\<rparr>,
      lv_tasks := (lv_tasks lv)(THandle := THolding d), lv_read := lv_read lv @ [d]\<rparr>"
    have "read_step c THandle lv = Some lv0"
      using assms(1,2) d(2) by (simp add: read_step_def r d(1) lv0_def Let_def)
    moreover obtain lv1 where "dispatch_step c THandle lv0 = Some lv1" "os (q_world (lv_queue lv1)) = s'"
      "hmux (q_world (lv_queue lv1)) = Some (p, m')" "lv_tasks lv1 THandle = TReady"
      using assms(2) by (simp add: dispatch_step_def lv0_def disp Let_def)
    ultimately show ?thesis using g by auto
  next
    case False
    then obtain lv1 where "read_step c THandle lv = Some lv1" "\<forall>d. lv_tasks lv1 THandle \<noteq> THolding d"
      "os (q_world (lv_queue lv1)) = s1" "hmux (q_world (lv_queue lv1)) = Some (p, m1)"
      "lv_tasks lv1 THandle = (if go then TReady else TEnded)"
      using assms(1,2,4)
      by (cases r) (auto simp: handle_task_turn_def read_and_dispatch_def read_step_def r split: if_splits)
    then show ?thesis by blast
  qed
qed

section \<open>Commands that leave a session in place\<close>

text \<open>
  Of the commands that add or remove sessions, only those that cannot take \<open>k\<close> away. A new session may get
  the id 0, when the ids wrap around.
\<close>

fun keeps :: "u32 \<Rightarrow> pty_command \<Rightarrow> bool" where
  "keeps k (RemoveSession j) = (j \<noteq> k)"
| "keeps k CreateSession = (k \<noteq> 0)"
| "keeps k CloseAllSessions = False"
| "keeps k (MergeSessions ids) = False"
| "keeps k (SplitSession j) = False"
| "keeps k _ = True"

text \<open>The session \<open>k\<close> is there, with the unread output \<open>out\<close>.\<close>

definition holds_unread :: "u32 \<Rightarrow> bytes \<Rightarrow> mux \<Rightarrow> bool" where
  "holds_unread k out m \<longleftrightarrow> mux_inv m \<and> map_option snd (view m k) = Some out"

definition unread :: "u32 \<Rightarrow> bytes \<Rightarrow> 's world \<Rightarrow> bool" where
  "unread k out w \<longleftrightarrow> (\<exists>p m. hmux w = Some (p, m) \<and> holds_unread k out m)"

lemma unread_cong: "hmux w' = hmux w \<Longrightarrow> unread k out w' = unread k out w"
  by (simp add: unread_def)

lemma next_id_not:
  assumes "k \<in> dom (view m)" "k \<noteq> 0"
  shows "next_id h m \<noteq> k"
proof (cases "max_key h m")
  case None
  then show ?thesis using assms(1) by (simp add: max_key_None_iff)
next
  case (Some j)
  have le: "k \<le> j" by (rule max_key_Some(2) [OF Some assms(1)])
  show ?thesis
  proof (cases "j = - 1")
    case False
    then show ?thesis using word_less_Suc [of j] le by (auto simp: next_id_def Some)
  qed (use assms(2) in \<open>simp add: next_id_def Some\<close>)
qed

lemma holds_create:
  assumes "holds_unread k out m" "k \<noteq> 0"
  shows "holds_unread k out (snd (create_session h m))"
proof -
  have "mux_inv m" "next_id h m \<noteq> k"
    using assms next_id_not [of k m h] by (auto simp: holds_unread_def)
  with assms(1) show ?thesis
    using create_session_refines(2,3) [OF \<open>mux_inv m\<close>, of h] by (simp add: holds_unread_def)
qed

lemma holds_remove:
  assumes "holds_unread k out m" "j \<noteq> k"
  shows "holds_unread k out (snd (remove_session j m))"
  using assms remove_session_refines [OF _ surjective_pairing, of m j] by (simp add: holds_unread_def)

lemma holds_send:
  assumes "holds_unread k out m"
  shows "holds_unread k out (fst (snd (send_to_session disp ifc j data m s)))"
proof -
  obtain r m' s' where e: "send_to_session disp ifc j data m s = (r, m', s')" by (metis prod_cases3)
  show ?thesis using assms send_to_session_refines [OF _ e]
    by (auto simp: holds_unread_def e split: option.splits)
qed

lemma holds_broadcast:
  assumes "holds_unread k out m"
  shows "holds_unread k out (fst (snd (broadcast disp ifc data m s)))"
proof -
  obtain r m' s' where e: "broadcast disp ifc data m s = (r, m', s')" by (metis prod_cases3)
  show ?thesis using assms broadcast_refines [OF _ e]
    by (auto simp: holds_unread_def e)
qed

lemma holds_read:
  assumes "holds_unread k out m" "j \<noteq> k"
  shows "holds_unread k out (snd (read_from_session j m))"
proof -
  obtain r m' where e: "read_from_session j m = (r, m')" by fastforce
  show ?thesis using assms read_from_session_refines [OF _ e]
    by (auto simp: holds_unread_def e split: option.splits)
qed

lemma holds_dispatch:
  assumes "holds_unread k out m"
  shows "\<exists>m'. dispatch_output h d m = (Returns (Ok ()), m') \<and> holds_unread k (out @ d) m'"
  using assms dispatch_output_refines [of m h d] by (fastforce simp: holds_unread_def)

text \<open>An operation of the multiplexer in its cell.\<close>

lemma with_mux_unread:
  assumes "unread k out w"
    and "\<And>ifc p m. holds_unread k out m \<Longrightarrow> holds_unread k out (fst (snd (f ifc m (os w))))"
  shows "unread k out (snd (with_mux c what f w))"
proof -
  obtain p m where w: "hmux w = Some (p, m)" "holds_unread k out m" using assms(1) by (auto simp: unread_def)
  obtain r m1 s1 where f: "f (process_iface (c_sys c) p) m (os w) = (r, m1, s1)" by (metis prod_cases3)
  have "holds_unread k out m1" using assms(2) [OF w(2), of "process_iface (c_sys c) p"] by (simp add: f)
  then show ?thesis by (simp add: with_mux_def w(1) f unread_def)
qed

lemma unread_read:
  assumes "unread k out w"
  shows "\<exists>w'. handle c (ReadFromSession k) w = (Returns (Success (from_utf8_lossy out)), w') \<and> unread k [] w'"
proof -
  obtain p m i where w: "hmux w = Some (p, m)" "mux_inv m" "view m k = Some (i, out)"
    using assms by (auto simp: unread_def holds_unread_def)
  obtain r m' where r: "read_from_session k m = (r, m')" by fastforce
  show ?thesis using w r read_from_session_refines [OF w(2) r]
    by (auto simp: handle_read_from_session_def unread_def holds_unread_def)
qed

lemma unread_keeps:
  assumes "unread k out w" "keeps k cmd" "cmd \<noteq> ReadFromSession k"
  shows "unread k out (snd (handle c cmd w))"
proof (cases "mux_command cmd")
  case False
  then show ?thesis using unread_cong [OF handle_pty_frame [OF surjective_pairing False]] assms(1) by blast
next
  case True
  note step = with_mux_unread [OF assms(1)]
  show ?thesis
  proof (cases cmd)
    case CreateSession
    then show ?thesis using assms(2) holds_create [of k out _ "c_hash c"]
      by (auto simp: handle_create_session_def split_def intro!: step)
  next
    case (RemoveSession j)
    then show ?thesis using assms(2) holds_remove [of k out _ j]
      by (auto simp: handle_remove_session_def split_def intro!: step)
  next
    case ListSessions
    then show ?thesis by (auto simp: handle_list_sessions_def split_def intro!: step)
  next
    case (Broadcast data)
    then show ?thesis using holds_broadcast by (auto simp: handle_broadcast_def split_def intro!: step)
  next
    case (SendToSession j data)
    then show ?thesis using holds_send by (auto simp: handle_send_to_session_def split_def intro!: step)
  next
    case (ReadFromSession j)
    obtain p m where w: "hmux w = Some (p, m)" "holds_unread k out m"
      using assms(1) by (auto simp: unread_def)
    with holds_read [of k out m j] ReadFromSession assms(3) show ?thesis
      by (auto simp: handle_read_from_session_def unread_def split: prod.splits flow.splits)
  next
    case ReadAllSessions
    obtain p m where w: "hmux w = Some (p, m)" "holds_unread k out m"
      using assms(1) by (auto simp: unread_def)
    with read_all_sessions_eq [of m "c_hash c"] ReadAllSessions show ?thesis
      by (auto simp: handle_read_all_sessions_def unread_def holds_unread_def)
  qed (use True assms(2) in simp_all)
qed

section \<open>The calls of a run\<close>

text \<open>The calls the record says were answered, without their commands.\<close>

definition given :: "(nat \<times> pty_command \<times> pty_result) list \<Rightarrow> (nat \<times> pty_result) set" where
  "given lg = (\<lambda>x. (fst x, snd (snd x))) ` set lg"

lemma given_simps [simp]: "given [] = {}" "given (lg @ lg') = given lg \<union> given lg'"
  "given [(i, cmd, r)] = {(i, r)}"
  by (auto simp: given_def)

definition call_order :: "(nat \<times> pty_result) set \<Rightarrow> 's call_queue \<Rightarrow> bool" where
  "call_order A q \<longleftrightarrow> answered A (q_calls q) \<and> pending_in (q_calls q) (q_commands q) \<and>
     distinct (map fst (q_commands q))"

lemma call_order_start: "call_order {} (queue_start w)"
  by (simp add: call_order_def queue_start_def answered_def pending_in_def)

lemma call_order_world [simp]: "call_order A (q\<lparr>q_world := w\<rparr>) = call_order A q"
  by (simp add: call_order_def)

lemma pending_in_new: "pending_in cs xs \<Longrightarrow> cs i = None \<Longrightarrow> pending_in (cs(i \<mapsto> v)) xs \<and> i \<notin> fst ` set xs"
  by (force simp: pending_in_def)

lemma call_order_send:
  assumes "call_order A q" "send_step e i cmd q = Some q'"
  shows "call_order A q'"
proof -
  have i: "q_calls q i = None" using assms(2) by (auto simp: send_step_def split: if_splits)
  from assms(1) have p: "pending_in (q_calls q) (q_commands q)" by (simp add: call_order_def)
  note new = pending_in_new [OF p i]
  have "call_order A (q\<lparr>q_calls := (q_calls q)(i \<mapsto> Some (SendFailed e))\<rparr>)"
    using assms(1) new [of "Some (SendFailed e)"] by (simp add: call_order_def answered_upd i)
  moreover have "pending_in ((q_calls q)(i \<mapsto> None)) (q_commands q @ [(i, cmd)])"
    using new [of None] by (simp add: pending_in_def)
  then have "call_order A (q\<lparr>q_commands := q_commands q @ [(i, cmd)], q_calls := (q_calls q)(i \<mapsto> None)\<rparr>)"
    using assms(1) new [of None] by (simp add: call_order_def answered_upd i)
  ultimately show ?thesis using assms(2) by (auto simp: send_step_def split: if_splits)
qed

lemma call_order_take:
  assumes "call_order A q" "take_step c q = Some q'"
  shows "call_order (A \<union> given (log_of c Take q)) q'"
proof -
  obtain i cmd cs f w where q: "q_commands q = (i, cmd) # cs" "q_state q = Waiting"
    and f: "handle c cmd (q_world q) = (f, w)"
    using assms(2) by (cases "handle c (snd (hd (q_commands q))) (q_world q)")
      (auto simp: take_step_def split: list.splits if_splits)
  from assms(1) have a: "answered A (q_calls q)" and k: "pending_in (q_calls q) ((i, cmd) # cs)"
    and d: "distinct (map fst ((i, cmd) # cs))" by (simp_all add: call_order_def q)
  have i: "q_calls q i = Some None \<or> q_calls q i = Some (Some TimedOut)" and k': "pending_in (q_calls q) cs"
    using k by (simp_all add: pending_in_def)
  show ?thesis using assms(2) a d i k' pending_in_take [OF k d]
    by (cases f) (auto simp: take_step_def q f call_order_def answered_take answered_dropped)
qed

lemma call_order_step:
  assumes "call_order A q" "queue_step c e ev q = Some q'"
  shows "call_order (A \<union> given (log_of c ev q)) q'"
proof (cases ev)
  case (Send i cmd)
  then show ?thesis using assms call_order_send [of A q e i cmd q'] by (simp split: if_splits)
next
  case Take
  then show ?thesis using assms call_order_take by simp
next
  case (Expire i)
  then show ?thesis using assms
    by (auto simp: expire_step_def call_order_def answered_upd pending_in_upd split: if_splits)
next
  case Hangup
  then show ?thesis using assms by (auto simp: call_order_def split: if_splits)
next
  case Discard
  then show ?thesis using assms by (auto simp: call_order_def pending_in_def intro: answered_fold split: if_splits)
qed

section \<open>The output of a session\<close>

definition reads_of :: "u32 \<Rightarrow> (nat \<times> pty_command \<times> pty_result) list \<Rightarrow> pty_result list" where
  "reads_of k lg = map (\<lambda>x. snd (snd x)) (filter (\<lambda>x. fst (snd x) = ReadFromSession k) lg)"

lemma reads_of_simps [simp]: "reads_of k [] = []" "reads_of k (lg @ lg') = reads_of k lg @ reads_of k lg'"
  "reads_of k [(i, cmd, r)] = (if cmd = ReadFromSession k then [r] else [])"
  by (simp_all add: reads_of_def)

text \<open>
  The answered reads and the unread output are the output at the start and what was dispatched since.
\<close>

definition accounted :: "u32 \<Rightarrow> bytes \<Rightarrow> 's live \<Rightarrow> bool" where
  "accounted k out0 lv \<longleftrightarrow>
     (\<exists>parts out. unread k out (q_world (lv_queue lv)) \<and> out0 @ concat (lv_sent lv) = concat parts @ out \<and>
        reads_of k (lv_log lv) = map (\<lambda>d. Success (from_utf8_lossy d)) parts)"

text \<open>What the tasks hold.\<close>

definition held :: "'s live \<Rightarrow> bytes list" where
  "held lv = concat (map (\<lambda>t. case lv_tasks lv t of THolding d \<Rightarrow> [d] | _ \<Rightarrow> []) [TMux, THandle])"

definition live_inv :: "u32 \<Rightarrow> bytes \<Rightarrow> 's live \<Rightarrow> bool" where
  "live_inv k out0 lv \<longleftrightarrow> accounted k out0 lv \<and> call_order (given (lv_log lv)) (lv_queue lv) \<and>
     (\<forall>x \<in> set (q_commands (lv_queue lv)). keeps k (snd x)) \<and>
     mset (lv_read lv) = mset (lv_sent lv) + mset (held lv)"

lemma accountedI:
  "unread k out (q_world (lv_queue lv)) \<Longrightarrow> out0 @ concat (lv_sent lv) = concat parts @ out \<Longrightarrow>
     reads_of k (lv_log lv) = map (\<lambda>d. Success (from_utf8_lossy d)) parts \<Longrightarrow> accounted k out0 lv"
  by (auto simp: accounted_def)

lemma live_inv_start:
  assumes "unread k out w"
  shows "live_inv k out (live_start w)"
proof -
  have "accounted k out (live_start w)"
    by (rule accountedI [of k out _ _ "[]"]) (simp_all add: assms live_start_def queue_start_def)
  then show ?thesis
    by (simp add: live_inv_def live_start_def call_order_start held_def) (simp add: queue_start_def)
qed

fun keeping :: "u32 \<Rightarrow> live_event \<Rightarrow> bool" where
  "keeping k (LCall (Send i cmd)) = keeps k cmd"
| "keeping k _ = True"

lemma accounted_take:
  assumes "accounted k out0 lv" "\<forall>x \<in> set (q_commands (lv_queue lv)). keeps k (snd x)"
    and "take_step c (lv_queue lv) = Some q"
  shows "accounted k out0 (lv\<lparr>lv_queue := q, lv_log := lv_log lv @ log_of c Take (lv_queue lv)\<rparr>)"
proof -
  obtain i cmd cs f w where q: "q_commands (lv_queue lv) = (i, cmd) # cs"
    and f: "handle c cmd (q_world (lv_queue lv)) = (f, w)" and w: "q_world q = w"
    using assms(3) by (cases "handle c (snd (hd (q_commands (lv_queue lv)))) (q_world (lv_queue lv))")
      (auto simp: take_step_def split: list.splits if_splits)
  obtain parts out where p: "unread k out (q_world (lv_queue lv))"
    "out0 @ concat (lv_sent lv) = concat parts @ out"
    "reads_of k (lv_log lv) = map (\<lambda>d. Success (from_utf8_lossy d)) parts"
    using assms(1) by (auto simp: accounted_def)
  show ?thesis
  proof (cases "cmd = ReadFromSession k")
    case True
    with unread_read [OF p(1), of c] f have f': "f = Returns (Success (from_utf8_lossy out))" "unread k [] w"
      by auto
    show ?thesis
      by (rule accountedI [of k "[]" _ _ "parts @ [out]"]) (use True p f f' in \<open>simp_all add: q w\<close>)
  next
    case False
    have "unread k out w" using unread_keeps [OF p(1) _ False, of c] assms(2) by (simp add: q f)
    moreover have "reads_of k (log_of c Take (lv_queue lv)) = []" using False by (cases f) (simp_all add: q f)
    ultimately show ?thesis using p by (intro accountedI [of k out _ _ parts]) (simp_all add: w)
  qed
qed

lemma live_inv_call:
  assumes "live_inv k out0 lv" "live_step c e (LCall ev) lv = Some lv'" "keeping k (LCall ev)"
  shows "live_inv k out0 lv'"
proof -
  note inv = assms(1) [unfolded live_inv_def]
  obtain q where q: "queue_step c e ev (lv_queue lv) = Some q"
    and lv': "lv' = lv\<lparr>lv_queue := q, lv_log := lv_log lv @ log_of c ev (lv_queue lv)\<rparr>"
    using assms(2) by auto
  have "accounted k out0 lv'"
  proof (cases "ev = Take")
    case True
    then show ?thesis using accounted_take [of k out0 lv c q] inv q by (simp add: lv')
  next
    case False
    then have "q_world q = q_world (lv_queue lv)" "log_of c ev (lv_queue lv) = []"
      using q by (cases ev; auto simp: send_step_def expire_step_def split: if_splits)+
    then show ?thesis using inv by (simp add: lv' accounted_def)
  qed
  moreover have "\<forall>x \<in> set (q_commands q). keeps k (snd x)"
    using inv q assms(3)
    by (cases ev) (auto simp: send_step_def expire_step_def take_step_def split: if_splits list.splits prod.splits)
  moreover have "call_order (given (lv_log lv')) q" using call_order_step [OF _ q] inv by (simp add: lv')
  moreover have "held lv' = held lv" by (simp add: held_def lv')
  ultimately show ?thesis using inv by (simp add: live_inv_def lv')
qed

lemma read_stepE:
  assumes "read_step c t lv = Some lv'"
  obtains s1 ts rd where
    "lv' = lv\<lparr>lv_queue := (lv_queue lv)\<lparr>q_world := (q_world (lv_queue lv))\<lparr>os := s1\<rparr>\<rparr>, lv_tasks := ts, lv_read := rd\<rparr>"
    "lv_tasks lv t = TReady"
    "rd = lv_read lv \<and> ts \<in> {lv_tasks lv, (lv_tasks lv)(t := after_error t)} \<or>
     (\<exists>d. rd = lv_read lv @ [d] \<and> ts = (lv_tasks lv)(t := THolding d))"
proof -
  obtain p m where ok: "lv_tasks lv t = TReady" "hmux (q_world (lv_queue lv)) = Some (p, m)"
    using assms by (auto simp: read_step_def Let_def split: task_state.splits option.splits)
  obtain r s1 where r: "if_read_data (process_iface (c_sys c) p) 4096 (os (q_world (lv_queue lv))) = (r, s1)"
    by fastforce
  define lv1 where "lv1 = lv\<lparr>lv_queue := (lv_queue lv)\<lparr>q_world := (q_world (lv_queue lv))\<lparr>os := s1\<rparr>\<rparr>\<rparr>"
  have same: "lv1 = lv1\<lparr>lv_tasks := lv_tasks lv, lv_read := lv_read lv\<rparr>" by (simp add: lv1_def)
  show ?thesis
  proof (cases r)
    case (Ok d)
    show ?thesis
    proof (cases "d = []")
      case True
      then have "lv' = lv1" using assms by (simp add: read_step_def ok r Ok lv1_def)
      with same have "lv' = lv1\<lparr>lv_tasks := lv_tasks lv, lv_read := lv_read lv\<rparr>" by simp
      then show ?thesis using that [of "lv_read lv" "lv_tasks lv" s1] ok(1) by (simp add: lv1_def)
    next
      case False
      then have "lv' = lv1\<lparr>lv_tasks := (lv_tasks lv)(t := THolding d), lv_read := lv_read lv @ [d]\<rparr>"
        using assms by (simp add: read_step_def ok r Ok lv1_def)
      then show ?thesis using that [of "lv_read lv @ [d]" "(lv_tasks lv)(t := THolding d)" s1] ok(1)
        by (simp add: lv1_def)
    qed
  next
    case (Err e)
    then have "lv' = lv1 \<or> lv' = lv1\<lparr>lv_tasks := (lv_tasks lv)(t := after_error t)\<rparr>"
      using assms by (simp add: read_step_def ok r Err lv1_def Let_def split: if_splits)
    then show ?thesis
      using that [of "lv_read lv" "lv_tasks lv" s1] that [of "lv_read lv" "(lv_tasks lv)(t := after_error t)" s1] ok(1)
      by (auto simp: lv1_def)
  qed
qed

lemma accounted_cong:
  assumes "accounted k out0 lv" "hmux (q_world (lv_queue lv')) = hmux (q_world (lv_queue lv))"
    and "lv_sent lv' = lv_sent lv" "lv_log lv' = lv_log lv"
  shows "accounted k out0 lv'"
  using assms by (simp add: accounted_def unread_def)

lemma held_upd:
  "lv_tasks lv t = TReady \<Longrightarrow> mset (held (lv\<lparr>lv_tasks := (lv_tasks lv)(t := st)\<rparr>)) =
     mset (held lv) + mset (case st of THolding d \<Rightarrow> [d] | _ \<Rightarrow> [])"
  by (cases t) (simp_all add: held_def split: task_state.splits)

lemma held_cong: "lv_tasks lv' = lv_tasks lv \<Longrightarrow> held lv' = held lv"
  by (simp add: held_def)

lemma after_error_holds [simp]: "(case after_error t of THolding d \<Rightarrow> [d] | _ \<Rightarrow> []) = []"
  by (cases t) simp_all

lemma live_inv_read:
  assumes "live_inv k out0 lv" "read_step c t lv = Some lv'"
  shows "live_inv k out0 lv'"
proof -
  note inv = assms(1) [unfolded live_inv_def]
  obtain s1 ts rd where lv': "lv' = lv\<lparr>lv_queue := (lv_queue lv)\<lparr>q_world := (q_world (lv_queue lv))\<lparr>os := s1\<rparr>\<rparr>,
      lv_tasks := ts, lv_read := rd\<rparr>"
    and t: "lv_tasks lv t = TReady"
    and cs: "rd = lv_read lv \<and> ts \<in> {lv_tasks lv, (lv_tasks lv)(t := after_error t)} \<or>
      (\<exists>d. rd = lv_read lv @ [d] \<and> ts = (lv_tasks lv)(t := THolding d))"
    by (rule read_stepE [OF assms(2)])
  have held_self: "held (lv\<lparr>lv_tasks := lv_tasks lv\<rparr>) = held lv" by (rule held_cong) simp
  have h: "held lv' = held (lv\<lparr>lv_tasks := ts\<rparr>)" by (rule held_cong) (simp add: lv')
  have "mset rd = mset (lv_sent lv) + mset (held lv')"
    using cs inv held_upd [OF t] unfolding h by (auto simp: held_self)
  moreover have "accounted k out0 lv'"
    by (rule accounted_cong [of k out0 lv]) (use inv in \<open>simp_all add: lv'\<close>)
  ultimately show ?thesis using inv by (simp add: live_inv_def lv')
qed

lemma live_inv_dispatch:
  assumes "live_inv k out0 lv" "dispatch_step c t lv = Some lv'"
  shows "live_inv k out0 lv'"
proof -
  note inv = assms(1) [unfolded live_inv_def]
  obtain parts out where p: "unread k out (q_world (lv_queue lv))"
    "out0 @ concat (lv_sent lv) = concat parts @ out"
    "reads_of k (lv_log lv) = map (\<lambda>d. Success (from_utf8_lossy d)) parts"
    using inv by (auto simp: accounted_def)
  obtain p0 m where m: "hmux (q_world (lv_queue lv)) = Some (p0, m)" "holds_unread k out m"
    using p(1) by (auto simp: unread_def)
  obtain d where d: "lv_tasks lv t = THolding d"
    using assms(2) by (auto simp: dispatch_step_def Let_def split: task_state.splits)
  obtain m' where m': "dispatch_output (c_hash c) d m = (Returns (Ok ()), m')" "holds_unread k (out @ d) m'"
    using holds_dispatch [OF m(2)] by blast
  have lv': "lv' = lv\<lparr>lv_queue := (lv_queue lv)\<lparr>q_world := (q_world (lv_queue lv))\<lparr>hmux := Some (p0, m')\<rparr>\<rparr>,
      lv_sent := lv_sent lv @ [d], lv_tasks := (lv_tasks lv)(t := TReady)\<rparr>"
    using assms(2) by (simp add: dispatch_step_def d m(1) m'(1) Let_def)
  have "accounted k out0 lv'"
    by (rule accountedI [of k "out @ d" _ _ parts]) (use p m' in \<open>simp_all add: lv' unread_def\<close>)
  moreover have "mset (lv_read lv') = mset (lv_sent lv') + mset (held lv')"
    using inv d by (cases t) (auto simp: lv' held_def split: task_state.splits)
  ultimately show ?thesis using inv by (simp add: live_inv_def lv')
qed

lemma live_inv_step:
  assumes "live_inv k out0 lv" "live_step c e ev lv = Some lv'" "keeping k ev"
  shows "live_inv k out0 lv'"
proof (cases ev)
  case (LCall qe)
  then show ?thesis using live_inv_call assms by blast
next
  case (LRead t)
  then show ?thesis using live_inv_read assms by (auto split: if_splits)
next
  case (LDispatch t)
  then show ?thesis using live_inv_dispatch assms by (auto split: if_splits)
next
  case LSignal
  then have ready: "lv_tasks lv THandle = TReady" and lv': "lv' = lv\<lparr>lv_tasks := (lv_tasks lv)(THandle := TEnded)\<rparr>"
    using assms(2) by (auto split: if_splits)
  have "accounted k out0 lv'"
    by (rule accounted_cong [of k out0 lv]) (use assms(1) in \<open>simp_all add: lv' live_inv_def\<close>)
  then show ?thesis using assms(1) held_upd [OF ready, of TEnded] by (simp add: lv' live_inv_def)
qed

lemma live_inv_run:
  "run_live c e evs lv = Some lv' \<Longrightarrow> live_inv k out0 lv \<Longrightarrow> \<forall>ev \<in> set evs. keeping k ev \<Longrightarrow> live_inv k out0 lv'"
proof (induction evs arbitrary: lv)
  case (Cons ev evs)
  then obtain lv1 where "live_step c e ev lv = Some lv1" "run_live c e evs lv1 = Some lv'"
    by (auto split: option.splits)
  with Cons.IH [of lv1] live_inv_step [OF Cons.prems(2)] Cons.prems(3) show ?case by auto
qed simp

end
