(* ===== verification/Live_Properties.thy ===== *)
theory Live_Properties
  imports Live_Output Queue_Properties
begin

text \<open>
  Properties of the output that reaches the callers while calls overlap.
\<close>

text \<open>C3: no output is lost or doubled on its way to the callers of one session that exists at the start, whatever
  the tasks, the thread and the timeouts do and however the calls overlap, while the calls made are not of those
  that can take the session away: to remove it, to close all sessions, to merge or to split any, or, for the session
  0, to create one. The answers
  to the reads of the session are, decoded, the consecutive pieces of its output at the start and all that
  was dispatched since, up to the unread rest. Every answer reaches its call or finds it timed out, in
  which case the piece is lost to the caller; and what was read was dispatched or is held by a task.\<close>

theorem live_output_accounted:
  assumes "run_live c e evs (live_start w) = Some lv" "hmux w = Some (p, m)" "mux_inv m"
    and "view m k = Some (i0, out0)" "\<forall>ev \<in> set evs. keeping k ev"
  shows "\<exists>parts out p' m' i. hmux (q_world (lv_queue lv)) = Some (p', m') \<and> view m' k = Some (i, out) \<and>
      out0 @ concat (lv_sent lv) = concat parts @ out \<and>
      reads_of k (lv_log lv) = map (\<lambda>d. Success (from_utf8_lossy d)) parts \<and>
      (\<forall>(j, cmd, r) \<in> set (lv_log lv). q_calls (lv_queue lv) j \<in> {Some (Some (Answered r)), Some (Some TimedOut)}) \<and>
      mset (lv_read lv) = mset (lv_sent lv) + mset (held lv)"
proof -
  have "unread k out0 w" using assms(2-4) by (simp add: unread_def holds_unread_def)
  from live_inv_run [OF assms(1) live_inv_start [OF this] assms(5)] have inv: "live_inv k out0 lv" .
  then obtain parts out where p: "unread k out (q_world (lv_queue lv))"
    "out0 @ concat (lv_sent lv) = concat parts @ out"
    "reads_of k (lv_log lv) = map (\<lambda>d. Success (from_utf8_lossy d)) parts"
    by (auto simp: live_inv_def accounted_def)
  have "answered (given (lv_log lv)) (q_calls (lv_queue lv))"
    using inv by (simp add: live_inv_def call_order_def)
  then have "\<forall>(j, cmd, r) \<in> set (lv_log lv).
      q_calls (lv_queue lv) j \<in> {Some (Some (Answered r)), Some (Some TimedOut)}"
    by (force simp: answered_def given_def)
  moreover have "mset (lv_read lv) = mset (lv_sent lv) + mset (held lv)" using inv by (simp add: live_inv_def)
  ultimately show ?thesis using p by (auto simp: unread_def holds_unread_def)
qed

text \<open>A read of session 1 overlaps a turn of the task of the multiplexer, and times out.\<close>

definition live_demo :: "live_event list" where
  "live_demo = [LRead TMux, LCall (Send 0 (ReadFromSession 1)), LDispatch TMux, LCall (Expire 0), LCall Take]"

lemma demo_read: "read_data demo_sys demo_proc 4096 demo_kern = (Ok [104, 105], demo_kern\<lparr>kin := []\<rparr>)"
  by (simp add: read_data_def demo_sys_def demo_kern_def demo_proc_def)

lemma live_demo_result:
  "\<exists>lv. run_live demo_ctx ''closed'' live_demo (live_start demo_world) = Some lv \<and> lv_sent lv = [[104, 105]]"
proof -
  obtain m' where d: "dispatch_output unat [104, 105] two_sessions = (Returns (Ok ()), m')"
    using dispatch_output_refines [OF two_sessions_inv, of unat "[104, 105]"] by blast
  have ctx: "c_sys demo_ctx = demo_sys" "c_hash demo_ctx = unat" by (simp_all add: demo_ctx_def)
  have w: "hmux demo_world = Some (demo_proc, two_sessions)" "os demo_world = demo_kern"
    by (simp_all add: demo_world_def)
  show ?thesis
    by (simp add: live_demo_def live_start_def queue_start_def read_step_def dispatch_step_def Let_def ctx w
        process_iface_def demo_read d send_step_def expire_step_def take_step_def channel_capacity_def
        split: prod.splits flow.splits)
qed

theorem live_output_accounted_witness:
  "\<exists>lv parts out. run_live demo_ctx ''closed'' live_demo (live_start demo_world) = Some lv \<and>
     [1, 2, 3, 104, 105] = concat parts @ out \<and>
     reads_of 1 (lv_log lv) = map (\<lambda>d. Success (from_utf8_lossy d)) parts"
proof -
  obtain lv where lv: "run_live demo_ctx ''closed'' live_demo (live_start demo_world) = Some lv"
    "lv_sent lv = [[104, 105]]"
    using live_demo_result by blast
  have "hmux demo_world = Some (demo_proc, two_sessions)" by (simp add: demo_world_def)
  from live_output_accounted [OF lv(1) this two_sessions_inv, of 1 "[97]" "[1, 2, 3]"] lv
  show ?thesis by (auto simp: two_sessions_view live_demo_def)
qed

text \<open>C25: the two background tasks can swap output. When one of them reads a piece and the other reads
  and dispatches the next before the first is dispatched, every session gets the pieces in the wrong
  order.\<close>

theorem output_swapped:
  assumes "hmux w = Some (p, m)" "mux_inv m" "view m k = Some (i, out)"
    and "read_data (c_sys c) p 4096 (os w) = (Ok a, s1)" "read_data (c_sys c) p 4096 s1 = (Ok b, s2)"
    and "a \<noteq> []" "b \<noteq> []"
  shows "\<exists>lv m'. run_live c e [LRead TMux, LRead THandle, LDispatch THandle, LDispatch TMux] (live_start w) = Some lv \<and>
    lv_read lv = [a, b] \<and> hmux (q_world (lv_queue lv)) = Some (p, m') \<and> view m' k = Some (i, out @ b @ a)"
proof -
  obtain m1 where m1: "dispatch_output (c_hash c) b m = (Returns (Ok ()), m1)" "mux_inv m1"
    "view m1 k = Some (i, out @ b)"
    using dispatch_output_refines [OF assms(2), of "c_hash c" b] assms(3) by auto
  obtain m2 where m2: "dispatch_output (c_hash c) a m1 = (Returns (Ok ()), m2)"
    "view m2 k = Some (i, out @ b @ a)"
    using dispatch_output_refines [OF m1(2), of "c_hash c" a] m1(3) by auto
  show ?thesis using assms(1,4-7) m1(1) m2
    by (simp add: live_start_def queue_start_def read_step_def dispatch_step_def Let_def process_iface_def)
qed

theorem output_swapped_witness:
  "\<exists>lv m'. run_live demo_ctx ''closed'' [LRead TMux, LRead THandle, LDispatch THandle, LDispatch TMux]
      (live_start (demo_world\<lparr>os := demo_kern\<lparr>kin := replicate 4096 65 @ [66]\<rparr>\<rparr>)) = Some lv \<and>
    hmux (q_world (lv_queue lv)) = Some (demo_proc, m') \<and>
    view m' 2 = Some ([98], [4] @ [66] @ replicate 4096 65)"
proof -
  define s where "s = demo_kern\<lparr>kin := replicate 4096 65 @ [66]\<rparr>"
  have ctx: "c_sys demo_ctx = demo_sys" by (simp add: demo_ctx_def)
  have "read_data demo_sys demo_proc 4096 s = (Ok (replicate 4096 65), s\<lparr>kin := [66]\<rparr>)"
    by (simp add: read_data_def demo_sys_def demo_kern_def demo_proc_def s_def)
  moreover have "read_data demo_sys demo_proc 4096 (s\<lparr>kin := [66]\<rparr>) = (Ok [66], s\<lparr>kin := []\<rparr>)"
    by (simp add: read_data_def demo_sys_def demo_kern_def demo_proc_def s_def)
  ultimately show ?thesis
    using output_swapped [of "demo_world\<lparr>os := s\<rparr>" demo_proc two_sessions 2 "[98]" "[4]" demo_ctx
        "replicate 4096 65" "s\<lparr>kin := [66]\<rparr>" "[66]" "s\<lparr>kin := []\<rparr>" "''closed''"] two_sessions_inv
    by (auto simp: ctx two_sessions_view demo_world_def s_def)
qed

end
