(* ===== verification/Windows_Process.thy ===== *)
theory Windows_Process
  imports Process_Objects
begin

text \<open>
  \<open>src/platform/windows.rs\<close>: a shell on a console of the \<open>winpty\<close> crate, and a table of such processes;
  and \<open>src/platform/unsupported.rs\<close>. What the crate and the system do is a record of calls over a state
  \<open>'s\<close>: \<open>'c\<close> is a configuration and \<open>'w\<close> a console of the crate, a pipe is a handle, and a child of
  \<open>std::process\<close> is its process id. A handle is closed when its owner is dropped, as is a console.
  A read that waits for ever is \<open>None\<close>. Log output is left out.
\<close>

section \<open>Calls of the system\<close>

record ('c, 'w, 's) win =
  wp_config :: "i32 \<Rightarrow> i32 \<Rightarrow> 's \<Rightarrow> ('c, io_error) result \<times> 's"
  wp_open :: "'c \<Rightarrow> 's \<Rightarrow> ('w, io_error) result \<times> 's"
  wp_conin :: "'w \<Rightarrow> 's \<Rightarrow> (u32, io_error) result \<times> 's"
  wp_conout :: "'w \<Rightarrow> 's \<Rightarrow> (u32, io_error) result \<times> 's"
  wp_conerr :: "'w \<Rightarrow> 's \<Rightarrow> (u32, io_error) result \<times> 's"
  wp_set_size :: "'w \<Rightarrow> i32 \<Rightarrow> i32 \<Rightarrow> 's \<Rightarrow> (unit, io_error) result \<times> 's"
  wp_drop :: "'w \<Rightarrow> 's \<Rightarrow> 's"
  wk_write :: "u32 \<Rightarrow> bytes \<Rightarrow> 's \<Rightarrow> (nat, io_error) result \<times> 's"
  wk_read :: "u32 \<Rightarrow> 's \<Rightarrow> ((bytes, io_error) result \<times> 's) option"
  wk_close :: "u32 \<Rightarrow> 's \<Rightarrow> 's"
  wk_spawn :: "string \<Rightarrow> u32 \<Rightarrow> u32 \<Rightarrow> u32 \<Rightarrow> 's \<Rightarrow> (u32, io_error) result \<times> 's"
  wk_kill :: "u32 \<Rightarrow> 's \<Rightarrow> (unit, io_error) result \<times> 's"
  wk_wait :: "u32 \<Rightarrow> 's \<Rightarrow> (i32, io_error) result \<times> 's"
  wk_try_wait :: "u32 \<Rightarrow> 's \<Rightarrow> (i32 option, io_error) result \<times> 's"

text \<open>
  The process, with the table its \<open>multiplexer\<close> field shares: a table holds processes, so that the two
  types are recursive. A console is that of the process, also when the process is in a table.
\<close>

datatype 'w win_process = WinProcess (wp_console: 'w) (wp_child: u32)
  (wp_table: "(u32, 'w win_process) fmap") (wp_command: string)

type_synonym 'w win_table = "(u32, 'w win_process) fmap"

section \<open>Reading and writing\<close>

text \<open>
  \<open>Write::write_all\<close> of the standard library: a write may take less than it is given, and one that
  takes nothing is an error. \<open>write_all\<close> and \<open>read_to_end\<close> repeat a call that was interrupted by a signal:
  \<open>wk_write\<close> and \<open>wk_read\<close> stand for the call with its repetitions, whose result is never an interruption.
\<close>

function write_all :: "('c, 'w, 's) win \<Rightarrow> u32 \<Rightarrow> bytes \<Rightarrow> 's \<Rightarrow> (unit, io_error) result \<times> 's" where
  "write_all win fd data s =
     (if data = [] then (Ok (), s)
      else case wk_write win fd data s of
        (Err e, s1) \<Rightarrow> (Err e, s1)
      | (Ok n, s1) \<Rightarrow>
          (if n = 0 then (Err (Custom WriteZero ''failed to write whole buffer''), s1)
           else write_all win fd (drop n data) s1))"
  by pat_completeness auto
termination by (relation "measure (\<lambda>(_, _, data, _). length data)") auto

declare write_all.simps [simp del]

definition win_write_data ::
  "('c, 'w, 's) win \<Rightarrow> 'w win_process \<Rightarrow> bytes \<Rightarrow> 's \<Rightarrow> (nat, io_error) result \<times> 's" where
  "win_write_data win p data s =
     (case wp_conin win (wp_console p) s of
        (Err e, s1) \<Rightarrow> (Err e, s1)
      | (Ok conin, s1) \<Rightarrow>
          (case write_all win conin data s1 of
             (Err e, s2) \<Rightarrow> (Err e, wk_close win conin s2)
           | (Ok _, s2) \<Rightarrow> (Ok (length data), wk_close win conin s2)))"

text \<open>\<open>Read::read_to_end\<close>: until a read gives nothing, which it may never do.\<close>

partial_function (option) read_to_end ::
  "('c, 'w, 's) win \<Rightarrow> u32 \<Rightarrow> bytes \<Rightarrow> 's \<Rightarrow> ((bytes, io_error) result \<times> 's) option" where
  "read_to_end win fd buf s =
     (case wk_read win fd s of
        None \<Rightarrow> None
      | Some (Err e, s1) \<Rightarrow> Some (Err e, s1)
      | Some (Ok d, s1) \<Rightarrow> (if d = [] then Some (Ok buf, s1) else read_to_end win fd (buf @ d) s1))"

definition win_read_data ::
  "('c, 'w, 's) win \<Rightarrow> 'w win_process \<Rightarrow> 's \<Rightarrow> ((bytes, io_error) result \<times> 's) option" where
  "win_read_data win p s =
     (case wp_conout win (wp_console p) s of
        (Err e, s1) \<Rightarrow> Some (Err e, s1)
      | (Ok conout, s1) \<Rightarrow>
          (case read_to_end win conout [] s1 of
             None \<Rightarrow> None
           | Some (r, s2) \<Rightarrow> Some (r, wk_close win conout s2)))"

section \<open>The table of processes\<close>

text \<open>\<open>from_io\<close> is the conversion of an I/O error to an N-API error that the N-API crate provides.\<close>

definition win_mux_new :: "'w win_table" where
  "win_mux_new = fmempty"

definition win_send_to_session ::
  "(io_error \<Rightarrow> napi_error) \<Rightarrow> ('c, 'w, 's) win \<Rightarrow> 'w win_table \<Rightarrow> u32 \<Rightarrow> bytes \<Rightarrow> 's
     \<Rightarrow> (unit, napi_error) result \<times> 's" where
  "win_send_to_session from_io win m session_id buffer s =
     (case fmlookup m session_id of
        Some p \<Rightarrow>
          (case win_write_data win p buffer s of
             (Err e, s1) \<Rightarrow> (Err (from_io e), s1)
           | (Ok _, s1) \<Rightarrow> (Ok (), s1))
      | None \<Rightarrow> (Err (from_reason (''Session ID '' @ show_u32 session_id @ '' not found'')), s))"

definition win_add_session ::
  "u32 \<Rightarrow> 'w win_process \<Rightarrow> 'w win_table \<Rightarrow> (unit, napi_error) result \<times> 'w win_table" where
  "win_add_session session_id p m =
     (if fmlookup m session_id \<noteq> None then
        (Err (from_reason (''Session ID '' @ show_u32 session_id @ '' already exists'')), m)
      else (Ok (), fmupd session_id p m))"

definition win_remove_session :: "u32 \<Rightarrow> 'w win_table \<Rightarrow> (unit, napi_error) result \<times> 'w win_table" where
  "win_remove_session session_id m =
     (if fmlookup m session_id \<noteq> None then (Ok (), fmdrop session_id m)
      else (Err (from_reason (''Session ID '' @ show_u32 session_id @ '' does not exist'')), m))"

definition win_send_to_pty ::
  "(io_error \<Rightarrow> napi_error) \<Rightarrow> ('c, 'w, 's) win \<Rightarrow> 'w win_table \<Rightarrow> bytes \<Rightarrow> 's
     \<Rightarrow> (unit, napi_error) result \<times> 's" where
  "win_send_to_pty from_io win m data s = win_send_to_session from_io win m 0 data s"

section \<open>Size, signals and status\<close>

definition win_resize ::
  "('c, 'w, 's) win \<Rightarrow> 'w win_process \<Rightarrow> u16 \<Rightarrow> u16 \<Rightarrow> 's \<Rightarrow> (unit, io_error) result \<times> 's" where
  "win_resize win p cols rows s = wp_set_size win (wp_console p) (ucast cols) (ucast rows) s"

text \<open>The signal is ignored.\<close>

definition win_kill_process ::
  "('c, 'w, 's) win \<Rightarrow> 'w win_process \<Rightarrow> i32 \<Rightarrow> 's \<Rightarrow> (unit, io_error) result \<times> 's" where
  "win_kill_process win p sig s = wk_kill win (wp_child p) s"

definition win_wait :: "('c, 'w, 's) win \<Rightarrow> 'w win_process \<Rightarrow> 's \<Rightarrow> (unit, io_error) result \<times> 's" where
  "win_wait win p s = (case wk_wait win (wp_child p) s of (r, s1) \<Rightarrow> (map_ok (\<lambda>_. ()) r, s1))"

definition win_close_handles :: "'w win_process \<Rightarrow> 's \<Rightarrow> (unit, io_error) result \<times> 's" where
  "win_close_handles p s = (Ok (), s)"

definition win_force_kill :: "('c, 'w, 's) win \<Rightarrow> 'w win_process \<Rightarrow> 's \<Rightarrow> (unit, io_error) result \<times> 's" where
  "win_force_kill win p s = win_kill_process win p 0 s"

definition win_is_running :: "('c, 'w, 's) win \<Rightarrow> 'w win_process \<Rightarrow> 's \<Rightarrow> (bool, io_error) result \<times> 's" where
  "win_is_running win p s =
     (case wk_try_wait win (wp_child p) s of
        (Err e, s1) \<Rightarrow> (Err e, s1)
      | (Ok (Some _), s1) \<Rightarrow> (Ok False, s1)
      | (Ok None, s1) \<Rightarrow> (Ok True, s1))"

definition win_status :: "('c, 'w, 's) win \<Rightarrow> 'w win_process \<Rightarrow> 's \<Rightarrow> (string, io_error) result \<times> 's" where
  "win_status win p s =
     (case win_is_running win p s of
        (Err e, s1) \<Rightarrow> (Err e, s1)
      | (Ok running, s1) \<Rightarrow> (Ok (if running then ''Running'' else ''Not Running''), s1))"

definition win_set_env ::
  "('c, 'w, 's) win \<Rightarrow> 'w win_process \<Rightarrow> string \<Rightarrow> string \<Rightarrow> 's \<Rightarrow> (unit, io_error) result \<times> 's" where
  "win_set_env win p key val s =
     (case win_is_running win p s of
        (Err e, s1) \<Rightarrow> (Err e, s1)
      | (Ok True, s1) \<Rightarrow>
          (case win_write_data win p
                  (as_bytes (''set '' @ key @ ''='' @ val @ [CHR 0x0D, CHR 0x0A])) s1 of
             (Err e, s2) \<Rightarrow> (Err e, s2)
           | (Ok _, s2) \<Rightarrow> (Ok (), s2))
      | (Ok False, s1) \<Rightarrow> (Err (Custom NotConnected ''PTY process is not running''), s1))"

definition win_log_level :: "string \<Rightarrow> log_level" where
  "win_log_level level =
     (case level_named (to_lowercase level) of Some l \<Rightarrow> l | None \<Rightarrow> LInfo)"

definition win_shutdown_pty :: "('c, 'w, 's) win \<Rightarrow> 'w win_process \<Rightarrow> 's \<Rightarrow> (unit, io_error) result \<times> 's" where
  "win_shutdown_pty win p s =
     (case win_kill_process win p 0 s of
        (Err e, s1) \<Rightarrow> (Err e, s1)
      | (Ok _, s1) \<Rightarrow>
          (case win_wait win p s1 of
             (Err e, s2) \<Rightarrow> (Err e, s2)
           | (Ok _, s2) \<Rightarrow> win_close_handles p s2))"

section \<open>Creating a process and changing its shell\<close>

definition open_console :: "('c, 'w, 's) win \<Rightarrow> 's \<Rightarrow> ('w, io_error) result \<times> 's" where
  "open_console win s =
     (case wp_config win 80 24 s of
        (Err e, s1) \<Rightarrow> (Err e, s1)
      | (Ok config, s1) \<Rightarrow> wp_open win config s1)"

text \<open>
  The command holds the pipes it was given so far and closes them when it is dropped, at the end or at
  an early return.
\<close>

definition close_pipes :: "('c, 'w, 's) win \<Rightarrow> u32 list \<Rightarrow> 's \<Rightarrow> 's" where
  "close_pipes win fds s = fold (wk_close win) fds s"

definition spawn_on :: "('c, 'w, 's) win \<Rightarrow> 'w \<Rightarrow> string \<Rightarrow> 's \<Rightarrow> (u32, io_error) result \<times> 's" where
  "spawn_on win console program s =
     (case wp_conin win console s of
        (Err e, s1) \<Rightarrow> (Err e, s1)
      | (Ok i, s1) \<Rightarrow>
          (case wp_conout win console s1 of
             (Err e, s2) \<Rightarrow> (Err e, close_pipes win [i] s2)
           | (Ok out, s2) \<Rightarrow>
               (case wp_conerr win console s2 of
                  (Err e, s3) \<Rightarrow> (Err e, close_pipes win [i, out] s3)
                | (Ok err, s3) \<Rightarrow>
                    (case wk_spawn win program i out err s3 of
                       (r, s4) \<Rightarrow> (r, close_pipes win [i, out, err] s4)))))"

definition win_new :: "('c, 'w, 's) win \<Rightarrow> 's \<Rightarrow> ('w win_process, io_error) result \<times> 's" where
  "win_new win s =
     (case open_console win s of
        (Err e, s1) \<Rightarrow> (Err e, s1)
      | (Ok console, s1) \<Rightarrow>
          (case spawn_on win console ''cmd.exe'' s1 of
             (Err e, s2) \<Rightarrow> (Err e, wp_drop win console s2)
           | (Ok child, s2) \<Rightarrow> (Ok (WinProcess console child win_mux_new ''cmd.exe''), s2)))"

text \<open>
  The new console replaces the old one, which is dropped, before the shell is spawned.
\<close>

definition win_spawn_new_shell ::
  "('c, 'w, 's) win \<Rightarrow> 'w win_process \<Rightarrow> string \<Rightarrow> 's \<Rightarrow> (unit, io_error) result \<times> 'w win_process \<times> 's" where
  "win_spawn_new_shell win p shell_path s =
     (case open_console win s of
        (Err e, s1) \<Rightarrow> (Err e, p, s1)
      | (Ok console, s1) \<Rightarrow>
          (let p1 = WinProcess console (wp_child p) (wp_table p) (wp_command p);
               s2 = wp_drop win (wp_console p) s1
           in case spawn_on win console shell_path s2 of
                (Err e, s3) \<Rightarrow> (Err e, p1, s3)
              | (Ok child, s3) \<Rightarrow> (Ok (), WinProcess console child (wp_table p) shell_path, s3)))"

definition win_change_shell ::
  "('c, 'w, 's) win \<Rightarrow> 'w win_process \<Rightarrow> string \<Rightarrow> 's \<Rightarrow> (unit, io_error) result \<times> 'w win_process \<times> 's" where
  "win_change_shell win p shell_path s =
     (case win_kill_process win p 0 s of
        (Err e, s1) \<Rightarrow> (Err e, p, s1)
      | (Ok _, s1) \<Rightarrow>
          (case win_wait win p s1 of
             (Err e, s2) \<Rightarrow> (Err e, p, s2)
           | (Ok _, s2) \<Rightarrow> win_spawn_new_shell win p shell_path s2))"

section \<open>JavaScript objects\<close>

text \<open>The table comes from an object that wraps a native one, if it does.\<close>

definition win_send_to_pty_js ::
  "(io_error \<Rightarrow> napi_error) \<Rightarrow> ('c, 'w, 's) win \<Rightarrow> ('w win_table, napi_error) result \<Rightarrow> bytes \<Rightarrow> 's
     \<Rightarrow> (unit, napi_error) result \<times> 's" where
  "win_send_to_pty_js from_io win unwrapped data s =
     (case unwrapped of
        Err e \<Rightarrow> (Err e, s)
      | Ok m \<Rightarrow> win_send_to_pty from_io win m data s)"

text \<open>
  The object a process is read from has to have its fields, and the table, if any, has to wrap a native
  one; then the function fails all the same, since a console and a child cannot be rebuilt.
\<close>

definition win_from_js_object ::
  "(string \<Rightarrow> napi_error) \<Rightarrow> js_object \<Rightarrow> ('w win_process, napi_error) result" where
  "win_from_js_object type_err obj =
     (case js_number type_err ''pid'' obj of
        Err e \<Rightarrow> Err e
      | Ok pd \<Rightarrow>
          (case js_string type_err ''command'' obj of
             Err e \<Rightarrow> Err e
           | Ok cmd \<Rightarrow>
               (case (case map_of obj ''multiplexer'' of
                        Some v \<Rightarrow> unwrap_mux (type_err ''multiplexer'') v
                      | None \<Rightarrow> Ok proc_mux_new) of
                  Err e \<Rightarrow> Err e
                | Ok m \<Rightarrow> Err (from_reason ''from_js_object is not fully implemented for Windows''))))"

definition win_into_js_object :: "'w win_process \<Rightarrow> js_object" where
  "win_into_js_object p =
     js_set ''multiplexer'' mux_object
       (js_set ''command'' (JsString (wp_command p)) (js_set ''pid'' (JsNumber (wp_child p)) []))"

definition win_pid :: "(string \<Rightarrow> napi_error) \<Rightarrow> js_object \<Rightarrow> (i32, napi_error) result" where
  "win_pid type_err obj =
     map_ok wp_child (win_from_js_object type_err obj :: (unit win_process, napi_error) result)"

section \<open>Other platforms\<close>

text \<open>Every operation of the stub is the same error.\<close>

definition unsupported :: "('a, io_error) result" where
  "unsupported = Err (Custom OtherKind ''Unsupported platform'')"

definition unsupported_new :: "(unit, io_error) result" where
  "unsupported_new = unsupported"

definition unsupported_write_data :: "bytes \<Rightarrow> (nat, io_error) result" where
  "unsupported_write_data data = unsupported"

definition unsupported_read_data :: "nat \<Rightarrow> (bytes, io_error) result" where
  "unsupported_read_data len = unsupported"

definition unsupported_resize :: "u16 \<Rightarrow> u16 \<Rightarrow> (unit, io_error) result" where
  "unsupported_resize cols rows = unsupported"

definition unsupported_kill_process :: "i32 \<Rightarrow> (unit, io_error) result" where
  "unsupported_kill_process sig = unsupported"

definition unsupported_waitpid :: "i32 \<Rightarrow> (i32, io_error) result" where
  "unsupported_waitpid options = unsupported"

definition unsupported_close_master_fd :: "(unit, io_error) result" where
  "unsupported_close_master_fd = unsupported"

lemmas unsupported_defs = unsupported_new_def unsupported_write_data_def unsupported_read_data_def
  unsupported_resize_def unsupported_kill_process_def unsupported_waitpid_def
  unsupported_close_master_fd_def unsupported_def

end
