(* ===== verification/Platforms.thy ===== *)
theory Platforms
  imports Windows_Process
begin

text \<open>
  What the processes of the platforms have in common, as a contract: a process that was shut down stays
  ended, and its operations say so. The contract is interpreted on the processes of macOS, Linux and
  Windows; the laws of the system each rests on are predicates over its calls. Then what a console of
  Windows reads and writes.
\<close>

section \<open>Questions to a process\<close>

datatype question = AskStatus | AskEnv string string

datatype reading = StatusIs "(string, io_error) result" | EnvIs "(unit, io_error) result flow"

fun ask_all :: "('s \<Rightarrow> (string, io_error) result \<times> 's)
    \<Rightarrow> (string \<Rightarrow> string \<Rightarrow> 's \<Rightarrow> (unit, io_error) result flow \<times> 's) \<Rightarrow> question list \<Rightarrow> 's \<Rightarrow> reading list" where
  "ask_all ask put [] s = []"
| "ask_all ask put (AskStatus # qs) s =
     (case ask s of (r, s1) \<Rightarrow> StatusIs r # ask_all ask put qs s1)"
| "ask_all ask put (AskEnv key val # qs) s =
     (case put key val s of (r, s1) \<Rightarrow> EnvIs r # ask_all ask put qs s1)"

fun ended_reading :: "question \<Rightarrow> reading" where
  "ended_reading AskStatus = StatusIs (Ok ''Not Running'')"
| "ended_reading (AskEnv key val) = EnvIs (Returns (Err (Custom NotConnected ''PTY process is not running'')))"

section \<open>The contract\<close>

locale pty_platform =
  fixes lawful :: "'p \<Rightarrow> bool"
    and alive :: "'p \<Rightarrow> 's \<Rightarrow> bool"
    and shutdown :: "'p \<Rightarrow> 's \<Rightarrow> (unit, io_error) result \<times> 's"
    and status :: "'p \<Rightarrow> 's \<Rightarrow> (string, io_error) result \<times> 's"
    and put_env :: "'p \<Rightarrow> string \<Rightarrow> string \<Rightarrow> 's \<Rightarrow> (unit, io_error) result flow \<times> 's"
  assumes shutdown_ends: "lawful p \<Longrightarrow> shutdown p s = (Ok (), s') \<Longrightarrow> \<not> alive p s'"
    and status_ended: "lawful p \<Longrightarrow> \<not> alive p s \<Longrightarrow>
      \<exists>s'. status p s = (Ok ''Not Running'', s') \<and> \<not> alive p s'"
    and put_env_ended: "lawful p \<Longrightarrow> \<not> alive p s \<Longrightarrow>
      \<exists>s'. put_env p key val s =
        (Returns (Err (Custom NotConnected ''PTY process is not running'')), s') \<and> \<not> alive p s'"
begin

lemma ended_stays:
  assumes "lawful p"
  shows "\<not> alive p s \<Longrightarrow> ask_all (status p) (put_env p) qs s = map ended_reading qs"
proof (induction qs arbitrary: s)
  case (Cons q qs)
  show ?case
  proof (cases q)
    case AskStatus
    with Cons.IH status_ended [OF assms Cons.prems] show ?thesis by auto
  next
    case (AskEnv key val)
    with Cons.IH put_env_ended [OF assms Cons.prems, of key val] show ?thesis by auto
  qed
qed simp

lemma shutdown_final:
  assumes "lawful p" "shutdown p s = (Ok (), s')"
  shows "ask_all (status p) (put_env p) qs s' = map ended_reading qs"
  using ended_stays [OF assms(1) shutdown_ends [OF assms]] .

end

section \<open>Processes of macOS and Linux\<close>

text \<open>
  \<open>procs\<close> is the set of process ids in use. A signal reaches a process that exists and fails with
  \<open>ESRCH\<close> otherwise; \<open>waitpid\<close> without options returns, unless it fails, once the process has been
  reaped; no call used here makes an ended process exist. The code asks for one child at a time, by a
  positive id (never for a group or for any child, ids 0 and below), and the ids are taken not to be used again.
\<close>

definition proc_laws :: "'s sys \<Rightarrow> ('s \<Rightarrow> i32 set) \<Rightarrow> bool" where
  "proc_laws sys procs \<longleftrightarrow>
     (\<forall>p sig s. procs (snd (k_kill sys p sig s)) \<subseteq> procs s) \<and>
     (\<forall>p s. p \<notin> procs s \<longrightarrow> fst (k_kill sys p 0 s) = (-1, ESRCH)) \<and>
     (\<forall>p s ret errno s'. k_waitpid sys p 0 s = ((ret, errno), s') \<longrightarrow> ret \<noteq> -1 \<longrightarrow> p \<notin> procs s') \<and>
     (\<forall>fd s. procs (snd (k_close sys fd s)) \<subseteq> procs s)"

lemma proc_laws_kill:
  assumes "proc_laws sys procs" "k_kill sys p sig s = (x, s')" "q \<notin> procs s"
  shows "q \<notin> procs s'"
proof -
  have "procs (snd (k_kill sys p sig s)) \<subseteq> procs s" using assms(1) by (simp add: proc_laws_def)
  with assms(2,3) show ?thesis by auto
qed

lemma proc_laws_gone:
  assumes "proc_laws sys procs" "p \<notin> procs s"
  shows "\<exists>s'. k_kill sys p 0 s = ((-1, ESRCH), s') \<and> p \<notin> procs s'"
proof -
  have "fst (k_kill sys p 0 s) = (-1, ESRCH)" using assms by (simp add: proc_laws_def)
  then have k: "k_kill sys p 0 s = ((-1, ESRCH), snd (k_kill sys p 0 s))" by (simp add: prod_eq_iff)
  from k proc_laws_kill [OF assms(1) k assms(2)] show ?thesis by blast
qed

lemma proc_laws_reaped:
  "proc_laws sys procs \<Longrightarrow> k_waitpid sys p 0 s = ((ret, errno), s') \<Longrightarrow> ret \<noteq> -1 \<Longrightarrow> p \<notin> procs s'"
  by (simp add: proc_laws_def)

lemma proc_laws_close:
  assumes "proc_laws sys procs" "k_close sys fd s = (x, s')" "q \<notin> procs s"
  shows "q \<notin> procs s'"
proof -
  have "procs (snd (k_close sys fd s)) \<subseteq> procs s" using assms(1) by (simp add: proc_laws_def)
  with assms(2,3) show ?thesis by auto
qed

lemma shutdown_pty_ends:
  assumes "proc_laws sys procs" "shutdown_pty sys p s = (Ok (), s')"
  shows "pid p \<notin> procs s'"
proof -
  obtain s1 s2 r where w: "waitpid sys p 0 s1 = (Ok r, s2)" "close_master_fd sys p s2 = (Ok (), s')"
    using assms(2) by (auto simp: shutdown_pty_def split: prod.splits result.splits)
  then have "pid p \<notin> procs s2"
    by (auto simp: waitpid_def split: prod.splits if_splits dest: proc_laws_reaped [OF assms(1)])
  with w(2) show ?thesis
    by (auto simp: close_master_fd_def split: prod.splits if_splits dest: proc_laws_close [OF assms(1)])
qed

lemma linux_shutdown_pty_ends:
  assumes "proc_laws sys procs" "linux_shutdown_pty sys p s = (Ok (), s')"
  shows "pid p \<notin> procs s'"
proof -
  obtain s1 s2 r where w: "linux_waitpid sys p 0 s1 = (Ok r, s2)" "linux_close_master_fd sys p s2 = (Ok (), s')"
    using assms(2) by (auto simp: linux_shutdown_pty_def split: prod.splits result.splits)
  then have "pid p \<notin> procs s2"
    by (auto simp: linux_waitpid_def split: prod.splits if_splits dest: proc_laws_reaped [OF assms(1)])
  with w(2) show ?thesis
    by (auto simp: linux_close_master_fd_def split: prod.splits if_splits dest: proc_laws_close [OF assms(1)])
qed

text \<open>A process comes with the system it runs on and the process ids of its states.\<close>

type_synonym 's hosted = "'s sys \<times> ('s \<Rightarrow> i32 set) \<times> pty_process"

definition host_lawful :: "'s hosted \<Rightarrow> bool" where
  "host_lawful hp = (case hp of (sys, procs, p) \<Rightarrow> proc_laws sys procs)"

definition host_alive :: "'s hosted \<Rightarrow> 's \<Rightarrow> bool" where
  "host_alive hp s = (case hp of (sys, procs, p) \<Rightarrow> pid p \<in> procs s)"

definition on_host :: "('s sys \<Rightarrow> pty_process \<Rightarrow> 'a) \<Rightarrow> 's hosted \<Rightarrow> 'a" where
  "on_host f hp = (case hp of (sys, procs, p) \<Rightarrow> f sys p)"

lemmas host_simps = host_lawful_def host_alive_def on_host_def

interpretation macos: pty_platform host_lawful host_alive "on_host shutdown_pty" "on_host pty_status"
  "on_host set_env"
proof
  fix hp :: "'s hosted" and s s' key val
  assume l: "host_lawful hp"
  obtain sys procs p where hp: "hp = (sys, procs, p)" by (cases hp)
  with l have l: "proc_laws sys procs" by (simp add: host_lawful_def)
  show "on_host shutdown_pty hp s = (Ok (), s') \<Longrightarrow> \<not> host_alive hp s'"
    using shutdown_pty_ends [OF l] by (simp add: hp host_simps)
  assume "\<not> host_alive hp s"
  then obtain s1 where "k_kill sys (pid p) 0 s = ((-1, ESRCH), s1)" "pid p \<notin> procs s1"
    using proc_laws_gone [OF l] by (auto simp: hp host_simps)
  then show "\<exists>s'. on_host pty_status hp s = (Ok ''Not Running'', s') \<and> \<not> host_alive hp s'"
    "\<exists>s'. on_host set_env hp key val s =
      (Returns (Err (Custom NotConnected ''PTY process is not running'')), s') \<and> \<not> host_alive hp s'"
    by (simp_all add: hp host_simps pty_status_def set_env_def is_running_def)
qed

interpretation linux: pty_platform host_lawful host_alive "on_host linux_shutdown_pty"
  "on_host linux_status" "on_host linux_set_env"
proof
  fix hp :: "'s hosted" and s s' key val
  assume l: "host_lawful hp"
  obtain sys procs p where hp: "hp = (sys, procs, p)" by (cases hp)
  with l have l: "proc_laws sys procs" by (simp add: host_lawful_def)
  show "on_host linux_shutdown_pty hp s = (Ok (), s') \<Longrightarrow> \<not> host_alive hp s'"
    using linux_shutdown_pty_ends [OF l] by (simp add: hp host_simps)
  assume "\<not> host_alive hp s"
  then obtain s1 where "k_kill sys (pid p) 0 s = ((-1, ESRCH), s1)" "pid p \<notin> procs s1"
    using proc_laws_gone [OF l] by (auto simp: hp host_simps)
  then show "\<exists>s'. on_host linux_status hp s = (Ok ''Not Running'', s') \<and> \<not> host_alive hp s'"
    "\<exists>s'. on_host linux_set_env hp key val s =
      (Returns (Err (Custom NotConnected ''PTY process is not running'')), s') \<and> \<not> host_alive hp s'"
    by (simp_all add: hp host_simps linux_status_def linux_set_env_def linux_is_running_def)
qed

section \<open>Processes of Windows\<close>

text \<open>
  \<open>live\<close> is the set of running children. \<open>wait\<close> returns, unless it fails, once the child has exited;
  \<open>try_wait\<close> gives the exit code of a child that has; only \<open>spawn\<close> starts one.
\<close>

definition win_laws :: "('c, 'w, 's) win \<Rightarrow> ('s \<Rightarrow> u32 set) \<Rightarrow> bool" where
  "win_laws win live \<longleftrightarrow>
     (\<forall>c s. live (snd (wk_kill win c s)) \<subseteq> live s) \<and>
     (\<forall>c s code s'. wk_wait win c s = (Ok code, s') \<longrightarrow> c \<notin> live s') \<and>
     (\<forall>c s. live (snd (wk_try_wait win c s)) \<subseteq> live s) \<and>
     (\<forall>c s. c \<notin> live s \<longrightarrow> (\<exists>code. fst (wk_try_wait win c s) = Ok (Some code)))"

lemma win_laws_wait:
  "win_laws win live \<Longrightarrow> wk_wait win c s = (Ok code, s') \<Longrightarrow> c \<notin> live s'"
  by (simp add: win_laws_def)

lemma win_laws_exited:
  assumes "win_laws win live" "c \<notin> live s"
  shows "\<exists>code s'. wk_try_wait win c s = (Ok (Some code), s') \<and> c \<notin> live s'"
proof -
  have "\<exists>code. fst (wk_try_wait win c s) = Ok (Some code)" using assms by (simp add: win_laws_def)
  then obtain code where code: "fst (wk_try_wait win c s) = Ok (Some code)" ..
  have "live (snd (wk_try_wait win c s)) \<subseteq> live s" using assms(1) by (simp add: win_laws_def)
  with code assms(2) show ?thesis by (cases "wk_try_wait win c s") auto
qed

lemma win_wait_ends:
  "win_laws win live \<Longrightarrow> win_wait win p s = (Ok (), s') \<Longrightarrow> wp_child p \<notin> live s'"
  by (auto simp: win_wait_def map_ok_Ok_iff split: prod.splits dest: win_laws_wait)

lemma win_shutdown_pty_ends:
  assumes "win_laws win live" "win_shutdown_pty win p s = (Ok (), s')"
  shows "wp_child p \<notin> live s'"
proof -
  obtain s1 where "win_wait win p s1 = (Ok (), s')"
    using assms(2) by (auto simp: win_shutdown_pty_def win_close_handles_def split: prod.splits result.splits)
  with win_wait_ends [OF assms(1)] show ?thesis by blast
qed

type_synonym ('c, 'w, 's) consoled = "('c, 'w, 's) win \<times> ('s \<Rightarrow> u32 set) \<times> 'w win_process"

definition console_lawful :: "('c, 'w, 's) consoled \<Rightarrow> bool" where
  "console_lawful cp = (case cp of (win, live, p) \<Rightarrow> win_laws win live)"

definition console_alive :: "('c, 'w, 's) consoled \<Rightarrow> 's \<Rightarrow> bool" where
  "console_alive cp s = (case cp of (win, live, p) \<Rightarrow> wp_child p \<in> live s)"

definition on_console :: "(('c, 'w, 's) win \<Rightarrow> 'w win_process \<Rightarrow> 'a) \<Rightarrow> ('c, 'w, 's) consoled \<Rightarrow> 'a" where
  "on_console f cp = (case cp of (win, live, p) \<Rightarrow> f win p)"

definition win_put_env ::
  "('c, 'w, 's) win \<Rightarrow> 'w win_process \<Rightarrow> string \<Rightarrow> string \<Rightarrow> 's \<Rightarrow> (unit, io_error) result flow \<times> 's" where
  "win_put_env win p key val s = (case win_set_env win p key val s of (r, s1) \<Rightarrow> (Returns r, s1))"

lemmas console_simps = console_lawful_def console_alive_def on_console_def

interpretation windows: pty_platform "console_lawful :: ('c, 'w, 's) consoled \<Rightarrow> bool" console_alive "on_console win_shutdown_pty"
  "on_console win_status" "on_console win_put_env"
proof
  fix cp :: "('c, 'w, 's) consoled" and s s' key val
  assume l: "console_lawful cp"
  obtain win live p where cp: "cp = (win, live, p)" by (cases cp)
  with l have l: "win_laws win live" by (simp add: console_lawful_def)
  show "on_console win_shutdown_pty cp s = (Ok (), s') \<Longrightarrow> \<not> console_alive cp s'"
    using win_shutdown_pty_ends [OF l] by (simp add: cp console_simps)
  assume "\<not> console_alive cp s"
  then have "wp_child p \<notin> live s" by (simp add: cp console_simps)
  from win_laws_exited [OF l this] obtain code s1 where
    "wk_try_wait win (wp_child p) s = (Ok (Some code), s1)" "wp_child p \<notin> live s1" by blast
  then show "\<exists>s'. on_console win_status cp s = (Ok ''Not Running'', s') \<and> \<not> console_alive cp s'"
    "\<exists>s'. on_console win_put_env cp key val s =
      (Returns (Err (Custom NotConnected ''PTY process is not running'')), s') \<and> \<not> console_alive cp s'"
    by (simp_all add: cp console_simps win_status_def win_put_env_def win_set_env_def win_is_running_def)
qed

section \<open>Reading a console to its end\<close>

text \<open>The reads that give bytes, and those bytes.\<close>

inductive reads :: "('c, 'w, 's) win \<Rightarrow> u32 \<Rightarrow> 's \<Rightarrow> bytes list \<Rightarrow> 's \<Rightarrow> bool" for win fd where
  no_reads: "reads win fd s [] s"
| one_read: "wk_read win fd s = Some (Ok d, s1) \<Longrightarrow> d \<noteq> [] \<Longrightarrow> reads win fd s1 ds s2 \<Longrightarrow>
    reads win fd s (d # ds) s2"

lemma read_to_end_reads:
  "reads win fd s ds s1 \<Longrightarrow> wk_read win fd s1 = Some (Ok [], s2) \<Longrightarrow>
     read_to_end win fd buf s = Some (Ok (buf @ concat ds), s2)"
proof (induction arbitrary: buf rule: reads.induct)
  case (no_reads s)
  then show ?case by (simp add: read_to_end.simps)
next
  case (one_read s d s1 ds s2)
  then show ?case by (subst read_to_end.simps) simp
qed

lemma read_to_end_Ok:
  assumes "read_to_end win fd buf s = Some (Ok r, s')"
  shows "\<exists>ds s1. reads win fd s ds s1 \<and> wk_read win fd s1 = Some (Ok [], s') \<and> r = buf @ concat ds"
proof -
  have "\<forall>r. fst x = Ok r \<longrightarrow>
      (\<exists>ds s1. reads win fd s ds s1 \<and> wk_read win fd s1 = Some (Ok [], snd x) \<and> r = buf @ concat ds)"
    if "read_to_end win fd buf s = Some x" for x
  proof (rule read_to_end.raw_induct [where P = "\<lambda>win fd buf s x. \<forall>r. fst x = Ok r \<longrightarrow>
      (\<exists>ds s1. reads win fd s ds s1 \<and> wk_read win fd s1 = Some (Ok [], snd x) \<and> r = buf @ concat ds)",
      OF _ that], goal_cases)
    case (1 f win fd buf s x)
    show ?case
    proof (cases "wk_read win fd s")
      case (Some y)
      obtain z s1 where y: "y = (z, s1)" by fastforce
      show ?thesis
      proof (cases z)
        case (Ok d)
        show ?thesis
        proof (cases "d = []")
          case True
          then show ?thesis using 1(2) Some y Ok no_reads by fastforce
        next
          case False
          then have "f win fd (buf @ d) s1 = Some x" using 1(2) Some y Ok by simp
          note IH = 1(1) [OF this]
          show ?thesis
          proof (intro allI impI)
            fix r assume "fst x = Ok r"
            with IH obtain ds s2 where ds: "reads win fd s1 ds s2" "wk_read win fd s2 = Some (Ok [], snd x)"
              "r = (buf @ d) @ concat ds" by blast
            have "reads win fd s (d # ds) s2" using Some y Ok False ds(1) by (auto intro: one_read)
            then show "\<exists>ds s1. reads win fd s ds s1 \<and> wk_read win fd s1 = Some (Ok [], snd x) \<and> r = buf @ concat ds"
              using ds(2,3) by (intro exI [of _ "d # ds"]) auto
          qed
        qed
      next
        case (Err e)
        then show ?thesis using 1(2) Some y by auto
      qed
    qed (use 1(2) in simp)
  qed
  with assms show ?thesis by fastforce
qed

lemma read_to_end_Ok_iff:
  "read_to_end win fd buf s = Some (Ok r, s') \<longleftrightarrow>
     (\<exists>ds s1. reads win fd s ds s1 \<and> wk_read win fd s1 = Some (Ok [], s') \<and> r = buf @ concat ds)"
proof
  assume "\<exists>ds s1. reads win fd s ds s1 \<and> wk_read win fd s1 = Some (Ok [], s') \<and> r = buf @ concat ds"
  then show "read_to_end win fd buf s = Some (Ok r, s')" by (auto intro: read_to_end_reads)
qed (rule read_to_end_Ok)

text \<open>A condition under which every read waits or gives bytes, and which the reads keep.\<close>

lemma read_to_end_never:
  assumes "\<And>s. live s \<Longrightarrow> wk_read win fd s = None \<or>
      (\<exists>d s'. wk_read win fd s = Some (Ok d, s') \<and> d \<noteq> [] \<and> live s')"
    and "live s"
  shows "read_to_end win fd buf s = None"
proof (rule ccontr)
  assume "read_to_end win fd buf s \<noteq> None"
  then obtain x where x: "read_to_end win fd buf s = Some x" by blast
  have "win = win \<and> fd = fd \<longrightarrow> \<not> live s"
  proof (rule read_to_end.raw_induct [where P = "\<lambda>w f buf s x. w = win \<and> f = fd \<longrightarrow> \<not> live s", OF _ x],
      goal_cases)
    case (1 f w fd' buf t y)
    show ?case
    proof (intro impI notI)
      assume eq: "w = win \<and> fd' = fd" and l: "live t"
      from assms(1) [OF l] 1(2) eq obtain d s' where
        "wk_read win fd t = Some (Ok d, s')" "d \<noteq> []" "live s'" by auto
      moreover from this 1(2) eq have "f win fd (buf @ d) s' = Some y" by simp
      ultimately show False using 1(1) eq by blast
    qed
  qed
  with assms(2) show False by simp
qed

section \<open>Writing to a console\<close>

text \<open>\<open>sink\<close> is what a pipe has taken: a write appends a prefix of its bytes and tells its length.\<close>

definition write_laws :: "('c, 'w, 's) win \<Rightarrow> ('s \<Rightarrow> bytes) \<Rightarrow> bool" where
  "write_laws win sink \<longleftrightarrow>
     (\<forall>fd d s n s'. wk_write win fd d s = (Ok n, s') \<longrightarrow> n \<le> length d \<and> sink s' = sink s @ take n d) \<and>
     (\<forall>fd d s e s'. wk_write win fd d s = (Err e, s') \<longrightarrow> sink s' = sink s) \<and>
     (\<forall>fd s. sink (wk_close win fd s) = sink s) \<and>
     (\<forall>w s. sink (snd (wp_conin win w s)) = sink s)"

lemma write_all_sink:
  assumes "write_laws win sink" "write_all win fd data s = (r, s')"
  shows "\<exists>k \<le> length data. sink s' = sink s @ take k data \<and> (r = Ok () \<longrightarrow> k = length data)"
  using assms
proof (induction win fd data s arbitrary: r s' rule: write_all.induct)
  case (1 win fd data s)
  obtain z s1 where w: "wk_write win fd data s = (z, s1)" by fastforce
  show ?case
  proof (cases "data = []")
    case True
    then show ?thesis using 1(3) by (simp add: write_all.simps)
  next
    case data: False
    show ?thesis
    proof (cases z)
      case (Err e)
      with w 1(2) have "sink s1 = sink s" by (simp add: write_laws_def)
      with 1(3) data w Err show ?thesis by (intro exI [of _ 0]) (auto simp: write_all.simps)
    next
      case (Ok n)
      with w 1(2) have n: "n \<le> length data" "sink s1 = sink s @ take n data" by (auto simp: write_laws_def)
      show ?thesis
      proof (cases "n = 0")
        case True
        with 1(3) data w Ok n show ?thesis by (intro exI [of _ 0]) (auto simp: write_all.simps [of win fd data])
      next
        case False
        with 1(3) data w Ok have "write_all win fd (drop n data) s1 = (r, s')"
          by (simp add: write_all.simps [of win fd data])
        from 1(1) [OF data w [symmetric] Ok False 1(2) this] obtain k where
          k: "k \<le> length (drop n data)" "sink s' = sink s1 @ take k (drop n data)"
            "r = Ok () \<longrightarrow> k = length (drop n data)" by blast
        then show ?thesis using n by (intro exI [of _ "n + k"]) (auto simp: take_add)
      qed
    qed
  qed
qed

lemma win_write_data_sink:
  assumes "write_laws win sink" "win_write_data win p data s = (r, s')"
  shows "\<exists>k \<le> length data. sink s' = sink s @ take k data \<and>
    (\<forall>n. r = Ok n \<longrightarrow> n = length data \<and> k = length data)"
proof (cases "wp_conin win (wp_console p) s")
  case (Pair z s1)
  from assms(1) have "sink (snd (wp_conin win (wp_console p) s)) = sink s" by (simp add: write_laws_def)
  then have s1: "sink s1 = sink s" by (simp add: Pair)
  show ?thesis
  proof (cases z)
    case (Err e)
    then show ?thesis using assms(2) Pair s1 by (intro exI [of _ 0]) (auto simp: win_write_data_def)
  next
    case (Ok conin)
    obtain y s2 where y: "write_all win conin data s1 = (y, s2)" by fastforce
    from write_all_sink [OF assms(1) y] obtain k where
      k: "k \<le> length data" "sink s2 = sink s1 @ take k data" "y = Ok () \<longrightarrow> k = length data" by blast
    have "sink (wk_close win conin s2) = sink s2" using assms(1) by (simp add: write_laws_def)
    then show ?thesis
      using assms(2) k s1 by (intro exI [of _ k]) (auto simp: win_write_data_def Pair Ok y split: result.splits)
  qed
qed

end
