(* ===== verification/Windows_Properties.thy ===== *)
theory Windows_Properties
  imports Platforms Sample_Kernel
begin

text \<open>
  Properties of the process of Windows and of what the platforms have in common, with their applications
  to a small system: a console with output pending, whose children run until they are killed.
\<close>

section \<open>A sample system\<close>

record wkern =
  wlive :: "u32 list"
  wout :: bytes
  wpending :: "bytes list"
  wnext :: u32

definition demo_win :: "(unit, unit, wkern) win" where
  "demo_win =
     \<lparr>wp_config = (\<lambda>cols rows k. (Ok (), k)),
      wp_open = (\<lambda>config k. (Ok (), k)),
      wp_conin = (\<lambda>w k. (Ok 1, k)), wp_conout = (\<lambda>w k. (Ok 2, k)), wp_conerr = (\<lambda>w k. (Ok 3, k)),
      wp_set_size = (\<lambda>w cols rows k. (Ok (), k)),
      wp_drop = (\<lambda>w k. k),
      wk_write = (\<lambda>fd d k. (Ok (length (take 2 d)), k\<lparr>wout := wout k @ take 2 d\<rparr>)),
      wk_read = (\<lambda>fd k. case filter (\<lambda>d. d \<noteq> []) (wpending k) of
          d # ds \<Rightarrow> Some (Ok d, k\<lparr>wpending := ds\<rparr>)
        | [] \<Rightarrow> if wlive k = [] then Some (Ok [], k) else None),
      wk_close = (\<lambda>fd k. k),
      wk_spawn = (\<lambda>program i ou er k. if program = ''missing'' then (Err (Os OtherOs 2), k)
          else (Ok (wnext k), k\<lparr>wlive := wnext k # wlive k, wnext := wnext k + 1\<rparr>)),
      wk_kill = (\<lambda>c k. (Ok (), k\<lparr>wlive := filter (\<lambda>x. x \<noteq> c) (wlive k)\<rparr>)),
      wk_wait = (\<lambda>c k. (Ok 1, k\<lparr>wlive := filter (\<lambda>x. x \<noteq> c) (wlive k)\<rparr>)),
      wk_try_wait = (\<lambda>c k. (Ok (if c \<in> set (wlive k) then None else Some 1), k))\<rparr>"

definition demo_wkern :: wkern where
  "demo_wkern = \<lparr>wlive = [], wout = [], wpending = [[104, 105]], wnext = 7\<rparr>"

definition demo_console :: "unit win_process" where
  "demo_console = WinProcess () 7 fmempty ''cmd.exe''"

text \<open>The state after the process has been created.\<close>

definition demo_running :: wkern where
  "demo_running = \<lparr>wlive = [7], wout = [], wpending = [[104, 105]], wnext = 8\<rparr>"

lemma demo_win_new: "win_new demo_win demo_wkern = (Ok demo_console, demo_running)"
  by (simp add: win_new_def open_console_def spawn_on_def close_pipes_def win_mux_new_def demo_win_def
      demo_wkern_def demo_console_def demo_running_def)

lemma demo_win_laws: "win_laws demo_win (\<lambda>k. set (wlive k))"
  by (auto simp: win_laws_def demo_win_def)

section \<open>After a shutdown\<close>

text \<open>The sample kernel of macOS and Linux, with a \<open>waitpid\<close> that reaps the process it waits for.\<close>

definition reaping_sys :: "kern sys" where
  "reaping_sys = demo_sys\<lparr>k_waitpid := (\<lambda>p opts k. ((p, 10), k\<lparr>kpids := filter (\<lambda>x. x \<noteq> p) (kpids k)\<rparr>))\<rparr>"

lemma reaping_laws: "proc_laws reaping_sys (\<lambda>k. set (kpids k))"
  by (auto simp: proc_laws_def reaping_sys_def demo_sys_def SIGKILL_def SIGTERM_def ESRCH_def)

text \<open>C18: a shutdown that succeeds is final on every platform. However often the process is asked
  afterwards, its status is \<open>Not Running\<close> and setting an environment variable is refused without
  reaching a terminal.\<close>

theorem shutdown_is_final:
  assumes "proc_laws sys procs" "win_laws win live"
  shows "(shutdown_pty sys p s = (Ok (), s1) \<longrightarrow>
        ask_all (pty_status sys p) (set_env sys p) qs s1 = map ended_reading qs) \<and>
      (linux_shutdown_pty sys p s = (Ok (), s2) \<longrightarrow>
        ask_all (linux_status sys p) (linux_set_env sys p) qs s2 = map ended_reading qs) \<and>
      (win_shutdown_pty win w t = (Ok (), t1) \<longrightarrow>
        ask_all (win_status win w) (win_put_env win w) qs t1 = map ended_reading qs)"
  using macos.shutdown_final [of "(sys, procs, p)" s s1 qs] linux.shutdown_final [of "(sys, procs, p)" s s2 qs]
    windows.shutdown_final [of "(win, live, w)" t t1 qs] assms
  by (simp add: host_simps console_simps)

theorem shutdown_is_final_witness:
  "ask_all (pty_status reaping_sys demo_proc) (set_env reaping_sys demo_proc) [AskStatus, AskEnv ''A'' ''b'', AskStatus]
      (snd (shutdown_pty reaping_sys demo_proc demo_kern)) =
      map ended_reading [AskStatus, AskEnv ''A'' ''b'', AskStatus] \<and>
   ask_all (win_status demo_win demo_console) (win_put_env demo_win demo_console) [AskStatus]
      (snd (win_shutdown_pty demo_win demo_console demo_running)) = [StatusIs (Ok ''Not Running'')]"
proof -
  define k where "k = snd (shutdown_pty reaping_sys demo_proc demo_kern)"
  define u where "u = snd (win_shutdown_pty demo_win demo_console demo_running)"
  have "shutdown_pty reaping_sys demo_proc demo_kern = (Ok (), k)"
    by (simp add: k_def shutdown_pty_def kill_process_def waitpid_def close_master_fd_def reaping_sys_def
        demo_sys_def demo_proc_def demo_kern_def SIGTERM_def ESRCH_def SIGKILL_def)
  moreover have "win_shutdown_pty demo_win demo_console demo_running = (Ok (), u)"
    by (simp add: u_def win_shutdown_pty_def win_kill_process_def win_wait_def win_close_handles_def demo_win_def)
  moreover note
    shutdown_is_final [OF reaping_laws demo_win_laws, of demo_proc demo_kern k
        "[AskStatus, AskEnv ''A'' ''b'', AskStatus]" undefined demo_console demo_running u]
    shutdown_is_final [OF reaping_laws demo_win_laws, of demo_proc demo_kern k "[AskStatus]" undefined
        demo_console demo_running u]
  ultimately show ?thesis unfolding k_def [symmetric] u_def [symmetric] by simp
qed

section \<open>Reading and writing\<close>

text \<open>C32: a read from a console never returns while the shell runs. It reads to the end of the output,
  which a running shell leaves open: whatever the shell writes, and in whatever pieces it is read.\<close>

theorem win_read_running_never:
  assumes "wp_conout win (wp_console p) s = (Ok conout, s1)" "wp_child p \<in> live s1"
    and "\<And>t. wp_child p \<in> live t \<Longrightarrow> wk_read win conout t = None \<or>
      (\<exists>d t'. wk_read win conout t = Some (Ok d, t') \<and> d \<noteq> [] \<and> wp_child p \<in> live t')"
  shows "win_read_data win p s = None"
  using read_to_end_never [of "\<lambda>t. wp_child p \<in> live t" win conout, OF assms(3) assms(2)]
  by (simp add: win_read_data_def assms(1))

theorem win_read_running_never_witness: "win_read_data demo_win demo_console demo_running = None"
  by (rule win_read_running_never [of _ _ _ _ _ "\<lambda>k. set (wlive k)"])
    (auto simp: demo_win_def demo_running_def demo_console_def filter_eq_Cons_iff split: list.splits)

text \<open>A write to a console takes all of its bytes or fails. On success the count is the length of the
  data and the pipe has taken exactly the data; on failure it has taken a prefix of it.\<close>

theorem win_write_whole:
  assumes "write_laws win sink" "win_write_data win p data s = (r, s')"
  shows "\<exists>k \<le> length data. sink s' = sink s @ take k data \<and>
      (\<forall>n. r = Ok n \<longrightarrow> n = length data \<and> k = length data)"
  using win_write_data_sink [OF assms] .

lemma demo_write_laws: "write_laws demo_win wout"
  by (auto simp: write_laws_def demo_win_def min_def)

theorem win_write_whole_witness:
  "wout (snd (win_write_data demo_win demo_console [1, 2, 3] demo_running)) = [1, 2, 3]"
proof -
  obtain r s' where w: "win_write_data demo_win demo_console [1, 2, 3] demo_running = (r, s')" by fastforce
  moreover have "r = Ok 3"
    using w by (auto simp: win_write_data_def demo_win_def write_all.simps)
  ultimately show ?thesis using win_write_whole [OF demo_write_laws w] by (auto simp: demo_running_def)
qed

section \<open>Changing the shell\<close>

text \<open>No call on a console or a pipe starts or ends a child, and \<open>spawn\<close> starts one or none.\<close>

definition console_frame :: "('c, 'w, 's) win \<Rightarrow> ('s \<Rightarrow> u32 set) \<Rightarrow> bool" where
  "console_frame win live \<longleftrightarrow>
     (\<forall>a b s. live (snd (wp_config win a b s)) = live s) \<and> (\<forall>c s. live (snd (wp_open win c s)) = live s) \<and>
     (\<forall>w s. live (snd (wp_conin win w s)) = live s) \<and> (\<forall>w s. live (snd (wp_conout win w s)) = live s) \<and>
     (\<forall>w s. live (snd (wp_conerr win w s)) = live s) \<and> (\<forall>w s. live (wp_drop win w s) = live s) \<and>
     (\<forall>fd s. live (wk_close win fd s) = live s)"

definition spawned :: "(u32, io_error) result \<Rightarrow> u32 set \<Rightarrow> u32 set" where
  "spawned r A = (case r of Ok c \<Rightarrow> insert c A | Err e \<Rightarrow> A)"

lemma spawned_simps [simp]: "spawned (Ok c) A = insert c A" "spawned (Err e) A = A"
  by (simp_all add: spawned_def)

definition spawn_laws :: "('c, 'w, 's) win \<Rightarrow> ('s \<Rightarrow> u32 set) \<Rightarrow> bool" where
  "spawn_laws win live \<longleftrightarrow> console_frame win live \<and>
     (\<forall>pr i ou er s. live (snd (wk_spawn win pr i ou er s)) = spawned (fst (wk_spawn win pr i ou er s)) (live s))"

lemma spawn_laws_frame:
  assumes "spawn_laws win live"
  shows "live (snd (wp_config win a b s)) = live s" "live (snd (wp_open win cf s)) = live s"
    "live (snd (wp_conin win w s)) = live s" "live (snd (wp_conout win w s)) = live s"
    "live (snd (wp_conerr win w s)) = live s" "live (wp_drop win w s) = live s"
    "live (wk_close win fd s) = live s"
    "live (snd (wk_spawn win pr i ou er s)) = spawned (fst (wk_spawn win pr i ou er s)) (live s)"
  using assms unfolding spawn_laws_def console_frame_def by simp_all

lemma open_console_live:
  assumes "spawn_laws win live"
  shows "live (snd (open_console win s)) = live s"
proof (cases "wp_config win 80 24 s")
  case (Pair r s1)
  have "live s1 = live s" using spawn_laws_frame(1) [OF assms, of 80 24 s] by (simp add: Pair)
  then show ?thesis by (cases r) (simp_all add: open_console_def Pair spawn_laws_frame(2) [OF assms])
qed

lemma close_pipes_live: "spawn_laws win live \<Longrightarrow> live (close_pipes win fds s) = live s"
  by (induction fds arbitrary: s) (simp_all add: close_pipes_def spawn_laws_frame)

lemma spawn_on_live:
  assumes "spawn_laws win live"
  shows "live (snd (spawn_on win console pr s)) = spawned (fst (spawn_on win console pr s)) (live s)"
proof (cases "wp_conin win console s")
  case x: (Pair x s1)
  have l1: "live s1 = live s" using spawn_laws_frame(3) [OF assms, of console s] by (simp add: x)
  show ?thesis
  proof (cases "wp_conout win console s1")
    case y: (Pair y s2)
    have l2: "live s2 = live s" using spawn_laws_frame(4) [OF assms, of console s1] by (simp add: y l1)
    show ?thesis
    proof (cases "wp_conerr win console s2")
      case zz: (Pair z s3)
      have l3: "live s3 = live s" using spawn_laws_frame(5) [OF assms, of console s2] by (simp add: zz l2)
      have l4: "live (snd (wk_spawn win pr i ou er s3)) = spawned (fst (wk_spawn win pr i ou er s3)) (live s)"
        for i ou er using spawn_laws_frame(8) [OF assms] by (simp add: l3)
      note live = l1 l2 l3 l4 close_pipes_live [OF assms]
      show ?thesis
      proof (cases x)
        case i: (Ok i)
        show ?thesis
        proof (cases y)
          case ou: (Ok ou)
          show ?thesis
          proof (cases z)
            case er: (Ok er)
            obtain v s4 where v: "wk_spawn win pr i ou er s3 = (v, s4)" by fastforce
            have "spawn_on win console pr s = (v, close_pipes win [i, ou, er] s4)"
              by (simp only: spawn_on_def x y zz i ou er v prod.case result.case)
            then show ?thesis using l4 [of i ou er] by (simp add: v close_pipes_live [OF assms])
          next
            case (Err e)
            have "spawn_on win console pr s = (Err e, close_pipes win [i, ou] s3)"
              by (simp only: spawn_on_def x y zz i ou Err prod.case result.case)
            then show ?thesis by (simp add: live)
          qed
        next
          case (Err e)
          have "spawn_on win console pr s = (Err e, close_pipes win [i] s2)"
            by (simp only: spawn_on_def x y i Err prod.case result.case)
          then show ?thesis by (simp add: live)
        qed
      next
        case (Err e)
        have "spawn_on win console pr s = (Err e, s1)"
          by (simp only: spawn_on_def x Err prod.case result.case)
        then show ?thesis by (simp add: l1)
      qed
    qed
  qed
qed

lemma open_console_eq:
  "spawn_laws win live \<Longrightarrow> open_console win s = (r, s') \<Longrightarrow> live s' = live s"
  using open_console_live [of win live s] by simp

lemma spawn_on_eq:
  "spawn_laws win live \<Longrightarrow> spawn_on win console pr s = (r, s') \<Longrightarrow> live s' = spawned r (live s)"
  using spawn_on_live [of win live console pr s] by simp

lemma win_new_live:
  assumes "spawn_laws win live" "win_new win s = (r, s')"
  shows "live s' = (case r of Ok p \<Rightarrow> insert (wp_child p) (live s) | Err e \<Rightarrow> live s)"
proof (cases "open_console win s")
  case o: (Pair x s1)
  have l1: "live s1 = live s" using open_console_eq [OF assms(1) o] .
  show ?thesis
  proof (cases x)
    case (Ok console)
    obtain y s2 where y: "spawn_on win console ''cmd.exe'' s1 = (y, s2)" by fastforce
    note l2 = spawn_on_eq [OF assms(1) y]
    have d: "live (wp_drop win console s2) = live s2" by (rule spawn_laws_frame(6) [OF assms(1)])
    show ?thesis
    proof (cases y)
      case c: (Ok c)
      then have "r = Ok (WinProcess console c win_mux_new ''cmd.exe'')" "s' = s2"
        using assms(2) by (simp_all add: win_new_def o Ok y)
      then show ?thesis using l1 l2 c by simp
    next
      case (Err e)
      then have "r = Err e" "s' = wp_drop win console s2"
        using assms(2) by (simp_all add: win_new_def o Ok y)
      then show ?thesis using l1 l2 d Err by simp
    qed
  next
    case (Err e)
    then have "r = Err e" "s' = s1" using assms(2) by (simp_all add: win_new_def o)
    then show ?thesis using l1 by simp
  qed
qed

lemma win_spawn_new_shell_live:
  assumes "spawn_laws win live" "win_spawn_new_shell win p sh s = (r, p', s')"
  shows "wp_table p' = wp_table p \<and>
    (case r of Ok _ \<Rightarrow> live s' = insert (wp_child p') (live s) \<and> wp_command p' = sh
     | Err e \<Rightarrow> live s' = live s \<and> wp_child p' = wp_child p \<and> wp_command p' = wp_command p)"
proof (cases "open_console win s")
  case o: (Pair x s1)
  have l1: "live s1 = live s" using open_console_eq [OF assms(1) o] .
  show ?thesis
  proof (cases x)
    case (Ok console)
    obtain y s2 where y: "spawn_on win console sh (wp_drop win (wp_console p) s1) = (y, s2)" by fastforce
    have "live s2 = spawned y (live s)"
      using spawn_on_eq [OF assms(1) y] l1 by (simp add: spawn_laws_frame(6) [OF assms(1)])
    then show ?thesis
      using assms(2) by (cases y) (auto simp: win_spawn_new_shell_def o Ok y Let_def)
  next
    case (Err e)
    then have "r = Err e" "p' = p" "s' = s1" using assms(2) by (simp_all add: win_spawn_new_shell_def o)
    then show ?thesis using l1 by simp
  qed
qed

text \<open>C28: changing the shell of a Windows process. On success the process is the new shell, which runs,
  and keeps its table of processes. On failure it keeps its child and its command, and if the failure
  comes after the old shell was ended, as a missing program does, the process is \<open>Not Running\<close> and its
  environment cannot be set: the caller has lost the shell.\<close>

theorem win_change_shell_outcome:
  assumes "win_laws win live" "spawn_laws win live" "win_change_shell win p sh s = (r, p', s')"
  shows "wp_table p' = wp_table p \<and>
    (case r of
       Ok _ \<Rightarrow> wp_child p' \<in> live s' \<and> wp_command p' = sh
     | Err e \<Rightarrow> wp_child p' = wp_child p \<and> wp_command p' = wp_command p \<and>
         (is_ok (fst (win_kill_process win p 0 s)) \<and>
          is_ok (fst (win_wait win p (snd (win_kill_process win p 0 s)))) \<longrightarrow>
            ask_all (win_status win p') (win_put_env win p') qs s' = map ended_reading qs))"
proof -
  obtain k s1 where k: "win_kill_process win p 0 s = (k, s1)" by fastforce
  obtain v s2 where v: "win_wait win p s1 = (v, s2)" by fastforce
  show ?thesis
  proof (cases "is_ok k \<and> is_ok v")
    case True
    then have kv: "k = Ok ()" "v = Ok ()" by (auto simp: is_ok_iff)
    then have sp: "win_spawn_new_shell win p sh s2 = (r, p', s')"
      using assms(3) by (simp add: win_change_shell_def k v)
    have dead: "wp_child p \<notin> live s2" using win_wait_ends [OF assms(1)] v kv by blast
    note l = win_spawn_new_shell_live [OF assms(2) sp]
    show ?thesis
    proof (cases r)
      case (Err e)
      then have "wp_child p' \<notin> live s'" using l dead by auto
      with windows.ended_stays [of "(win, live, p')" s' qs] assms(1) show ?thesis
        using l Err by (auto simp: console_simps)
    qed (use l in auto)
  next
    case False
    then have "\<not> is_ok k \<or> \<not> is_ok v" by simp
    then have "p' = p \<and> (\<exists>e. r = Err e)"
      using assms(3) by (cases k; cases v) (auto simp: win_change_shell_def k v)
    then show ?thesis using False by (auto simp: k v)
  qed
qed

lemma demo_spawn_laws: "spawn_laws demo_win (\<lambda>k. set (wlive k))"
  by (auto simp: spawn_laws_def console_frame_def demo_win_def)

theorem win_change_shell_outcome_witness:
  "fst (win_change_shell demo_win demo_console ''missing'' demo_running) = Err (Os OtherOs 2) \<and>
   wp_command (fst (snd (win_change_shell demo_win demo_console ''missing'' demo_running))) = ''cmd.exe'' \<and>
   fst (win_status demo_win (fst (snd (win_change_shell demo_win demo_console ''missing'' demo_running)))
     (snd (snd (win_change_shell demo_win demo_console ''missing'' demo_running)))) = Ok ''Not Running''"
proof -
  obtain r p' s' where c: "win_change_shell demo_win demo_console ''missing'' demo_running = (r, p', s')"
    by (metis prod.collapse)
  then have r: "r = Err (Os OtherOs 2)"
    by (auto simp: win_change_shell_def win_kill_process_def win_wait_def win_spawn_new_shell_def
        open_console_def spawn_on_def Let_def demo_win_def)
  have ok: "is_ok (fst (win_kill_process demo_win demo_console 0 demo_running))"
    "is_ok (fst (win_wait demo_win demo_console (snd (win_kill_process demo_win demo_console 0 demo_running))))"
    by (simp_all add: win_kill_process_def win_wait_def demo_win_def)
  have "wp_command demo_console = ''cmd.exe''" by (simp add: demo_console_def)
  with win_change_shell_outcome [OF demo_win_laws demo_spawn_laws c, of "[AskStatus]"] r ok show ?thesis
    unfolding c by (simp split: prod.splits)
qed

section \<open>The table and the objects\<close>

text \<open>A session that was added is the one data is sent to, until it is removed; a new id only.\<close>

lemma win_table_session:
  assumes "fmlookup m k = None"
  shows "win_add_session k p m = (Ok (), fmupd k p m)"
    and "win_send_to_session from_io win (fmupd k p m) k d s =
      (case win_write_data win p d s of (r, s1) \<Rightarrow> (map_ok (\<lambda>_. ()) (map_err from_io r), s1))"
    and "win_remove_session k (fmupd k p m) = (Ok (), m)"
    and "\<not> is_ok (fst (win_add_session k q (fmupd k p m)))" "\<not> is_ok (fst (win_remove_session k m))"
    and "snd (win_send_to_session from_io win m k d s) = s"
proof -
  have "fmdrop k (fmupd k p m) = m" using assms by (intro fmap_ext) simp
  then show "win_remove_session k (fmupd k p m) = (Ok (), m)" by (simp add: win_remove_session_def)
qed (use assms in \<open>simp_all add: win_add_session_def win_send_to_session_def win_remove_session_def
    split: prod.splits result.splits\<close>)

text \<open>No object is read back as a process, so that \<open>pid\<close> never answers.\<close>

lemma win_pid_never: "\<not> is_ok (win_pid type_err obj)"
  by (auto simp: win_pid_def win_from_js_object_def is_ok_iff map_ok_Ok_iff split: result.splits)

end
