(* ===== verification/Vdom_Wrapper.thy ===== *)
theory Vdom_Wrapper
  imports Node_Objects Worker
begin

text \<open>
  The smaller conversions and constructors: the node types of \<open>src/virtual_dom/virtual_dom.rs\<close>, which
  repeat those of \<open>src/virtual_dom/mod.rs\<close>, the constructors of the latter, the wrapped maps and nodes of
  \<open>src/virtual_dom/renderer.rs\<close>, and the objects \<open>src/worker/pty_worker.rs\<close> makes of its messages.
\<close>

section \<open>Nodes\<close>

datatype vd_vnode = VdText string | VdElement vd_velement
  and vd_velement = VdVElement (vd_tag: string) (vd_props: props) (vd_styles: props) (vd_children: "vd_vnode list")

definition vd_velement_new :: "string \<Rightarrow> props \<Rightarrow> props \<Rightarrow> vd_vnode list \<Rightarrow> vd_velement" where
  "vd_velement_new tg p s cs = VdVElement tg p s cs"

definition vd_text :: "string \<Rightarrow> vd_vnode" where
  "vd_text content = VdText content"

definition vd_element :: "string \<Rightarrow> props \<Rightarrow> props \<Rightarrow> vd_vnode list \<Rightarrow> vd_vnode" where
  "vd_element tg p s cs = VdElement (vd_velement_new tg p s cs)"

text \<open>\<open>collect\<close> into a map: a later pair of the same key wins.\<close>

definition vd_style :: "(string \<times> string) list \<Rightarrow> props" where
  "vd_style pairs = fmap_of_list (rev pairs)"

definition vnode_text :: "string \<Rightarrow> vnode" where
  "vnode_text t = Text t"

definition velement_new :: "string \<Rightarrow> props \<Rightarrow> props \<Rightarrow> vnode list \<Rightarrow> velement" where
  "velement_new tg p s cs = VElement tg p s cs"

definition vdom_style :: "(string \<times> string) list \<Rightarrow> props" where
  "vdom_style pairs = fmap_of_list (rev pairs)"

text \<open>The three functions named \<open>style\<close> agree.\<close>

lemma fold_fmupd: "fold (\<lambda>(k, v) m. fmupd k v m) pairs m = m ++\<^sub>f fmap_of_list (rev pairs)"
proof (induction pairs arbitrary: m)
  case (Cons kv pairs)
  obtain k v where "kv = (k, v)" by fastforce
  with Cons [of "fmupd k v m"] show ?case
    by (intro fmap_ext) (auto simp: fmlookup_of_list map_of_append map_add_def split: option.splits)
qed simp

lemma styles_agree: "style pairs = vdom_style pairs \<and> vd_style pairs = vdom_style pairs"
  by (simp add: style_def vdom_style_def vd_style_def fold_fmupd)

section \<open>Wrapped maps and nodes\<close>

text \<open>\<open>FromNapiRef\<close> reads a map as \<open>FromNapiValue\<close> does, without asking first whether it is an object.\<close>

definition read_map_ref :: "(string \<Rightarrow> napi_error) \<Rightarrow> js_node \<Rightarrow> (props, napi_error) result" where
  "read_map_ref err v = (case v of JObj kvs \<Rightarrow> read_entries err kvs fmempty | _ \<Rightarrow> Err (err []))"

definition wrapped_to_node :: "(string \<Rightarrow> nat) \<Rightarrow> vnode \<Rightarrow> js_node" where
  "wrapped_to_node h root = to_node h root"

definition wrapped_from_node :: "(string \<Rightarrow> napi_error) \<Rightarrow> js_node \<Rightarrow> (vnode, napi_error) result" where
  "wrapped_from_node err v = from_node err v"

section \<open>Messages of the worker\<close>

text \<open>The payload of a message, and the object JavaScript receives.\<close>

datatype message_payload = PayloadNull | PayloadText string | PayloadData u32 bytes

record message_object =
  message_type :: string
  payload :: message_payload

fun message_to_object :: "worker_message \<Rightarrow> message_object" where
  "message_to_object MReady = \<lparr>message_type = ''READY'', payload = PayloadNull\<rparr>"
| "message_to_object (MError e) = \<lparr>message_type = ''ERROR'', payload = PayloadText e\<rparr>"
| "message_to_object (MData sid d) = \<lparr>message_type = ''DATA_RECEIVED'', payload = PayloadData sid d\<rparr>"

text \<open>No two messages look the same to JavaScript.\<close>

lemma message_to_object_inj: "inj message_to_object"
proof (rule injI)
  fix a b assume "message_to_object a = message_to_object b"
  then show "a = b" by (cases a; cases b) simp_all
qed

end
