(* ===== verification/Overlapping_Ops.thy ===== *)
theory Overlapping_Ops
  imports Session_Table
begin

text \<open>
  Operations of the multiplexer that overlap. The methods of \<open>src/pty/multiplexer.rs\<close> are asynchronous
  and share one table: JavaScript, the handler thread and the background tasks call them at the same
  time, on the threads of a pool. The table is a \<open>DashMap\<close>, which locks the shard of a key: to read it for
  \<open>get\<close> and \<open>iter\<close>, to write it for \<open>get_mut\<close>, \<open>iter_mut\<close>, \<open>insert\<close>, \<open>remove\<close> and \<open>clear\<close>, and which
  goes through its shards one after the other. A call is the stage it has reached; a step takes it to
  the next point where it may wait or be overtaken, and is undefined while it waits. What a call has
  locked is a function of its stage. Every call is taken to have a thread of the pool when it can go on. An
  iteration lets a shard go before it asks for the next; where the crate keeps it until it has the next, a
  call that waits for it waits longer, as the shards are asked for in order.
\<close>

section \<open>Stages\<close>

text \<open>\<open>e_shard\<close> and \<open>e_shards\<close> are the sharding of the \<open>dashmap\<close> crate, \<open>e_hash\<close> the order within a shard.\<close>

record 's overlap_env =
  e_shard :: "u32 \<Rightarrow> nat"
  e_shards :: nat
  e_hash :: "u32 \<Rightarrow> nat"
  e_disp :: "io_error \<Rightarrow> string"
  e_iface :: "'s pty_iface"

datatype answer = AUnit | AId u32 | AIds u32 u32 | AData bytes | AAll "session_data list" | AErr napi_error

text \<open>The two halves of a split session: its id, the inputs, the outputs.\<close>

datatype halves = Halves u32 bytes bytes bytes bytes

text \<open>
  A maximum is searched for a new session (\<open>None\<close>) or for the halves of one. The stages of a merge, from
  \<open>TakeOut\<close> to \<open>WantPrimary\<close>, have the id and the clone of the primary session.
\<close>

datatype stage =
    Called mux_op
  | FindMax "halves option" nat "u32 option"
  | InsertNew u32
  | InsertFirst halves u32
  | InsertSecond halves u32
  | DropOld u32 u32
  | WritePty bytes
  | ExtendShard nat bytes
  | WantRead u32 nat
  | ReadShards nat "(u32 \<times> nat) list" "session_data list"
  | TakeOut u32 pty_session "u32 list" "pty_session list"
  | MergeNext u32 pty_session "pty_session list"
  | MergeBoth u32 pty_session pty_session "pty_session list"
  | MergeBack u32 pty_session
  | WantUpdated u32 pty_session nat
  | WantPrimary u32 pty_session nat
  | PeekSize u32 pty_session
  | PeekFirst u32 pty_session nat
  | PeekSecond u32 pty_session nat bytes
  | ClearShard nat bool
  | CollectRefs nat "nat list" "nat list" bytes
  | AppendTo "nat list" bytes
  | Finished answer
  | Panicked

fun read_guards :: "(u32 \<Rightarrow> nat) \<Rightarrow> stage \<Rightarrow> nat list" where
  "read_guards sh (WantRead k a) = [sh k]"
| "read_guards sh (ReadShards s es ds) = (if es = [] then [] else [s])"
| "read_guards sh (CollectRefs s gs as d) = gs"
| "read_guards sh _ = []"

fun write_guards :: "(u32 \<Rightarrow> nat) \<Rightarrow> stage \<Rightarrow> nat list" where
  "write_guards sh (WantUpdated k primary a) = [sh k]"
| "write_guards sh (WantPrimary k primary a) = [sh k]"
| "write_guards sh _ = []"

fun bufs_held :: "stage \<Rightarrow> nat list" where
  "bufs_held (MergeBoth k primary ses es) = [output_buffer primary]"
| "bufs_held (WantPrimary k primary a) = [a]"
| "bufs_held _ = []"

text \<open>What a call can lock, with \<open>gs\<close> the stages of the other calls.\<close>

definition can_read :: "(u32 \<Rightarrow> nat) \<Rightarrow> stage list \<Rightarrow> nat \<Rightarrow> bool" where
  "can_read sh gs s = list_all (\<lambda>g. s \<notin> set (write_guards sh g)) gs"

definition can_write :: "(u32 \<Rightarrow> nat) \<Rightarrow> stage list \<Rightarrow> nat \<Rightarrow> bool" where
  "can_write sh gs s = list_all (\<lambda>g. s \<notin> set (write_guards sh g) \<and> s \<notin> set (read_guards sh g)) gs"

definition can_lock :: "stage list \<Rightarrow> nat \<Rightarrow> bool" where
  "can_lock gs a = list_all (\<lambda>g. a \<notin> set (bufs_held g)) gs"

definition in_shard :: "'s overlap_env \<Rightarrow> nat \<Rightarrow> mux \<Rightarrow> (u32 \<times> pty_session) list" where
  "in_shard env s m = filter (\<lambda>e. e_shard env (fst e) = s) (entries_in (e_hash env) (sessions m))"

section \<open>Steps\<close>

text \<open>\<open>max\<close> over the keys, shard by shard, and what the new id is for.\<close>

definition max_step :: "'s overlap_env \<Rightarrow> stage list \<Rightarrow> halves option \<Rightarrow> nat \<Rightarrow> u32 option \<Rightarrow> mux \<Rightarrow> stage option" where
  "max_step env gs what s acc m =
     (if s < e_shards env then
        (if can_read (e_shard env) gs s then
           Some (FindMax what (Suc s)
             (fold (\<lambda>e b. case b of None \<Rightarrow> Some (fst e) | Some k \<Rightarrow> Some (max k (fst e))) (in_shard env s m) acc))
         else None)
      else
        (let sid = (case acc of Some k \<Rightarrow> k | None \<Rightarrow> 0) + 1
         in Some (case what of None \<Rightarrow> InsertNew sid | Some hv \<Rightarrow> InsertFirst hv sid)))"

definition file_session :: "u32 \<Rightarrow> bytes \<Rightarrow> bytes \<Rightarrow> mux \<Rightarrow> mux" where
  "file_session sid i out m =
     (case alloc out m of
        (a, m1) \<Rightarrow> insert_session sid \<lparr>stream_id = sid, input_buffer = i, output_buffer = a\<rparr> m1)"

text \<open>\<open>insert\<close> of \<open>create_session\<close>.\<close>

definition insert_step :: "'s overlap_env \<Rightarrow> stage list \<Rightarrow> u32 \<Rightarrow> mux \<Rightarrow> (stage \<times> mux) option" where
  "insert_step env gs sid m =
     (if can_write (e_shard env) gs (e_shard env sid) then Some (Finished (AId sid), file_session sid [] [] m)
      else None)"

text \<open>The two inserts and the removal of \<open>split_session\<close>.\<close>

fun insert_first :: "'s overlap_env \<Rightarrow> stage list \<Rightarrow> halves \<Rightarrow> u32 \<Rightarrow> mux \<Rightarrow> (stage \<times> mux) option" where
  "insert_first env gs (Halves k i1 i2 o1 o2) id1 m =
     (if can_write (e_shard env) gs (e_shard env id1)
      then Some (InsertSecond (Halves k i1 i2 o1 o2) id1, file_session id1 i1 o1 m) else None)"

fun insert_second :: "'s overlap_env \<Rightarrow> stage list \<Rightarrow> halves \<Rightarrow> u32 \<Rightarrow> mux \<Rightarrow> (stage \<times> mux) option" where
  "insert_second env gs (Halves k i1 i2 o1 o2) id1 m =
     (if can_write (e_shard env) gs (e_shard env (id1 + 1))
      then Some (DropOld k id1, file_session (id1 + 1) i2 o2 m) else None)"

definition drop_old :: "'s overlap_env \<Rightarrow> stage list \<Rightarrow> u32 \<Rightarrow> u32 \<Rightarrow> mux \<Rightarrow> (stage \<times> mux) option" where
  "drop_old env gs k id1 m =
     (if can_write (e_shard env) gs (e_shard env k) then Some (Finished (AIds id1 (id1 + 1)), drop_session k m) else None)"

text \<open>
  The three looks of a split at the output buffer; the slices of the last two panic when the buffer has
  become shorter.
\<close>

definition peek_size :: "stage list \<Rightarrow> u32 \<Rightarrow> pty_session \<Rightarrow> mux \<Rightarrow> stage option" where
  "peek_size gs k ses m =
     (if can_lock gs (output_buffer ses) then Some (PeekFirst k ses (length (bufs m ! output_buffer ses) div 2)) else None)"

definition peek_first :: "stage list \<Rightarrow> u32 \<Rightarrow> pty_session \<Rightarrow> nat \<Rightarrow> mux \<Rightarrow> stage option" where
  "peek_first gs k ses half m =
     (if can_lock gs (output_buffer ses) then
        (let output = bufs m ! output_buffer ses
         in Some (if half \<le> length output then PeekSecond k ses half (take half output) else Panicked))
      else None)"

definition peek_second :: "stage list \<Rightarrow> u32 \<Rightarrow> pty_session \<Rightarrow> nat \<Rightarrow> bytes \<Rightarrow> mux \<Rightarrow> stage option" where
  "peek_second gs k ses half output1 m =
     (if can_lock gs (output_buffer ses) then
        (let output = bufs m ! output_buffer ses;
             input_half = length (input_buffer ses) div 2
         in Some (if half \<le> length output
                  then FindMax (Some (Halves k (take input_half (input_buffer ses)) (drop input_half (input_buffer ses))
                         output1 (drop half output))) 0 None
                  else Panicked))
      else None)"

text \<open>\<open>get_mut\<close> and the extension of \<open>send_to_session\<close>; the write to the process comes later.\<close>

definition send_step_ov :: "'s overlap_env \<Rightarrow> stage list \<Rightarrow> u32 \<Rightarrow> bytes \<Rightarrow> mux \<Rightarrow> (stage \<times> mux) option" where
  "send_step_ov env gs k data m =
     (if can_write (e_shard env) gs (e_shard env k) then
        Some (case fmlookup (sessions m) k of
                Some ses \<Rightarrow> (WritePty data, insert_session k (ses\<lparr>input_buffer := input_buffer ses @ data\<rparr>) m)
              | None \<Rightarrow> (Finished (AErr (not_found k)), m))
      else None)"

text \<open>\<open>iter_mut\<close> of \<open>broadcast\<close>, shard by shard.\<close>

definition extend_shard :: "'s overlap_env \<Rightarrow> stage list \<Rightarrow> nat \<Rightarrow> bytes \<Rightarrow> mux \<Rightarrow> (stage \<times> mux) option" where
  "extend_shard env gs s data m =
     (if s < e_shards env then
        (if can_write (e_shard env) gs s then
           Some (ExtendShard (Suc s) data,
             m\<lparr>sessions := fmmap_keys (\<lambda>k ses. if e_shard env k = s
                 then ses\<lparr>input_buffer := input_buffer ses @ data\<rparr> else ses) (sessions m)\<rparr>)
         else None)
      else Some (WritePty data, m))"

definition write_pty :: "'s overlap_env \<Rightarrow> bytes \<Rightarrow> 's \<Rightarrow> stage \<times> 's" where
  "write_pty env data s =
     (case if_write_data (e_iface env) data s of
        (Ok n, s1) \<Rightarrow> (Finished AUnit, s1)
      | (Err e, s1) \<Rightarrow> (Finished (AErr (convert_io_error (e_disp env) e)), s1))"

text \<open>\<open>read_from_session\<close> awaits the buffer with its reference into the table.\<close>

definition get_step :: "'s overlap_env \<Rightarrow> stage list \<Rightarrow> u32 \<Rightarrow> mux \<Rightarrow> stage option" where
  "get_step env gs k m =
     (if can_read (e_shard env) gs (e_shard env k) then
        Some (case fmlookup (sessions m) k of
                Some ses \<Rightarrow> WantRead k (output_buffer ses)
              | None \<Rightarrow> Finished (AErr (not_found k)))
      else None)"

definition read_buffer :: "stage list \<Rightarrow> nat \<Rightarrow> mux \<Rightarrow> (stage \<times> mux) option" where
  "read_buffer gs a m = (if can_lock gs a then Some (Finished (AData (bufs m ! a)), set_buf a [] m) else None)"

text \<open>So does \<open>read_all_sessions\<close>, entry by entry.\<close>

fun read_shards :: "'s overlap_env \<Rightarrow> stage list \<Rightarrow> nat \<Rightarrow> (u32 \<times> nat) list \<Rightarrow> session_data list \<Rightarrow> mux \<Rightarrow> stage option" where
  "read_shards env gs s [] ds m =
     (if s < e_shards env then
        (if can_read (e_shard env) gs s then
           (case map (\<lambda>e. (fst e, output_buffer (snd e))) (in_shard env s m) of
              [] \<Rightarrow> Some (ReadShards (Suc s) [] ds)
            | es \<Rightarrow> Some (ReadShards s es ds))
         else None)
      else Some (Finished (AAll ds)))"
| "read_shards env gs s ((k, a) # es) ds m =
     (if can_lock gs a then
        Some (ReadShards (if es = [] then Suc s else s) es (ds @ [\<lparr>sd_session_id = k, sd_data = bufs m ! a\<rparr>]))
      else None)"

definition remove_step :: "'s overlap_env \<Rightarrow> stage list \<Rightarrow> u32 \<Rightarrow> mux \<Rightarrow> (stage \<times> mux) option" where
  "remove_step env gs k m =
     (if can_write (e_shard env) gs (e_shard env k) then
        Some (case fmlookup (sessions m) k of
                Some _ \<Rightarrow> (Finished AUnit, drop_session k m)
              | None \<Rightarrow> (Finished (AErr (not_found k)), m))
      else None)"

text \<open>\<open>clear\<close>, shard by shard; \<open>sig\<close> is true in the two shutdowns, which then signal the background task.\<close>

definition clear_shard :: "'s overlap_env \<Rightarrow> stage list \<Rightarrow> nat \<Rightarrow> bool \<Rightarrow> mux \<Rightarrow> (stage \<times> mux) option" where
  "clear_shard env gs s sig m =
     (if s < e_shards env then
        (if can_write (e_shard env) gs s then
           Some (ClearShard (Suc s) sig, m\<lparr>sessions := fmfilter (\<lambda>k. e_shard env k \<noteq> s) (sessions m)\<rparr>)
         else None)
      else Some (Finished AUnit, if sig then m\<lparr>shutdown_sent := True\<rparr> else m))"

definition begin_shutdown :: "'s overlap_env \<Rightarrow> i32 \<Rightarrow> 's \<Rightarrow> stage \<times> 's" where
  "begin_shutdown env sig s =
     (case if_kill_process (e_iface env) sig s of
        (Err e, s1) \<Rightarrow> (Finished (AErr (convert_io_error (e_disp env) e)), s1)
      | (Ok _, s1) \<Rightarrow>
          (case if_waitpid (e_iface env) WNOHANG s1 of
             (Err e, s2) \<Rightarrow> (Finished (AErr (convert_io_error (e_disp env) e)), s2)
           | (Ok _, s2) \<Rightarrow> (ClearShard 0 True, s2)))"

text \<open>
  \<open>dispatch_output\<close> collects references to all entries; \<open>join_all\<close> then turns each into a future
  with a clone of the session and lets the reference go, and polls the futures whose buffers are free.
\<close>

definition collect_step :: "'s overlap_env \<Rightarrow> stage list \<Rightarrow> nat \<Rightarrow> nat list \<Rightarrow> nat list \<Rightarrow> bytes \<Rightarrow> mux \<Rightarrow> stage option" where
  "collect_step env gs s held as data m =
     (if s < e_shards env then
        (if can_read (e_shard env) gs s then
           (let es = in_shard env s m
            in Some (CollectRefs (Suc s) (if es = [] then held else held @ [s])
                 (as @ map (\<lambda>e. output_buffer (snd e)) es) data))
         else None)
      else Some (AppendTo as data))"

definition append_step :: "stage list \<Rightarrow> nat list \<Rightarrow> bytes \<Rightarrow> mux \<Rightarrow> (stage \<times> mux) option" where
  "append_step gs as data m =
     (if as = [] then Some (Finished AUnit, m)
      else case find (can_lock gs) as of
        None \<Rightarrow> None
      | Some a \<Rightarrow> Some (AppendTo (remove1 a as) data, set_buf a (bufs m ! a @ data) m))"

definition begin_poll :: "'s overlap_env \<Rightarrow> 's \<Rightarrow> stage \<times> 's" where
  "begin_poll env s =
     (case if_read_data (e_iface env) 4096 s of
        (Ok data, s1) \<Rightarrow> (if data \<noteq> [] then CollectRefs 0 [] [] data else Finished AUnit, s1)
      | (Err e, s1) \<Rightarrow>
          (if kind e = WouldBlock then Finished AUnit else Finished (AErr (convert_io_error (e_disp env) e)), s1))"

text \<open>The merge: the clone of the primary session, the removal of the others.\<close>

definition begin_merge :: "'s overlap_env \<Rightarrow> stage list \<Rightarrow> u32 list \<Rightarrow> mux \<Rightarrow> stage option" where
  "begin_merge env gs ids m =
     (case ids of
        [] \<Rightarrow> Some (Finished (AErr (from_reason ''No session IDs provided for merging'')))
      | k # rest \<Rightarrow>
          (if can_read (e_shard env) gs (e_shard env k) then
             Some (case fmlookup (sessions m) k of
                     Some primary \<Rightarrow> TakeOut k primary rest []
                   | None \<Rightarrow> Finished (AErr (from_reason (''Primary session ID '' @ show_u32 k @ '' not found''))))
           else None))"

fun take_out :: "'s overlap_env \<Rightarrow> stage list \<Rightarrow> u32 \<Rightarrow> pty_session \<Rightarrow> u32 list \<Rightarrow> pty_session list \<Rightarrow> mux \<Rightarrow> (stage \<times> mux) option" where
  "take_out env gs k primary [] es m = Some (MergeNext k primary es, m)"
| "take_out env gs k primary (j # js) es m =
     (if can_write (e_shard env) gs (e_shard env j) then
        Some (case fmlookup (sessions m) j of
                Some ses \<Rightarrow> (TakeOut k primary js (es @ [ses]), drop_session j m)
              | None \<Rightarrow> (TakeOut k primary js es, m))
      else None)"

text \<open>The loop locks the buffer of the primary, then that of the session to merge, and then lets both go.\<close>

fun merge_next :: "stage list \<Rightarrow> u32 \<Rightarrow> pty_session \<Rightarrow> pty_session list \<Rightarrow> stage option" where
  "merge_next gs k primary [] = Some (MergeBack k primary)"
| "merge_next gs k primary (ses # es) =
     (if can_lock gs (output_buffer primary) then Some (MergeBoth k primary ses es) else None)"

definition merge_both :: "stage list \<Rightarrow> u32 \<Rightarrow> pty_session \<Rightarrow> pty_session \<Rightarrow> pty_session list \<Rightarrow> mux \<Rightarrow> (stage \<times> mux) option" where
  "merge_both gs k primary ses es m =
     (if can_lock gs (output_buffer ses) \<and> output_buffer ses \<noteq> output_buffer primary then
        Some (MergeNext k primary es,
          set_buf (output_buffer primary) (bufs m ! output_buffer primary @ bufs m ! output_buffer ses) m)
      else None)"

text \<open>
  The final block: the shard of the primary is locked for writing, then its buffer in the table, then the
  buffer of the clone, which is the same unless the session was replaced meanwhile.
\<close>

definition merge_back :: "'s overlap_env \<Rightarrow> stage list \<Rightarrow> u32 \<Rightarrow> pty_session \<Rightarrow> mux \<Rightarrow> (stage \<times> mux) option" where
  "merge_back env gs k primary m =
     (if can_write (e_shard env) gs (e_shard env k) then
        Some (case fmlookup (sessions m) k of
                None \<Rightarrow> (Finished AUnit, m)
              | Some updated \<Rightarrow>
                  (WantUpdated k primary (output_buffer updated),
                   insert_session k (updated\<lparr>input_buffer := input_buffer primary\<rparr>) m))
      else None)"

definition want_updated :: "stage list \<Rightarrow> u32 \<Rightarrow> pty_session \<Rightarrow> nat \<Rightarrow> stage option" where
  "want_updated gs k primary a = (if can_lock gs a then Some (WantPrimary k primary a) else None)"

definition want_primary :: "stage list \<Rightarrow> u32 \<Rightarrow> pty_session \<Rightarrow> nat \<Rightarrow> mux \<Rightarrow> (stage \<times> mux) option" where
  "want_primary gs k primary a m =
     (if can_lock gs (output_buffer primary) \<and> output_buffer primary \<noteq> a
      then Some (Finished AUnit, set_buf a (bufs m ! output_buffer primary) m) else None)"

text \<open>The first step of a call.\<close>

fun begin_step :: "'s overlap_env \<Rightarrow> stage list \<Rightarrow> mux_op \<Rightarrow> mux \<Rightarrow> 's \<Rightarrow> (stage \<times> mux \<times> 's) option" where
  "begin_step env gs OCreate m s = Some (FindMax None 0 None, m, s)"
| "begin_step env gs (OSend k d) m s = map_option (\<lambda>(g, m'). (g, m', s)) (send_step_ov env gs k d m)"
| "begin_step env gs (OBroadcast d) m s = Some (ExtendShard 0 d, m, s)"
| "begin_step env gs (ORead k) m s = map_option (\<lambda>g. (g, m, s)) (get_step env gs k m)"
| "begin_step env gs OReadAll m s = Some (ReadShards 0 [] [], m, s)"
| "begin_step env gs (ORemove k) m s = map_option (\<lambda>(g, m'). (g, m', s)) (remove_step env gs k m)"
| "begin_step env gs (OMerge ks) m s = map_option (\<lambda>g. (g, m, s)) (begin_merge env gs ks m)"
| "begin_step env gs (OSplit k) m s =
     (if can_read (e_shard env) gs (e_shard env k) then
        Some (case fmlookup (sessions m) k of
                Some ses \<Rightarrow> PeekSize k ses | None \<Rightarrow> Finished (AErr (not_found k)), m, s)
      else None)"
| "begin_step env gs OCloseAll m s = Some (ClearShard 0 False, m, s)"
| "begin_step env gs OPoll m s = (case begin_poll env s of (g, s') \<Rightarrow> Some (g, m, s'))"
| "begin_step env gs OShutdown m s = (case begin_shutdown env SIGTERM s of (g, s') \<Rightarrow> Some (g, m, s'))"
| "begin_step env gs OForce m s = (case begin_shutdown env SIGKILL s of (g, s') \<Rightarrow> Some (g, m, s'))"

text \<open>One step of a call: of its stage, of the table, or of the operating system.\<close>

fun call_step :: "'s overlap_env \<Rightarrow> stage list \<Rightarrow> stage \<Rightarrow> mux \<Rightarrow> 's \<Rightarrow> (stage \<times> mux \<times> 's) option" where
  "call_step env gs (Called op) m s = begin_step env gs op m s"
| "call_step env gs (FindMax what n acc) m s = map_option (\<lambda>g. (g, m, s)) (max_step env gs what n acc m)"
| "call_step env gs (InsertNew sid) m s = map_option (\<lambda>(g, m'). (g, m', s)) (insert_step env gs sid m)"
| "call_step env gs (InsertFirst hv id1) m s = map_option (\<lambda>(g, m'). (g, m', s)) (insert_first env gs hv id1 m)"
| "call_step env gs (InsertSecond hv id1) m s = map_option (\<lambda>(g, m'). (g, m', s)) (insert_second env gs hv id1 m)"
| "call_step env gs (DropOld k id1) m s = map_option (\<lambda>(g, m'). (g, m', s)) (drop_old env gs k id1 m)"
| "call_step env gs (WritePty d) m s = (case write_pty env d s of (g, s') \<Rightarrow> Some (g, m, s'))"
| "call_step env gs (ExtendShard n d) m s = map_option (\<lambda>(g, m'). (g, m', s)) (extend_shard env gs n d m)"
| "call_step env gs (WantRead k a) m s = map_option (\<lambda>(g, m'). (g, m', s)) (read_buffer gs a m)"
| "call_step env gs (ReadShards n es ds) m s = map_option (\<lambda>g. (g, m, s)) (read_shards env gs n es ds m)"
| "call_step env gs (TakeOut k p js es) m s = map_option (\<lambda>(g, m'). (g, m', s)) (take_out env gs k p js es m)"
| "call_step env gs (MergeNext k p es) m s = map_option (\<lambda>g. (g, m, s)) (merge_next gs k p es)"
| "call_step env gs (MergeBoth k p ses es) m s = map_option (\<lambda>(g, m'). (g, m', s)) (merge_both gs k p ses es m)"
| "call_step env gs (MergeBack k p) m s = map_option (\<lambda>(g, m'). (g, m', s)) (merge_back env gs k p m)"
| "call_step env gs (WantUpdated k p a) m s = map_option (\<lambda>g. (g, m, s)) (want_updated gs k p a)"
| "call_step env gs (WantPrimary k p a) m s = map_option (\<lambda>(g, m'). (g, m', s)) (want_primary gs k p a m)"
| "call_step env gs (PeekSize k ses) m s = map_option (\<lambda>g. (g, m, s)) (peek_size gs k ses m)"
| "call_step env gs (PeekFirst k ses n) m s = map_option (\<lambda>g. (g, m, s)) (peek_first gs k ses n m)"
| "call_step env gs (PeekSecond k ses n o1) m s = map_option (\<lambda>g. (g, m, s)) (peek_second gs k ses n o1 m)"
| "call_step env gs (ClearShard n sig) m s = map_option (\<lambda>(g, m'). (g, m', s)) (clear_shard env gs n sig m)"
| "call_step env gs (CollectRefs n hs as d) m s = map_option (\<lambda>g. (g, m, s)) (collect_step env gs n hs as d m)"
| "call_step env gs (AppendTo as d) m s = map_option (\<lambda>(g, m'). (g, m', s)) (append_step gs as d m)"
| "call_step env gs (Finished r) m s = None"
| "call_step env gs Panicked m s = None"

section \<open>Runs\<close>

record 's overlap =
  ov_mux :: mux
  ov_os :: 's
  ov_calls :: "stage list"

text \<open>A call is made, or one of the calls takes a step.\<close>

datatype overlap_event = Call mux_op | Run nat

definition others :: "nat \<Rightarrow> 'a list \<Rightarrow> 'a list" where
  "others t gs = take t gs @ drop (Suc t) gs"

fun overlap_step :: "'s overlap_env \<Rightarrow> overlap_event \<Rightarrow> 's overlap \<Rightarrow> 's overlap option" where
  "overlap_step env (Call op) st = Some (st\<lparr>ov_calls := ov_calls st @ [Called op]\<rparr>)"
| "overlap_step env (Run t) st =
     (if t < length (ov_calls st) then
        (case call_step env (others t (ov_calls st)) (ov_calls st ! t) (ov_mux st) (ov_os st) of
           None \<Rightarrow> None
         | Some (g, m, s) \<Rightarrow> Some \<lparr>ov_mux = m, ov_os = s, ov_calls = (ov_calls st)[t := g]\<rparr>)
      else None)"

fun run_overlap :: "'s overlap_env \<Rightarrow> overlap_event list \<Rightarrow> 's overlap \<Rightarrow> 's overlap option" where
  "run_overlap env [] st = Some st"
| "run_overlap env (e # es) st =
     (case overlap_step env e st of None \<Rightarrow> None | Some st1 \<Rightarrow> run_overlap env es st1)"

definition overlap_start :: "mux \<Rightarrow> 's \<Rightarrow> 's overlap" where
  "overlap_start m s = \<lparr>ov_mux = m, ov_os = s, ov_calls = []\<rparr>"

lemma run_overlap_append:
  "run_overlap env (es @ fs) st =
     (case run_overlap env es st of None \<Rightarrow> None | Some st1 \<Rightarrow> run_overlap env fs st1)"
  by (induction es arbitrary: st) (auto split: option.splits)

named_theorems step_defs

lemmas [step_defs] = max_step_def insert_step_def drop_old_def peek_size_def peek_first_def peek_second_def
  send_step_ov_def extend_shard_def write_pty_def get_step_def read_buffer_def remove_step_def
  clear_shard_def begin_shutdown_def collect_step_def append_step_def begin_poll_def begin_merge_def
  merge_both_def merge_back_def want_updated_def want_primary_def

end
