(* ===== verification/Overlap_Laws.thy ===== *)
theory Overlap_Laws
  imports Overlapping_Ops "HOL-Library.Multiset"
begin

text \<open>
  Laws of overlapping operations: what a step can lock, the invariants of runs, the calls that never
  wait for ever and those that do.
\<close>

section \<open>Other calls\<close>

lemma set_others:
  assumes "t < length gs"
  shows "g \<in> set (others t gs) \<longleftrightarrow> (\<exists>j < length gs. j \<noteq> t \<and> gs ! j = g)"
proof
  assume "g \<in> set (others t gs)"
  then consider "g \<in> set (take t gs)" | "g \<in> set (drop (Suc t) gs)" by (auto simp: others_def)
  then show "\<exists>j < length gs. j \<noteq> t \<and> gs ! j = g"
  proof cases
    case 1
    then obtain i where "i < length (take t gs)" "take t gs ! i = g" by (meson in_set_conv_nth)
    then show ?thesis by (intro exI [of _ i]) auto
  next
    case 2
    then obtain i where "i < length (drop (Suc t) gs)" "drop (Suc t) gs ! i = g" by (meson in_set_conv_nth)
    then show ?thesis using assms by (intro exI [of _ "Suc t + i"]) auto
  qed
next
  assume "\<exists>j < length gs. j \<noteq> t \<and> gs ! j = g"
  then obtain j where j: "j < length gs" "j \<noteq> t" "gs ! j = g" by blast
  show "g \<in> set (others t gs)"
  proof (cases "j < t")
    case True
    then have "take t gs ! j = g" "j < length (take t gs)" using j by auto
    then have "g \<in> set (take t gs)" by (metis nth_mem)
    then show ?thesis by (simp add: others_def)
  next
    case False
    then have "drop (Suc t) gs ! (j - Suc t) = g" "j - Suc t < length (drop (Suc t) gs)" using j by auto
    then have "g \<in> set (drop (Suc t) gs)" by (metis nth_mem)
    then show ?thesis by (simp add: others_def)
  qed
qed

lemma run_step:
  assumes "overlap_step env (Run t) st = Some st'"
  obtains g m s where "t < length (ov_calls st)"
    "call_step env (others t (ov_calls st)) (ov_calls st ! t) (ov_mux st) (ov_os st) = Some (g, m, s)"
    "st' = \<lparr>ov_mux = m, ov_os = s, ov_calls = (ov_calls st)[t := g]\<rparr>"
  using assms by (auto split: if_splits option.splits)

text \<open>A condition that every step keeps.\<close>

lemma run_overlap_invariant:
  assumes "run_overlap env es st = Some st'" "P st"
    and "\<And>e st st'. e \<in> set es \<Longrightarrow> P st \<Longrightarrow> overlap_step env e st = Some st' \<Longrightarrow> P st'"
  shows "P st'"
  using assms
proof (induction es arbitrary: st)
  case (Cons e es)
  then obtain st1 where st1: "overlap_step env e st = Some st1" "run_overlap env es st1 = Some st'"
    by (auto split: option.splits)
  from Cons.prems(3) [of e st st1] Cons.prems(2) st1(1) have "P st1" by simp
  from Cons.IH [OF st1(2) this] show ?case using Cons.prems(3) by (meson list.set_intros(2))
qed simp

section \<open>The table stays well formed\<close>

lemma mux_inv_file: "mux_inv m \<Longrightarrow> mux_inv (file_session sid i out m)"
  using mux_inv_add [of m sid i out] by (simp add: file_session_def split_def)

lemma view_file: "mux_inv m \<Longrightarrow> view (file_session sid i out m) = (view m)(sid \<mapsto> (i, out))"
  using view_add [of m sid i out] by (simp add: file_session_def split_def)

lemma mux_inv_extend:
  assumes "mux_inv m"
  shows "mux_inv (m\<lparr>sessions := fmmap_keys (\<lambda>k ses. if P k then ses\<lparr>input_buffer := input_buffer ses @ data\<rparr> else ses)
    (sessions m)\<rparr>)"
  using assms unfolding mux_inv_def by (auto split: if_splits)

lemma mux_inv_filter: "mux_inv m \<Longrightarrow> mux_inv (m\<lparr>sessions := fmfilter P (sessions m)\<rparr>)"
  unfolding mux_inv_def by (auto split: if_splits)

lemma mux_inv_shutdown [simp]: "mux_inv (m\<lparr>shutdown_sent := b\<rparr>) = mux_inv m"
  by (simp add: mux_inv_def)

lemmas table_invs = mux_inv_file mux_inv_extend mux_inv_filter mux_inv_input mux_inv_drop mux_inv_set_buf

lemma begin_step_inv:
  assumes "mux_inv m" "begin_step env gs op m s = Some (g, m', s')"
  shows "mux_inv m'"
  using assms
  by (cases op) (auto simp: send_step_ov_def remove_step_def intro: table_invs split: option.splits if_splits prod.splits)

lemma insert_halves_inv:
  assumes "mux_inv m"
  shows "insert_first env gs hv id1 m = Some (g, m') \<Longrightarrow> mux_inv m'"
    and "insert_second env gs hv id1 m = Some (g, m') \<Longrightarrow> mux_inv m'"
    and "take_out env gs k p js es m = Some (g, m') \<Longrightarrow> mux_inv m'"
  using assms by (cases hv; cases js; auto intro: table_invs split: if_splits option.splits)+

lemma call_step_inv:
  assumes "mux_inv m" "call_step env gs g m s = Some (g', m', s')"
  shows "mux_inv m'"
proof (cases g)
  case (Called op)
  then show ?thesis using begin_step_inv [OF assms(1)] assms(2) by simp
qed (use assms insert_halves_inv [OF assms(1)] in \<open>auto simp: insert_step_def drop_old_def extend_shard_def
  read_buffer_def merge_both_def merge_back_def want_primary_def clear_shard_def append_step_def
  intro: table_invs split: if_splits option.splits prod.splits\<close>)

lemma overlap_table_inv:
  assumes "run_overlap env es st = Some st'" "mux_inv (ov_mux st)"
  shows "mux_inv (ov_mux st')"
proof (rule run_overlap_invariant [where P = "\<lambda>st. mux_inv (ov_mux st)", OF assms])
  fix e :: overlap_event and st st' :: "'a overlap"
  assume "mux_inv (ov_mux st)" "overlap_step env e st = Some st'"
  then show "mux_inv (ov_mux st')" by (cases e) (auto intro: call_step_inv split: if_splits option.splits)
qed

section \<open>Guards\<close>

text \<open>Two calls that hold what only one may hold.\<close>

definition conflict :: "(u32 \<Rightarrow> nat) \<Rightarrow> stage \<Rightarrow> stage \<Rightarrow> bool" where
  "conflict sh g g' \<longleftrightarrow>
     set (write_guards sh g) \<inter> (set (write_guards sh g') \<union> set (read_guards sh g')) \<noteq> {} \<or>
     set (write_guards sh g') \<inter> set (read_guards sh g) \<noteq> {} \<or>
     set (bufs_held g) \<inter> set (bufs_held g') \<noteq> {}"

lemma conflict_sym: "conflict sh g g' = conflict sh g' g"
  by (auto simp: conflict_def)

definition exclusive :: "(u32 \<Rightarrow> nat) \<Rightarrow> stage list \<Rightarrow> bool" where
  "exclusive sh gs \<longleftrightarrow> (\<forall>i < length gs. \<forall>j < length gs. i \<noteq> j \<longrightarrow> \<not> conflict sh (gs ! i) (gs ! j))"

lemma can_simps:
  "can_read sh gs n \<longleftrightarrow> (\<forall>g \<in> set gs. n \<notin> set (write_guards sh g))"
  "can_write sh gs n \<longleftrightarrow> (\<forall>g \<in> set gs. n \<notin> set (write_guards sh g) \<and> n \<notin> set (read_guards sh g))"
  "can_lock gs a \<longleftrightarrow> (\<forall>g \<in> set gs. a \<notin> set (bufs_held g))"
  by (auto simp: can_read_def can_write_def can_lock_def list_all_iff)

text \<open>A step locks only what no other call holds.\<close>

definition may_become :: "(u32 \<Rightarrow> nat) \<Rightarrow> stage list \<Rightarrow> stage \<Rightarrow> stage \<Rightarrow> bool" where
  "may_become sh gs g g' \<longleftrightarrow>
     (\<forall>n \<in> set (write_guards sh g'). n \<in> set (write_guards sh g) \<or> can_write sh gs n) \<and>
     (\<forall>n \<in> set (read_guards sh g'). n \<in> set (read_guards sh g) \<or> can_read sh gs n) \<and>
     (\<forall>a \<in> set (bufs_held g'). a \<in> set (bufs_held g) \<or> can_lock gs a)"

lemma may_become_free [simp]:
  "may_become sh gs g (Called op)" "may_become sh gs g (FindMax what n acc)" "may_become sh gs g (InsertNew sid)"
  "may_become sh gs g (InsertFirst hv sid)" "may_become sh gs g (InsertSecond hv sid)"
  "may_become sh gs g (DropOld k sid)" "may_become sh gs g (WritePty d)" "may_become sh gs g (ExtendShard n d)"
  "may_become sh gs g (ReadShards n [] ds)" "may_become sh gs g (TakeOut k p js es)"
  "may_become sh gs g (MergeNext k p es)" "may_become sh gs g (MergeBack k p)"
  "may_become sh gs g (PeekSize k ses)" "may_become sh gs g (PeekFirst k ses n)"
  "may_become sh gs g (PeekSecond k ses n o1)" "may_become sh gs g (ClearShard n sig)"
  "may_become sh gs g (CollectRefs n [] as d)" "may_become sh gs g (AppendTo as d)"
  "may_become sh gs g (Finished r)" "may_become sh gs g Panicked"
  by (simp_all add: may_become_def)

lemma begin_step_guards:
  "begin_step env gs op m s = Some (g', m', s') \<Longrightarrow> may_become (e_shard env) gs (Called op) g'"
  by (cases op) (auto simp: send_step_ov_def remove_step_def get_step_def begin_merge_def begin_poll_def
      begin_shutdown_def may_become_def split: option.splits if_splits prod.splits result.splits list.splits)

lemma read_shards_guards:
  "read_shards env gs n es ds m = Some g' \<Longrightarrow> may_become (e_shard env) gs (ReadShards n es ds) g'"
  by (cases es) (auto simp: may_become_def split: if_splits list.splits)

lemma insert_halves_guards:
  "insert_first env gs hv id1 m = Some (g', m') \<Longrightarrow> may_become sh gs g g'"
  "insert_second env gs hv id1 m = Some (g', m') \<Longrightarrow> may_become sh gs g g'"
  "take_out env gs k p js es m = Some (g', m') \<Longrightarrow> may_become sh gs g g'"
  "merge_next gs k p es = Some g' \<Longrightarrow> may_become sh gs g g'"
  by (cases hv; cases js; cases es; auto simp: may_become_def split: if_splits option.splits)+

lemma call_step_guards:
  assumes "call_step env gs g m s = Some (g', m', s')"
  shows "may_become (e_shard env) gs g g'"
proof (cases g)
  case (Called op)
  then show ?thesis using begin_step_guards assms by fastforce
next
  case (ReadShards n es ds)
  then show ?thesis using read_shards_guards assms by fastforce
next
  case (MergeNext k p es)
  then show ?thesis using insert_halves_guards(4) assms by fastforce
next
  case (InsertFirst hv sid)
  then show ?thesis using insert_halves_guards(1) assms by fastforce
next
  case (InsertSecond hv sid)
  then show ?thesis using insert_halves_guards(2) assms by fastforce
next
  case (TakeOut k p js es)
  then show ?thesis using insert_halves_guards(3) assms by fastforce
next
  case (WritePty d)
  then show ?thesis using assms by (auto simp: write_pty_def may_become_def split: prod.splits result.splits)
next
  case (CollectRefs n hs as d)
  then show ?thesis using assms by (auto simp: collect_step_def may_become_def Let_def split: if_splits)
next
  case (MergeBack k p)
  then show ?thesis using assms by (auto simp: merge_back_def may_become_def split: if_splits option.splits)
next
  case (WantUpdated k p a)
  then show ?thesis using assms by (auto simp: want_updated_def may_become_def split: if_splits)
qed (use assms in \<open>auto simp: max_step_def insert_step_def drop_old_def peek_size_def peek_first_def peek_second_def
  extend_shard_def read_buffer_def clear_shard_def append_step_def merge_both_def want_primary_def Let_def
  split: if_splits option.splits\<close>)

lemma exclusive_step:
  assumes "exclusive sh gs" "t < length gs" "may_become sh (others t gs) (gs ! t) g"
  shows "exclusive sh (gs[t := g])"
proof -
  have new: "\<not> conflict sh g (gs ! j)" if "j < length gs" "j \<noteq> t" for j
  proof -
    have o: "gs ! j \<in> set (others t gs)" using set_others [OF assms(2)] that by blast
    have old: "\<not> conflict sh (gs ! t) (gs ! j)" using assms(1,2) that by (auto simp: exclusive_def)
    then show ?thesis using assms(3) o unfolding may_become_def can_simps conflict_def by blast
  qed
  then have "\<not> conflict sh (gs ! j) g" if "j < length gs" "j \<noteq> t" for j
    using that conflict_sym by blast
  with new show ?thesis using assms(1) unfolding exclusive_def
    by (metis length_list_update nth_list_update_eq nth_list_update_neq)
qed

lemma exclusive_call:
  assumes "exclusive sh gs"
  shows "exclusive sh (gs @ [Called op])"
proof -
  have "\<not> conflict sh g (Called op) \<and> \<not> conflict sh (Called op) g" for g by (simp add: conflict_def)
  then show ?thesis using assms by (auto simp: exclusive_def nth_append less_Suc_eq)
qed

lemma overlap_exclusive:
  assumes "run_overlap env es st = Some st'" "exclusive (e_shard env) (ov_calls st)"
  shows "exclusive (e_shard env) (ov_calls st')"
proof (rule run_overlap_invariant [where P = "\<lambda>st. exclusive (e_shard env) (ov_calls st)", OF assms])
  fix e and st st' :: "'a overlap"
  assume "exclusive (e_shard env) (ov_calls st)" "overlap_step env e st = Some st'"
  then show "exclusive (e_shard env) (ov_calls st')"
  proof (cases e)
    case (Run t)
    with \<open>overlap_step env e st = Some st'\<close> obtain g m s where "t < length (ov_calls st)"
      "call_step env (others t (ov_calls st)) (ov_calls st ! t) (ov_mux st) (ov_os st) = Some (g, m, s)"
      "st' = \<lparr>ov_mux = m, ov_os = s, ov_calls = (ov_calls st)[t := g]\<rparr>"
      using run_step by blast
    then show ?thesis
      using exclusive_step [OF \<open>exclusive (e_shard env) (ov_calls st)\<close> _ call_step_guards] by simp
  qed (use exclusive_call in auto)
qed

section \<open>No run goes on for ever\<close>

text \<open>Every step of a call makes its stage smaller, whatever the other calls did to the table.\<close>

fun stage_size :: "nat \<Rightarrow> stage \<Rightarrow> nat \<times> nat \<times> nat" where
  "stage_size N (Called op) = (20, 0, 0)"
| "stage_size N (FindMax what n acc) = (10, Suc N - n, 0)"
| "stage_size N (InsertNew sid) = (7, 0, 0)"
| "stage_size N (InsertFirst hv sid) = (9, 0, 0)"
| "stage_size N (InsertSecond hv sid) = (8, 0, 0)"
| "stage_size N (DropOld k sid) = (7, 0, 0)"
| "stage_size N (WritePty d) = (5, 0, 0)"
| "stage_size N (ExtendShard n d) = (10, Suc N - n, 0)"
| "stage_size N (WantRead k a) = (5, 0, 0)"
| "stage_size N (ReadShards n es ds) =
     (if es \<noteq> [] \<and> N < n then 11 else 10, 2 * (Suc N - n) + (if es = [] then 1 else 0), length es)"
| "stage_size N (TakeOut k p js es) = (15, length js, 0)"
| "stage_size N (MergeNext k p es) = (14, 2 * length es, 0)"
| "stage_size N (MergeBoth k p ses es) = (14, 2 * length es + 1, 0)"
| "stage_size N (MergeBack k p) = (10, 0, 0)"
| "stage_size N (WantUpdated k p a) = (9, 0, 0)"
| "stage_size N (WantPrimary k p a) = (8, 0, 0)"
| "stage_size N (PeekSize k ses) = (14, 0, 0)"
| "stage_size N (PeekFirst k ses n) = (13, 0, 0)"
| "stage_size N (PeekSecond k ses n o1) = (12, 0, 0)"
| "stage_size N (ClearShard n sig) = (10, Suc N - n, 0)"
| "stage_size N (CollectRefs n hs as d) = (10, Suc N - n, 0)"
| "stage_size N (AppendTo as d) = (5, 0, length as)"
| "stage_size N (Finished r) = (0, 0, 0)"
| "stage_size N Panicked = (0, 0, 0)"

definition size_order :: "((nat \<times> nat \<times> nat) \<times> (nat \<times> nat \<times> nat)) set" where
  "size_order = less_than <*lex*> less_than <*lex*> less_than"

lemma wf_size_order: "wf size_order"
  by (simp add: size_order_def wf_lex_prod)

lemma size_order_iff:
  "((a, b, c), (a', b', c')) \<in> size_order \<longleftrightarrow> a < a' \<or> a = a' \<and> (b < b' \<or> b = b' \<and> c < c')"
  by (auto simp: size_order_def)

lemma begin_step_smaller:
  "begin_step env gs op m s = Some (g', m', s') \<Longrightarrow>
     (stage_size N g', stage_size N (Called op)) \<in> size_order"
  by (cases op) (auto simp: send_step_ov_def remove_step_def get_step_def begin_merge_def begin_poll_def
      begin_shutdown_def size_order_iff split: option.splits if_splits prod.splits result.splits list.splits)

lemma find_Some_mem: "find P xs = Some x \<Longrightarrow> x \<in> set xs"
  by (induction xs) (auto split: if_splits)

lemma call_step_smaller:
  assumes "call_step env gs g m s = Some (g', m', s')"
  shows "(stage_size (e_shards env) g', stage_size (e_shards env) g) \<in> size_order"
proof (cases g)
  case (Called op)
  then show ?thesis using begin_step_smaller assms by fastforce
next
  case (FindMax what n acc)
  then show ?thesis using assms
    by (auto simp: max_step_def size_order_iff Let_def split: if_splits option.splits)
next
  case (InsertFirst hv sid)
  then show ?thesis using assms by (cases hv) (auto simp: size_order_iff split: if_splits)
next
  case (InsertSecond hv sid)
  then show ?thesis using assms by (cases hv) (auto simp: size_order_iff split: if_splits)
next
  case (ReadShards n es ds)
  then show ?thesis using assms
    by (cases es) (auto simp: size_order_iff Suc_diff_le split: if_splits list.splits)
next
  case (TakeOut k p js es)
  then show ?thesis using assms by (cases js) (auto simp: size_order_iff split: if_splits option.splits)
next
  case (MergeNext k p es)
  then show ?thesis using assms by (cases es) (auto simp: size_order_iff split: if_splits)
next
  case (AppendTo as d)
  then show ?thesis using assms
    by (auto simp: append_step_def size_order_iff length_remove1 split: if_splits option.splits
        dest!: find_Some_mem)
next
  case (WritePty d)
  then show ?thesis using assms by (auto simp: write_pty_def size_order_iff split: prod.splits result.splits)
next
  case (CollectRefs n hs as d)
  then show ?thesis using assms by (auto simp: collect_step_def size_order_iff Let_def split: if_splits)
next
  case (MergeBack k p)
  then show ?thesis using assms by (auto simp: merge_back_def size_order_iff split: if_splits option.splits)
next
  case (ExtendShard n d)
  then show ?thesis using assms by (auto simp: extend_shard_def size_order_iff split: if_splits)
next
  case (ClearShard n d)
  then show ?thesis using assms by (auto simp: clear_shard_def size_order_iff split: if_splits)
qed (use assms in \<open>auto simp: insert_step_def drop_old_def peek_size_def peek_first_def peek_second_def
  read_buffer_def merge_both_def want_updated_def want_primary_def size_order_iff Let_def
  split: if_splits\<close>)

definition sizes :: "'s overlap_env \<Rightarrow> 's overlap \<Rightarrow> (nat \<times> nat \<times> nat) multiset" where
  "sizes env st = mset (map (stage_size (e_shards env)) (ov_calls st))"

lemma overlap_step_smaller:
  assumes "overlap_step env (Run t) st = Some st'"
  shows "(sizes env st', sizes env st) \<in> mult1 size_order"
proof -
  let ?f = "stage_size (e_shards env)"
  from assms obtain g m s where t: "t < length (ov_calls st)"
    and step: "call_step env (others t (ov_calls st)) (ov_calls st ! t) (ov_mux st) (ov_os st) = Some (g, m, s)"
    and st': "st' = \<lparr>ov_mux = m, ov_os = s, ov_calls = (ov_calls st)[t := g]\<rparr>"
    by (rule run_step)
  define M where "M = sizes env st - {#?f (ov_calls st ! t)#}"
  have "?f (ov_calls st ! t) \<in># sizes env st" using t by (simp add: sizes_def)
  then have old: "sizes env st = add_mset (?f (ov_calls st ! t)) M" by (simp add: M_def)
  have new: "sizes env st' = M + {#?f g#}"
    using t by (simp add: sizes_def st' map_update mset_update M_def)
  show ?thesis unfolding mult1_def mem_Collect_eq case_prod_conv old new
    by (intro exI [of _ "?f (ov_calls st ! t)"] exI [of _ M] exI [of _ "{#?f g#}"])
      (use call_step_smaller [OF step] in auto)
qed

lemma no_infinite_run: "\<not> (\<exists>f. \<forall>i. \<exists>t. overlap_step env (Run t) (f i) = Some (f (Suc i)))"
proof
  assume "\<exists>f. \<forall>i. \<exists>t. overlap_step env (Run t) (f i) = Some (f (Suc i))"
  then obtain f where "\<forall>i. \<exists>t. overlap_step env (Run t) (f i) = Some (f (Suc i))" ..
  then have "\<forall>i. (sizes env (f (Suc i)), sizes env (f i)) \<in> mult1 size_order"
    using overlap_step_smaller by blast
  then have "\<exists>h. \<forall>i. (h (Suc i), h i) \<in> mult1 size_order" by (intro exI [of _ "\<lambda>i. sizes env (f i)"])
  then show False using wf_mult1 [OF wf_size_order] unfolding wf_iff_no_infinite_down_chain by (rule notE [rotated])
qed

section \<open>Calls other than merges never wait for each other for ever\<close>

fun merging :: "stage \<Rightarrow> bool" where
  "merging (Called (OMerge ids)) = True"
| "merging (TakeOut k p js es) = True"
| "merging (MergeNext k p es) = True"
| "merging (MergeBoth k p ses es) = True"
| "merging (MergeBack k p) = True"
| "merging (WantUpdated k p a) = True"
| "merging (WantPrimary k p a) = True"
| "merging g = False"

fun settled :: "stage \<Rightarrow> bool" where
  "settled (Finished r) = True"
| "settled Panicked = True"
| "settled g = False"

lemma merging_free: "\<not> merging g \<Longrightarrow> write_guards sh g = [] \<and> bufs_held g = []"
  by (cases g) auto

lemma begin_step_mergeless:
  "begin_step env gs op m s = Some (g', m', s') \<Longrightarrow> \<not> merging (Called op) \<Longrightarrow> \<not> merging g'"
  by (cases op) (auto simp: send_step_ov_def remove_step_def get_step_def begin_poll_def begin_shutdown_def
      split: option.splits if_splits prod.splits result.splits)

lemma call_step_mergeless:
  assumes "call_step env gs g m s = Some (g', m', s')" "\<not> merging g"
  shows "\<not> merging g'"
proof (cases g)
  case (Called op)
  then show ?thesis using begin_step_mergeless assms by fastforce
next
  case (InsertFirst hv sid)
  then show ?thesis using assms by (cases hv) (auto split: if_splits)
next
  case (InsertSecond hv sid)
  then show ?thesis using assms by (cases hv) (auto split: if_splits)
next
  case (ReadShards n es ds)
  then show ?thesis using assms by (cases es) (auto split: if_splits list.splits)
qed (use assms in \<open>auto simp: max_step_def insert_step_def drop_old_def peek_size_def peek_first_def peek_second_def
  extend_shard_def read_buffer_def clear_shard_def append_step_def collect_step_def write_pty_def Let_def
  split: if_splits option.splits prod.splits result.splits\<close>)

lemma can_read_mergeless: "\<forall>g \<in> set gs. \<not> merging g \<Longrightarrow> can_read sh gs n"
  by (simp add: can_simps merging_free)

lemma can_lock_mergeless: "\<forall>g \<in> set gs. \<not> merging g \<Longrightarrow> can_lock gs a"
  by (simp add: can_simps merging_free)

lemma can_write_mergeless:
  "\<forall>g \<in> set gs. \<not> merging g \<and> read_guards sh g = [] \<Longrightarrow> can_write sh gs n"
  by (simp add: can_simps merging_free)

text \<open>A call that holds a guard for reading can go on; when none does, every call can.\<close>

lemma reader_enabled:
  assumes "read_guards (e_shard env) g \<noteq> []" "\<forall>g \<in> set gs. \<not> merging g"
  shows "call_step env gs g m s \<noteq> None"
proof -
  note free = can_read_mergeless [OF assms(2)] can_lock_mergeless [OF assms(2)]
  show ?thesis
  proof (cases g)
    case (ReadShards n es ds)
    then show ?thesis using assms(1) free by (cases es) (auto split: if_splits)
  qed (use assms(1) free in \<open>auto simp: read_buffer_def collect_step_def Let_def\<close>)
qed

lemma call_enabled:
  assumes "\<not> settled g" "\<not> merging g" "\<forall>g \<in> set gs. \<not> merging g \<and> read_guards (e_shard env) g = []"
  shows "call_step env gs g m s \<noteq> None"
proof -
  have free: "can_read (e_shard env) gs n" "can_lock gs a" "can_write (e_shard env) gs n" for n a
    using assms(3) can_read_mergeless can_lock_mergeless can_write_mergeless by blast+
  show ?thesis
  proof (cases g)
    case (Called op)
    then show ?thesis using assms(2) free
      by (cases op) (auto simp: send_step_ov_def get_step_def remove_step_def split: prod.splits)
  next
    case (InsertFirst hv sid)
    then show ?thesis using free by (cases hv) simp
  next
    case (InsertSecond hv sid)
    then show ?thesis using free by (cases hv) simp
  next
    case (ReadShards n es ds)
    then show ?thesis using free by (cases es) (auto split: list.splits)
  next
    case (AppendTo as d)
    then show ?thesis using free by (cases as) (auto simp: append_step_def)
  qed (use assms(1,2) free in \<open>auto simp: max_step_def insert_step_def drop_old_def peek_size_def peek_first_def
    peek_second_def extend_shard_def read_buffer_def clear_shard_def collect_step_def Let_def split: prod.splits\<close>)
qed

lemma others_subset: "g \<in> set (others t gs) \<Longrightarrow> g \<in> set gs"
  by (auto simp: others_def dest: in_set_takeD in_set_dropD)

lemma no_deadlock:
  assumes "\<forall>g \<in> set (ov_calls st). \<not> merging g" "\<exists>g \<in> set (ov_calls st). \<not> settled g"
  shows "\<exists>t. overlap_step env (Run t) st \<noteq> None"
proof -
  have o: "\<forall>g \<in> set (others t (ov_calls st)). \<not> merging g" for t
    using assms(1) by (auto dest: others_subset)
  have "\<exists>t < length (ov_calls st).
      call_step env (others t (ov_calls st)) (ov_calls st ! t) (ov_mux st) (ov_os st) \<noteq> None"
  proof (cases "\<exists>g \<in> set (ov_calls st). read_guards (e_shard env) g \<noteq> []")
    case True
    then obtain t where "t < length (ov_calls st)" "read_guards (e_shard env) (ov_calls st ! t) \<noteq> []"
      by (metis in_set_conv_nth)
    then show ?thesis using reader_enabled [OF _ o [of t]] by (intro exI [of _ t]) simp
  next
    case False
    obtain t where t: "t < length (ov_calls st)" "\<not> settled (ov_calls st ! t)"
      using assms(2) by (metis in_set_conv_nth)
    have "\<forall>g \<in> set (others t (ov_calls st)). \<not> merging g \<and> read_guards (e_shard env) g = []"
      using False o [of t] by (auto dest: others_subset)
    moreover have "\<not> merging (ov_calls st ! t)" using assms(1) t(1) by simp
    ultimately show ?thesis using call_enabled [OF t(2)] t(1) by (intro exI [of _ t]) simp
  qed
  then show ?thesis by (auto split: option.splits)
qed

lemma run_mergeless:
  assumes "run_overlap env es st = Some st'" "\<forall>g \<in> set (ov_calls st). \<not> merging g"
    and "\<forall>ids. Call (OMerge ids) \<notin> set es"
  shows "\<forall>g \<in> set (ov_calls st'). \<not> merging g"
proof (rule run_overlap_invariant [where P = "\<lambda>st. \<forall>g \<in> set (ov_calls st). \<not> merging g", OF assms(1,2)])
  fix e and st st' :: "'a overlap"
  assume e: "e \<in> set es" and m: "\<forall>g \<in> set (ov_calls st). \<not> merging g" and step: "overlap_step env e st = Some st'"
  show "\<forall>g \<in> set (ov_calls st'). \<not> merging g"
  proof (cases e)
    case (Call op)
    then have "\<not> merging (Called op)" using e assms(3) by (cases op) auto
    then show ?thesis using Call step m by auto
  next
    case (Run t)
    with step obtain g mx s where "t < length (ov_calls st)"
      "call_step env (others t (ov_calls st)) (ov_calls st ! t) (ov_mux st) (ov_os st) = Some (g, mx, s)"
      "st' = \<lparr>ov_mux = mx, ov_os = s, ov_calls = (ov_calls st)[t := g]\<rparr>"
      using run_step by blast
    then show ?thesis using m call_step_mergeless set_update_subset_insert by fastforce
  qed
qed

end
