(* ===== verification/Overlap_Solo.thy ===== *)
theory Overlap_Solo
  imports Overlap_Laws
begin

text \<open>
  Calls that no other call delays: the scans over the shards, and the agreement of the steps of a call
  with the operation of \<open>Multiplexer\<close> that does all of it at once.
\<close>

section \<open>Runs of one call\<close>

text \<open>The other calls hold nothing.\<close>

definition quiet :: "(u32 \<Rightarrow> nat) \<Rightarrow> stage list \<Rightarrow> bool" where
  "quiet sh gs \<longleftrightarrow> (\<forall>g \<in> set gs. write_guards sh g = [] \<and> read_guards sh g = [] \<and> bufs_held g = [])"

lemma quiet_can [simp]:
  assumes "quiet sh gs"
  shows "can_read sh gs n" "can_write sh gs n" "can_lock gs a"
  using assms by (simp_all add: quiet_def can_simps)

lemma quiet_Nil [simp]: "quiet sh []"
  by (simp add: quiet_def)

inductive solo :: "'s overlap_env \<Rightarrow> stage list \<Rightarrow> stage \<Rightarrow> mux \<Rightarrow> 's \<Rightarrow> stage \<times> mux \<times> 's \<Rightarrow> bool" for env gs where
  solo_end: "solo env gs g m s (g, m, s)"
| solo_step: "call_step env gs g m s = Some (g1, m1, s1) \<Longrightarrow> solo env gs g1 m1 s1 c \<Longrightarrow> solo env gs g m s c"

lemma solo_trans:
  "solo env gs g m s c \<Longrightarrow> c = (g1, m1, s1) \<Longrightarrow> solo env gs g1 m1 s1 c' \<Longrightarrow> solo env gs g m s c'"
  by (induction rule: solo.induct) (auto intro: solo_step)

lemma solo_one: "call_step env gs g m s = Some c \<Longrightarrow> solo env gs g m s c"
  by (cases c) (auto intro: solo_step solo_end)

lemma others_update: "others t (gs[t := g]) = others t gs"
  by (simp add: others_def)

lemma solo_run:
  assumes "solo env gs g m s c" "c = (g', m', s')" "t < length cs" "others t cs = gs" "cs ! t = g"
  shows "\<exists>n. run_overlap env (replicate n (Run t)) \<lparr>ov_mux = m, ov_os = s, ov_calls = cs\<rparr> =
           Some \<lparr>ov_mux = m', ov_os = s', ov_calls = cs[t := g']\<rparr>"
  using assms
proof (induction arbitrary: cs rule: solo.induct)
  case (solo_end g m s)
  then show ?case by (intro exI [of _ 0]) auto
next
  case (solo_step g m s g1 m1 s1 c)
  from solo_step.IH [OF solo_step.prems(1), of "cs[t := g1]"] solo_step.prems(2,3)
  obtain n where n: "run_overlap env (replicate n (Run t)) \<lparr>ov_mux = m1, ov_os = s1, ov_calls = cs[t := g1]\<rparr> =
      Some \<lparr>ov_mux = m', ov_os = s', ov_calls = cs[t := g']\<rparr>"
    by (auto simp: others_update)
  show ?case
    by (rule exI [of _ "Suc n"]) (use solo_step.hyps(1) solo_step.prems n in auto)
qed

section \<open>Scans of the table\<close>

text \<open>The shards hold all keys, and iteration goes through them in order.\<close>

definition shards_in_order :: "'s overlap_env \<Rightarrow> bool" where
  "shards_in_order env \<longleftrightarrow> (\<forall>k. e_shard env k < e_shards env) \<and>
     (\<forall>k k'. e_hash env k \<le> e_hash env k' \<longrightarrow> e_shard env k \<le> e_shard env k')"

lemma filter_below_Suc:
  fixes f :: "'a \<Rightarrow> nat"
  assumes "sorted (map f xs)"
  shows "filter (\<lambda>x. f x < Suc n) xs = filter (\<lambda>x. f x < n) xs @ filter (\<lambda>x. f x = n) xs"
  using assms
proof (induction xs)
  case (Cons x xs)
  have "filter (\<lambda>x. f x < n) xs = []" if "n \<le> f x"
    using that Cons.prems by (auto simp: filter_empty_conv)
  moreover have "filter (\<lambda>x. f x = n) xs = []" if "n < f x"
    using that Cons.prems by (auto simp: filter_empty_conv)
  ultimately show ?case using Cons by (auto simp: less_Suc_eq not_less)
qed simp

lemma concat_filters:
  fixes f :: "'a \<Rightarrow> nat"
  assumes "sorted (map f xs)"
  shows "concat (map (\<lambda>n. filter (\<lambda>x. f x = n) xs) [0..<N]) = filter (\<lambda>x. f x < N) xs"
  by (induction N) (simp_all add: filter_below_Suc [OF assms])

definition from_shard :: "'s overlap_env \<Rightarrow> nat \<Rightarrow> mux \<Rightarrow> (u32 \<times> pty_session) list" where
  "from_shard env n m = concat (map (\<lambda>i. in_shard env i m) [n..<e_shards env])"

lemma from_shard_end [simp]: "\<not> n < e_shards env \<Longrightarrow> from_shard env n m = []"
  by (simp add: from_shard_def)

lemma from_shard_next: "n < e_shards env \<Longrightarrow> from_shard env n m = in_shard env n m @ from_shard env (Suc n) m"
  by (simp add: from_shard_def upt_conv_Cons)

lemma from_shard_0:
  assumes "shards_in_order env"
  shows "from_shard env 0 m = entries_in (e_hash env) (sessions m)"
proof -
  let ?es = "entries_in (e_hash env) (sessions m)"
  have "sorted (map (e_hash env) (map fst ?es))" by (simp only: map_fst_entries_in) (simp add: keys_in_def)
  then have "sorted_wrt (\<lambda>e e'. e_hash env (fst e) \<le> e_hash env (fst e')) ?es"
    by (simp only: sorted_map sorted_wrt_map)
  then have "sorted_wrt (\<lambda>e e'. e_shard env (fst e) \<le> e_shard env (fst e')) ?es"
    by (rule sorted_wrt_mono_rel [rotated]) (use assms in \<open>auto simp: shards_in_order_def\<close>)
  then have "sorted (map (\<lambda>e. e_shard env (fst e)) ?es)" by (simp add: sorted_map)
  from concat_filters [OF this, of "e_shards env"] show ?thesis
    using assms by (simp add: from_shard_def in_shard_def shards_in_order_def)
qed

text \<open>One step for every shard left.\<close>

lemma scan_shards:
  assumes "n \<le> N"
    and "\<And>n. n < N \<Longrightarrow> call_step env gs (G n) (M n) s = Some (G (Suc n), M (Suc n), s)"
  shows "solo env gs (G n) (M n) s (G N, M N, s)"
  using assms(1) by (induction rule: inc_induct) (auto intro: solo_end solo_step assms(2))

abbreviation find_max :: "(u32 \<times> pty_session) list \<Rightarrow> u32 option \<Rightarrow> u32 option" where
  "find_max \<equiv> fold (\<lambda>e b. case b of None \<Rightarrow> Some (fst e) | Some k \<Rightarrow> Some (max k (fst e)))"

lemma find_max_Some: "find_max es (Some k) = Some (fold max (map fst es) k)"
  by (induction es arbitrary: k) (auto simp: max.commute)

lemma find_max_None: "find_max (entries_in h (sessions m)) None = max_key h m"
proof (cases "entries_in h (sessions m)")
  case Nil
  then have ks: "keys_in h (sessions m) = []" by (metis list.map_disc_iff map_fst_entries_in)
  show ?thesis unfolding Nil max_key_def ks by simp
next
  case (Cons e es)
  then have "keys_in h (sessions m) = fst e # map fst es" by (metis list.simps(9) map_fst_entries_in)
  then show ?thesis using Cons by (simp add: max_key_def find_max_Some)
qed

definition after_max :: "halves option \<Rightarrow> u32 \<Rightarrow> stage" where
  "after_max what sid = (case what of None \<Rightarrow> InsertNew sid | Some hv \<Rightarrow> InsertFirst hv sid)"

lemma solo_find_max:
  assumes "\<And>n. can_read (e_shard env) gs n" "shards_in_order env"
  shows "solo env gs (FindMax what 0 None) m s (after_max what (next_id (e_hash env) m), m, s)"
proof -
  let ?G = "\<lambda>n. FindMax what n (find_max (concat (map (\<lambda>i. in_shard env i m) [0..<n])) None)"
  have "call_step env gs (?G n) m s = Some (?G (Suc n), m, s)" if "n < e_shards env" for n
    using that assms(1) by (simp add: max_step_def)
  from scan_shards [of 0 "e_shards env" env gs ?G "\<lambda>n. m", OF _ this]
  have "solo env gs (?G 0) m s (?G (e_shards env), m, s)" by simp
  moreover have "concat (map (\<lambda>i. in_shard env i m) [0..<e_shards env]) = entries_in (e_hash env) (sessions m)"
    using from_shard_0 [OF assms(2), of m] by (simp add: from_shard_def)
  ultimately have "solo env gs (FindMax what 0 None) m s (FindMax what (e_shards env) (max_key (e_hash env) m), m, s)"
    by (simp add: find_max_None)
  then show ?thesis
    by (rule solo_trans [OF _ refl]) (auto intro!: solo_one
        simp: max_step_def next_id_def Let_def after_max_def split: option.splits)
qed

lemma fmmap_keys_const: "fmmap_keys (\<lambda>k. f) m = fmmap f m"
  by (rule fmap_ext) simp

lemma solo_extend:
  assumes "\<And>n. can_write (e_shard env) gs n" "shards_in_order env"
  shows "solo env gs (ExtendShard 0 d) m s (WritePty d,
    m\<lparr>sessions := fmmap (\<lambda>ses. ses\<lparr>input_buffer := input_buffer ses @ d\<rparr>) (sessions m)\<rparr>, s)"
proof -
  let ?M = "\<lambda>n. m\<lparr>sessions := fmmap_keys (\<lambda>k ses. if e_shard env k < n
      then ses\<lparr>input_buffer := input_buffer ses @ d\<rparr> else ses) (sessions m)\<rparr>"
  have more: "fmmap_keys (\<lambda>k ses. if e_shard env k = n then ses\<lparr>input_buffer := input_buffer ses @ d\<rparr> else ses)
      (sessions (?M n)) = sessions (?M (Suc n))" for n
    by (rule fmap_ext) (auto simp: option.map_comp intro!: option.map_cong)
  have "call_step env gs (ExtendShard n d) (?M n) s = Some (ExtendShard (Suc n) d, ?M (Suc n), s)"
    if "n < e_shards env" for n
    using that assms(1) more [of n] by (simp add: extend_shard_def)
  from scan_shards [of 0 "e_shards env" env gs "\<lambda>n. ExtendShard n d" ?M, OF _ this]
  have "solo env gs (ExtendShard 0 d) (?M 0) s (ExtendShard (e_shards env) d, ?M (e_shards env), s)" by simp
  moreover have "?M 0 = m"
    by (cases m) (auto intro!: fmap_ext simp: option.map_ident)
  moreover have "?M (e_shards env) =
      m\<lparr>sessions := fmmap (\<lambda>ses. ses\<lparr>input_buffer := input_buffer ses @ d\<rparr>) (sessions m)\<rparr>"
    using assms(2) by (simp add: shards_in_order_def fmmap_keys_const)
  ultimately have "solo env gs (ExtendShard 0 d) m s (ExtendShard (e_shards env) d,
      m\<lparr>sessions := fmmap (\<lambda>ses. ses\<lparr>input_buffer := input_buffer ses @ d\<rparr>) (sessions m)\<rparr>, s)" by simp
  then show ?thesis by (rule solo_trans [OF _ refl]) (auto intro!: solo_one simp: extend_shard_def)
qed

lemma solo_clear:
  assumes "\<And>n. can_write (e_shard env) gs n" "shards_in_order env"
  shows "solo env gs (ClearShard 0 sig) m s (Finished AUnit,
    (if sig then m\<lparr>sessions := fmempty, shutdown_sent := True\<rparr> else m\<lparr>sessions := fmempty\<rparr>), s)"
proof -
  let ?M = "\<lambda>n. m\<lparr>sessions := fmfilter (\<lambda>k. n \<le> e_shard env k) (sessions m)\<rparr>"
  have more: "fmfilter (\<lambda>k. e_shard env k \<noteq> n) (sessions (?M n)) = sessions (?M (Suc n))" for n
    by (rule fmap_ext) auto
  have "call_step env gs (ClearShard n sig) (?M n) s = Some (ClearShard (Suc n) sig, ?M (Suc n), s)"
    if "n < e_shards env" for n
    using that assms(1) more [of n] by (simp add: clear_shard_def)
  from scan_shards [of 0 "e_shards env" env gs "\<lambda>n. ClearShard n sig" ?M, OF _ this]
  have "solo env gs (ClearShard 0 sig) (?M 0) s (ClearShard (e_shards env) sig, ?M (e_shards env), s)" by simp
  moreover have "?M 0 = m" by simp
  moreover have "?M (e_shards env) = m\<lparr>sessions := fmempty\<rparr>"
    using assms(2) by (auto intro!: fmap_ext simp: shards_in_order_def not_le)
  ultimately have "solo env gs (ClearShard 0 sig) m s (ClearShard (e_shards env) sig, m\<lparr>sessions := fmempty\<rparr>, s)"
    by simp
  then show ?thesis by (rule solo_trans [OF _ refl]) (auto intro!: solo_one simp: clear_shard_def)
qed

lemma solo_read_entries:
  assumes "\<And>n. can_lock gs n"
  shows "es \<noteq> [] \<Longrightarrow> solo env gs (ReadShards n es ds) m s
    (ReadShards (Suc n) [] (ds @ map (\<lambda>(k, a). \<lparr>sd_session_id = k, sd_data = bufs m ! a\<rparr>) es), m, s)"
proof (induction es arbitrary: ds)
  case (Cons e es)
  obtain k a where e: "e = (k, a)" by fastforce
  show ?case
  proof (cases "es = []")
    case True
    then show ?thesis using assms by (auto intro!: solo_one simp: e)
  next
    case False
    let ?ds = "ds @ [\<lparr>sd_session_id = k, sd_data = bufs m ! a\<rparr>]"
    have "call_step env gs (ReadShards n (e # es) ds) m s = Some (ReadShards n es ?ds, m, s)"
      using False assms by (simp add: e)
    from solo_step [OF this Cons.IH [OF False]] show ?thesis by (simp add: e)
  qed
qed simp

definition session_datas :: "(u32 \<times> pty_session) list \<Rightarrow> mux \<Rightarrow> session_data list" where
  "session_datas es m = map (\<lambda>(k, ses). \<lparr>sd_session_id = k, sd_data = bufs m ! output_buffer ses\<rparr>) es"

lemma solo_read_shard:
  assumes "\<And>n. can_lock gs n" "\<And>n. can_read (e_shard env) gs n" "n < e_shards env"
  shows "solo env gs (ReadShards n [] ds) m s (ReadShards (Suc n) [] (ds @ session_datas (in_shard env n m) m), m, s)"
proof (cases "in_shard env n m = []")
  case True
  then show ?thesis using assms by (auto intro!: solo_one simp: session_datas_def)
next
  case False
  let ?es = "map (\<lambda>e. (fst e, output_buffer (snd e))) (in_shard env n m)"
  have "call_step env gs (ReadShards n [] ds) m s = Some (ReadShards n ?es ds, m, s)"
    using assms False by (simp split: list.splits)
  from solo_step [OF this solo_read_entries [OF assms(1)]] False show ?thesis
    by (simp add: session_datas_def comp_def split_def)
qed

lemma solo_read_all:
  assumes "\<And>n. can_lock gs n" "\<And>n. can_read (e_shard env) gs n" "n \<le> e_shards env"
  shows "solo env gs (ReadShards n [] ds) m s (Finished (AAll (ds @ session_datas (from_shard env n m) m)), m, s)"
  using assms(3)
proof (induction arbitrary: ds rule: inc_induct)
  case base
  show ?case by (auto intro!: solo_one simp: session_datas_def)
next
  case (step n)
  from solo_trans [OF solo_read_shard [OF assms(1,2) step.hyps(2)] refl step.IH] show ?case
    using step.hyps(2) by (simp add: from_shard_next session_datas_def)
qed

definition append_all :: "bytes \<Rightarrow> nat list \<Rightarrow> mux \<Rightarrow> mux" where
  "append_all d as m = fold (\<lambda>a m. set_buf a (bufs m ! a @ d) m) as m"

lemma solo_append:
  assumes "\<And>n. can_lock gs n"
  shows "solo env gs (AppendTo as d) m s (Finished AUnit, append_all d as m, s)"
proof (induction as arbitrary: m)
  case Nil
  show ?case by (auto intro!: solo_one simp: append_step_def append_all_def)
next
  case (Cons a as)
  have "call_step env gs (AppendTo (a # as) d) m s = Some (AppendTo as d, set_buf a (bufs m ! a @ d) m, s)"
    using assms by (simp add: append_step_def)
  from solo_step [OF this Cons.IH] show ?case by (simp add: append_all_def)
qed

lemma solo_collect:
  assumes "\<And>n. can_read (e_shard env) gs n" "n \<le> e_shards env"
  shows "\<exists>hs. solo env gs (CollectRefs n held as d) m s
    (CollectRefs (e_shards env) hs (as @ map (\<lambda>e. output_buffer (snd e)) (from_shard env n m)) d, m, s)"
  using assms(2)
proof (induction arbitrary: held as rule: inc_induct)
  case base
  show ?case by (auto intro: solo_end)
next
  case (step n)
  let ?held = "if in_shard env n m = [] then held else held @ [n]"
  let ?as = "as @ map (\<lambda>e. output_buffer (snd e)) (in_shard env n m)"
  have "call_step env gs (CollectRefs n held as d) m s = Some (CollectRefs (Suc n) ?held ?as d, m, s)"
    using step.hyps(2) assms(1) by (simp add: collect_step_def)
  moreover from step.IH [of ?held ?as] obtain hs where
    "solo env gs (CollectRefs (Suc n) ?held ?as d) m s
      (CollectRefs (e_shards env) hs (?as @ map (\<lambda>e. output_buffer (snd e)) (from_shard env (Suc n) m)) d, m, s)"
    by blast
  ultimately show ?case using step.hyps(2)
    by (auto intro!: exI [of _ hs] intro: solo_step simp: from_shard_next)
qed

lemma solo_dispatch:
  assumes "quiet (e_shard env) gs" "shards_in_order env"
  shows "solo env gs (CollectRefs 0 [] [] d) m s
    (Finished AUnit, append_all d (map (\<lambda>e. output_buffer (snd e)) (entries_in (e_hash env) (sessions m))) m, s)"
proof -
  let ?as = "map (\<lambda>e. output_buffer (snd e)) (entries_in (e_hash env) (sessions m))"
  obtain hs where c: "solo env gs (CollectRefs 0 [] [] d) m s (CollectRefs (e_shards env) hs ?as d, m, s)"
    using solo_collect [of env gs 0 "[]" "[]" d m s] assms by (auto simp: from_shard_0)
  have "call_step env gs (CollectRefs (e_shards env) hs ?as d) m s = Some (AppendTo ?as d, m, s)"
    by (simp add: collect_step_def)
  from solo_trans [OF c refl solo_step [OF this solo_append]] assms(1) show ?thesis by simp
qed

lemma dispatch_entries_append:
  assumes "locked m = []"
  shows "dispatch_entries d es m = (Returns (), append_all d (map (\<lambda>e. output_buffer (snd e)) es) m)"
  using assms by (induction es arbitrary: m) (auto simp: append_all_def)

section \<open>A call at once\<close>

text \<open>The answer and the effect of a call by the operations of \<open>Multiplexer\<close>; no answer when it hangs.\<close>

fun answer_of :: "('a \<Rightarrow> answer) \<Rightarrow> ('a, napi_error) result \<Rightarrow> answer" where
  "answer_of f (Ok x) = f x"
| "answer_of f (Err e) = AErr e"

fun flow_answer :: "('a \<Rightarrow> answer) \<Rightarrow> ('a, napi_error) result flow \<Rightarrow> answer option" where
  "flow_answer f (Returns r) = Some (answer_of f r)"
| "flow_answer f _ = None"

definition no_value :: "unit \<Rightarrow> answer" where
  "no_value = (\<lambda>_. AUnit)"

fun whole_call :: "'s overlap_env \<Rightarrow> mux_op \<Rightarrow> mux \<Rightarrow> 's \<Rightarrow> answer option \<times> mux \<times> 's" where
  "whole_call env OCreate m s =
     (case create_session (e_hash env) m of (r, m') \<Rightarrow> (Some (answer_of AId r), m', s))"
| "whole_call env (OSend k d) m s =
     (case send_to_session (e_disp env) (e_iface env) k d m s of (r, m', s') \<Rightarrow> (Some (answer_of no_value r), m', s'))"
| "whole_call env (OBroadcast d) m s =
     (case broadcast (e_disp env) (e_iface env) d m s of (r, m', s') \<Rightarrow> (Some (answer_of no_value r), m', s'))"
| "whole_call env (ORead k) m s = (case read_from_session k m of (f, m') \<Rightarrow> (flow_answer AData f, m', s))"
| "whole_call env OReadAll m s =
     (case read_all_sessions (e_hash env) m of (f, m') \<Rightarrow> (flow_answer AAll f, m', s))"
| "whole_call env (ORemove k) m s = (case remove_session k m of (r, m') \<Rightarrow> (Some (answer_of no_value r), m', s))"
| "whole_call env (OMerge ks) m s = (case merge_sessions ks m of (f, m') \<Rightarrow> (flow_answer no_value f, m', s))"
| "whole_call env (OSplit k) m s =
     (case split_session (e_hash env) k m of (f, m') \<Rightarrow> (flow_answer (\<lambda>(a, b). AIds a b) f, m', s))"
| "whole_call env OCloseAll m s = (case close_all_sessions m of (r, m') \<Rightarrow> (Some (answer_of no_value r), m', s))"
| "whole_call env OPoll m s =
     (case read_and_dispatch (e_hash env) (e_disp env) (e_iface env) m s of (f, m', s') \<Rightarrow> (flow_answer no_value f, m', s'))"
| "whole_call env OShutdown m s =
     (case mux_shutdown_pty (e_disp env) (e_iface env) m s of (r, m', s') \<Rightarrow> (Some (answer_of no_value r), m', s'))"
| "whole_call env OForce m s =
     (case force_shutdown_pty (e_disp env) (e_iface env) m s of (r, m', s') \<Rightarrow> (Some (answer_of no_value r), m', s'))"

text \<open>Where a call returns when it is made at once, its steps take it to the same answer and effect.\<close>

lemma solo_write:
  assumes "if_write_data (e_iface env) d s = (r, s1)"
  shows "solo env gs (WritePty d) m s
    (Finished (answer_of no_value (map_err (convert_io_error (e_disp env)) (map_ok (\<lambda>_. ()) r))), m, s1)"
  using assms by (cases r) (auto intro!: solo_one simp: write_pty_def no_value_def)

lemma solo_create:
  assumes "quiet (e_shard env) gs" "shards_in_order env"
  shows "solo env gs (Called OCreate) m s (case whole_call env OCreate m s of (r, c) \<Rightarrow> (Finished (the r), c))"
proof -
  let ?sid = "next_id (e_hash env) m"
  have "call_step env gs (InsertNew ?sid) m s =
      Some (Finished (AId ?sid), snd (create_session (e_hash env) m), s)"
    using assms(1) by (simp add: insert_step_def file_session_def create_session_eq alloc_def)
  from solo_one [OF this] have i: "solo env gs (InsertNew ?sid) m s
      (Finished (AId ?sid), snd (create_session (e_hash env) m), s)" .
  have "solo env gs (FindMax None 0 None) m s (InsertNew ?sid, m, s)"
    using solo_find_max [OF quiet_can(1) [OF assms(1)] assms(2), of None m s] by (simp add: after_max_def)
  from solo_trans [OF this refl i] have f: "solo env gs (FindMax None 0 None) m s
      (Finished (AId ?sid), snd (create_session (e_hash env) m), s)" .
  have "call_step env gs (Called OCreate) m s = Some (FindMax None 0 None, m, s)" by simp
  from solo_step [OF this f] show ?thesis by (simp add: create_session_eq)
qed

lemma solo_send:
  assumes "quiet (e_shard env) gs"
  shows "solo env gs (Called (OSend k d)) m s (case whole_call env (OSend k d) m s of (r, c) \<Rightarrow> (Finished (the r), c))"
proof (cases "fmlookup (sessions m) k")
  case None
  then show ?thesis using assms by (auto intro!: solo_one simp: send_step_ov_def send_to_session_def)
next
  case (Some ses)
  obtain r s1 where w: "if_write_data (e_iface env) d s = (r, s1)" by fastforce
  have "call_step env gs (Called (OSend k d)) m s =
      Some (WritePty d, insert_session k (ses\<lparr>input_buffer := input_buffer ses @ d\<rparr>) m, s)"
    using assms Some by (simp add: send_step_ov_def)
  from solo_step [OF this solo_write [OF w]] show ?thesis by (simp add: send_to_session_def Some w Let_def)
qed

lemma solo_broadcast:
  assumes "quiet (e_shard env) gs" "shards_in_order env"
  shows "solo env gs (Called (OBroadcast d)) m s (case whole_call env (OBroadcast d) m s of (r, c) \<Rightarrow> (Finished (the r), c))"
proof -
  obtain r s1 where w: "if_write_data (e_iface env) d s = (r, s1)" by fastforce
  note e = solo_extend [OF quiet_can(2) [OF assms(1)] assms(2), of d m s]
  have "call_step env gs (Called (OBroadcast d)) m s = Some (ExtendShard 0 d, m, s)" by simp
  from solo_step [OF this solo_trans [OF e refl solo_write [OF w]]] show ?thesis
    by (simp add: broadcast_def w Let_def)
qed

lemma solo_read:
  assumes "quiet (e_shard env) gs" "mux_inv m"
  shows "solo env gs (Called (ORead k)) m s (case whole_call env (ORead k) m s of (r, c) \<Rightarrow> (Finished (the r), c))"
proof (cases "fmlookup (sessions m) k")
  case None
  then show ?thesis using assms by (auto intro!: solo_one simp: get_step_def read_from_session_def)
next
  case (Some ses)
  have get: "call_step env gs (Called (ORead k)) m s = Some (WantRead k (output_buffer ses), m, s)"
    using assms(1) Some by (simp add: get_step_def)
  have take: "call_step env gs (WantRead k (output_buffer ses)) m s =
      Some (Finished (AData (bufs m ! output_buffer ses)), set_buf (output_buffer ses) [] m, s)"
    using assms(1) by (simp add: read_buffer_def)
  from solo_step [OF get solo_one [OF take]] mux_invD(4) [OF assms(2)] show ?thesis
    by (simp add: read_from_session_def Some Let_def)
qed

lemma solo_close:
  assumes "quiet (e_shard env) gs" "shards_in_order env"
  shows "solo env gs (Called OCloseAll) m s (case whole_call env OCloseAll m s of (r, c) \<Rightarrow> (Finished (the r), c))"
  using solo_step [OF _ solo_clear [OF quiet_can(2) [OF assms(1)] assms(2), of False m s], of "Called OCloseAll"]
  by (simp add: close_all_sessions_def no_value_def)

lemma solo_all:
  assumes "quiet (e_shard env) gs" "shards_in_order env" "mux_inv m"
  shows "solo env gs (Called OReadAll) m s (case whole_call env OReadAll m s of (r, c) \<Rightarrow> (Finished (the r), c))"
proof -
  have "call_step env gs (Called OReadAll) m s = Some (ReadShards 0 [] [], m, s)" by simp
  from solo_step [OF this solo_read_all] assms(1) have "solo env gs (Called OReadAll) m s
      (Finished (AAll (session_datas (entries_in (e_hash env) (sessions m)) m)), m, s)"
    by (simp add: from_shard_0 [OF assms(2)])
  then show ?thesis
    by (simp add: read_all_sessions_def read_entries_free [OF mux_invD(4) [OF assms(3)]] session_datas_def)
qed

lemma solo_remove:
  assumes "quiet (e_shard env) gs"
  shows "solo env gs (Called (ORemove k)) m s (case whole_call env (ORemove k) m s of (r, c) \<Rightarrow> (Finished (the r), c))"
  using assms by (intro solo_one) (simp add: remove_step_def remove_session_def no_value_def split: option.split)

lemma solo_poll:
  assumes "quiet (e_shard env) gs" "shards_in_order env" "mux_inv m"
  shows "solo env gs (Called OPoll) m s (case whole_call env OPoll m s of (r, c) \<Rightarrow> (Finished (the r), c))"
proof -
  obtain r s1 where rd: "if_read_data (e_iface env) 4096 s = (r, s1)" by fastforce
  show ?thesis
  proof (cases "\<exists>d. r = Ok d \<and> d \<noteq> []")
    case True
    then obtain d where d: "r = Ok d" "d \<noteq> []" by blast
    have "call_step env gs (Called OPoll) m s = Some (CollectRefs 0 [] [] d, m, s1)"
      by (simp add: begin_poll_def rd d)
    from solo_step [OF this solo_dispatch [OF assms(1,2)]] show ?thesis
      by (simp add: read_and_dispatch_def rd d dispatch_output_def
          dispatch_entries_append [OF mux_invD(4) [OF assms(3)]] no_value_def)
  next
    case False
    then show ?thesis
      by (intro solo_one) (auto simp: begin_poll_def read_and_dispatch_def rd no_value_def split: result.splits)
  qed
qed

lemma solo_shutdown:
  assumes "quiet (e_shard env) gs" "shards_in_order env" "call_step env gs g m s = (case begin_shutdown env sig s of (g1, s1) \<Rightarrow> Some (g1, m, s1))"
  shows "solo env gs g m s (case shutdown_with sig (e_disp env) (e_iface env) m s of (r, m1, s1) \<Rightarrow>
    (Finished (answer_of no_value r), m1, s1))"
proof -
  obtain r s1 where k: "if_kill_process (e_iface env) sig s = (r, s1)" by fastforce
  obtain r' s2 where w: "if_waitpid (e_iface env) WNOHANG s1 = (r', s2)" by fastforce
  show ?thesis
  proof (cases "(\<exists>u. r = Ok u) \<and> (\<exists>u. r' = Ok u)")
    case True
    then have "call_step env gs g m s = Some (ClearShard 0 True, m, s2)"
      using assms(3) k w by (auto simp: begin_shutdown_def)
    from solo_step [OF this solo_clear [OF quiet_can(2) [OF assms(1)] assms(2)]] True k w show ?thesis
      by (auto simp: shutdown_with_def close_all_sessions_def no_value_def)
  next
    case False
    then show ?thesis using assms(3) k w
      by (intro solo_one) (auto simp: begin_shutdown_def shutdown_with_def split: result.splits)
  qed
qed

text \<open>A split copies the two halves first and files them later, whatever the table has become.\<close>

definition halves_of :: "u32 \<Rightarrow> bytes \<Rightarrow> bytes \<Rightarrow> halves" where
  "halves_of k i out = Halves k (take (length i div 2) i) (drop (length i div 2) i)
     (take (length out div 2) out) (drop (length out div 2) out)"

lemma split_copies:
  assumes "quiet (e_shard env) gs" "fmlookup (sessions m) k = Some ses"
  shows "solo env gs (Called (OSplit k)) m s
    (FindMax (Some (halves_of k (input_buffer ses) (bufs m ! output_buffer ses))) 0 None, m, s)"
proof -
  let ?h = "length (bufs m ! output_buffer ses) div 2"
  have a: "call_step env gs (Called (OSplit k)) m s = Some (PeekSize k ses, m, s)"
    using assms by simp
  have b: "call_step env gs (PeekSize k ses) m s = Some (PeekFirst k ses ?h, m, s)"
    using assms(1) by (simp add: peek_size_def)
  have c: "call_step env gs (PeekFirst k ses ?h) m s =
      Some (PeekSecond k ses ?h (take ?h (bufs m ! output_buffer ses)), m, s)"
    using assms(1) by (simp add: peek_first_def Let_def)
  have d: "call_step env gs (PeekSecond k ses ?h (take ?h (bufs m ! output_buffer ses))) m s =
      Some (FindMax (Some (halves_of k (input_buffer ses) (bufs m ! output_buffer ses))) 0 None, m, s)"
    using assms(1) by (simp add: peek_second_def halves_of_def Let_def)
  show ?thesis by (rule solo_step [OF a solo_step [OF b solo_step [OF c solo_one [OF d]]]])
qed

lemma split_files:
  assumes "quiet (e_shard env) gs" "shards_in_order env" "id1 = next_id (e_hash env) m"
  shows "solo env gs (FindMax (Some (Halves k i1 i2 o1 o2)) 0 None) m s (Finished (AIds id1 (id1 + 1)),
    drop_session k (file_session (id1 + 1) i2 o2 (file_session id1 i1 o1 m)), s)"
proof -
  let ?hv = "Halves k i1 i2 o1 o2"
  let ?m1 = "file_session id1 i1 o1 m"
  let ?m2 = "file_session (id1 + 1) i2 o2 ?m1"
  have e: "solo env gs (FindMax (Some ?hv) 0 None) m s (InsertFirst ?hv id1, m, s)"
    using solo_find_max [OF quiet_can(1) [OF assms(1)] assms(2), of "Some ?hv" m s]
    by (simp add: after_max_def assms(3))
  have f: "call_step env gs (InsertFirst ?hv id1) m s = Some (InsertSecond ?hv id1, ?m1, s)"
    and g: "call_step env gs (InsertSecond ?hv id1) ?m1 s = Some (DropOld k id1, ?m2, s)"
    and i: "call_step env gs (DropOld k id1) ?m2 s = Some (Finished (AIds id1 (id1 + 1)), drop_session k ?m2, s)"
    using assms(1) by (simp_all add: drop_old_def)
  show ?thesis by (rule solo_trans [OF e refl solo_step [OF f solo_step [OF g solo_one [OF i]]]])
qed

lemma solo_split:
  assumes "quiet (e_shard env) gs" "shards_in_order env" "mux_inv m"
  shows "solo env gs (Called (OSplit k)) m s (case whole_call env (OSplit k) m s of (r, c) \<Rightarrow> (Finished (the r), c))"
proof (cases "fmlookup (sessions m) k")
  case None
  then show ?thesis using assms(1) by (auto intro!: solo_one simp: split_session_def)
next
  case (Some ses)
  from solo_trans [OF split_copies [OF assms(1) Some] refl] split_files [OF assms(1,2) refl]
  show ?thesis using Some mux_invD(4) [OF assms(3)]
    by (simp add: split_session_def peek_buf_def Let_def file_session_def next_id_def halves_of_def split_def)
qed

text \<open>All together; a merge only returns without ids or without the first session.\<close>

lemma solo_whole_call:
  assumes "quiet (e_shard env) gs" "shards_in_order env" "mux_inv m" "whole_call env op m s = (Some r, m', s')"
  shows "solo env gs (Called op) m s (Finished r, m', s')"
proof (cases op)
  case (OMerge ids)
  show ?thesis
  proof (cases ids)
    case Nil
    then show ?thesis using assms(4) OMerge
      by (auto intro!: solo_one simp: begin_merge_def merge_sessions_def)
  next
    case (Cons k js)
    then show ?thesis
    proof (cases "fmlookup (sessions m) k")
      case None
      then show ?thesis using assms(1,4) OMerge Cons
        by (auto intro!: solo_one simp: begin_merge_def merge_sessions_def)
    next
      case (Some primary)
      from merge_sessions_hangs [OF assms(3) Some, of js] assms(4) OMerge Cons show ?thesis
        by (auto split: prod.splits)
    qed
  qed
next
  case OShutdown
  then show ?thesis using solo_shutdown [OF assms(1,2), of "Called OShutdown" m s SIGTERM] assms(4)
    by (auto simp: mux_shutdown_pty_def split: prod.splits)
next
  case OForce
  then show ?thesis using solo_shutdown [OF assms(1,2), of "Called OForce" m s SIGKILL] assms(4)
    by (auto simp: force_shutdown_pty_def split: prod.splits)
next
  case (OSend k d)
  then show ?thesis using solo_send [OF assms(1), of k d m s] assms(4) by (simp only: prod.case option.sel)
next
  case (OBroadcast d)
  then show ?thesis using solo_broadcast [OF assms(1,2), of d m s] assms(4) by (simp only: prod.case option.sel)
next
  case (ORead k)
  then show ?thesis using solo_read [OF assms(1,3), of k s] assms(4) by (simp only: prod.case option.sel)
next
  case (ORemove k)
  then show ?thesis using solo_remove [OF assms(1), of k m s] assms(4) by (simp only: prod.case option.sel)
next
  case (OSplit k)
  then show ?thesis using solo_split [OF assms(1,2,3), of k s] assms(4) by (simp only: prod.case option.sel)
qed (use assms(4) solo_create [OF assms(1,2), of m s] solo_all [OF assms(1,2,3), of s]
  solo_close [OF assms(1,2), of m s] solo_poll [OF assms(1,2,3), of s]
  in \<open>simp_all only: prod.case option.sel\<close>)

end
