(* ===== verification/Overlap_Blocked.thy ===== *)
theory Overlap_Blocked
  imports Overlap_Solo
begin

text \<open>
  A merge that hangs: how it comes to its last lock, which it never gets, and what becomes of the calls that
  need the shard it leaves locked for writing.
\<close>

section \<open>Calls that need a shard\<close>

text \<open>
  The calls that cannot answer while a given shard is locked for writing: those that start with the shard
  or go through the whole table.
\<close>

fun needs_shard :: "'s overlap_env \<Rightarrow> nat \<Rightarrow> mux_op \<Rightarrow> bool" where
  "needs_shard env n (OSend k d) = (e_shard env k = n)"
| "needs_shard env n (ORead k) = (e_shard env k = n)"
| "needs_shard env n (ORemove k) = (e_shard env k = n)"
| "needs_shard env n (OSplit k) = (e_shard env k = n)"
| "needs_shard env n (OMerge ks) = (ks \<noteq> [] \<and> e_shard env (hd ks) = n)"
| "needs_shard env n OPoll = False"
| "needs_shard env n OShutdown = False"
| "needs_shard env n OForce = False"
| "needs_shard env n _ = True"

fun before_shard :: "'s overlap_env \<Rightarrow> nat \<Rightarrow> stage \<Rightarrow> bool" where
  "before_shard env n (Called op) = needs_shard env n op"
| "before_shard env n (FindMax what i acc) = (i \<le> n)"
| "before_shard env n (ExtendShard i d) = (i \<le> n)"
| "before_shard env n (ReadShards i es ds) = (i < n \<or> i = n \<and> es = [])"
| "before_shard env n (ClearShard i sig) = (i \<le> n)"
| "before_shard env n _ = False"

text \<open>
  Those that can report an error or panic before they come to the shard, but cannot succeed: splits, whose
  search for an id goes through the table, merges with an id in the shard, and shutdowns.
\<close>

fun ends_in_shard :: "'s overlap_env \<Rightarrow> nat \<Rightarrow> mux_op \<Rightarrow> bool" where
  "ends_in_shard env n (OSplit k) = True"
| "ends_in_shard env n (OMerge ks) = list_ex (\<lambda>k. e_shard env k = n) ks"
| "ends_in_shard env n OShutdown = True"
| "ends_in_shard env n OForce = True"
| "ends_in_shard env n _ = False"

fun unsuccessful :: "'s overlap_env \<Rightarrow> nat \<Rightarrow> stage \<Rightarrow> bool" where
  "unsuccessful env n (Called op) = ends_in_shard env n op"
| "unsuccessful env n (PeekSize k ses) = True"
| "unsuccessful env n (PeekFirst k ses h) = True"
| "unsuccessful env n (PeekSecond k ses h o1) = True"
| "unsuccessful env n (FindMax what i acc) = (i \<le> n)"
| "unsuccessful env n (TakeOut k p js es) = list_ex (\<lambda>j. e_shard env j = n) js"
| "unsuccessful env n (ClearShard i sig) = (i \<le> n)"
| "unsuccessful env n (Finished (AErr e)) = True"
| "unsuccessful env n Panicked = True"
| "unsuccessful env n _ = False"

fun succeeded :: "stage \<Rightarrow> bool" where
  "succeeded (Finished (AErr e)) = False"
| "succeeded (Finished r) = True"
| "succeeded g = False"

text \<open>And a poll, which ends when there is nothing to read, but cannot deliver what it has read.\<close>

fun undelivered :: "nat \<Rightarrow> stage \<Rightarrow> bool" where
  "undelivered n (Called op) = (op = OPoll)"
| "undelivered n (CollectRefs i hs as d) = (i \<le> n)"
| "undelivered n (Finished r) = True"
| "undelivered n _ = False"

section \<open>While the shard is locked\<close>

text \<open>A condition on a call that its steps keep while another call has the shard locked for writing.\<close>

definition kept_out :: "'s overlap_env \<Rightarrow> nat \<Rightarrow> (stage \<Rightarrow> bool) \<Rightarrow> bool" where
  "kept_out env n Q \<longleftrightarrow> (\<forall>gs g m s g' m' s'. \<not> can_read (e_shard env) gs n \<longrightarrow>
     \<not> can_write (e_shard env) gs n \<longrightarrow> call_step env gs g m s = Some (g', m', s') \<longrightarrow> Q g \<longrightarrow> Q g')"

lemma kept_outI:
  "(\<And>gs g m s g' m' s'. \<not> can_read (e_shard env) gs n \<Longrightarrow> \<not> can_write (e_shard env) gs n \<Longrightarrow>
     call_step env gs g m s = Some (g', m', s') \<Longrightarrow> Q g \<Longrightarrow> Q g') \<Longrightarrow> kept_out env n Q"
  unfolding kept_out_def by blast

lemma before_shard_kept:
  assumes "n < e_shards env"
  shows "kept_out env n (before_shard env n)"
proof (rule kept_outI)
  fix gs g m s g' m' s'
  assume locked: "\<not> can_read (e_shard env) gs n" "\<not> can_write (e_shard env) gs n"
    and step: "call_step env gs g m s = Some (g', m', s')" "before_shard env n g"
  show "before_shard env n g'"
  proof (cases g)
    case (Called op)
    with step locked show ?thesis
      by (cases op) (auto simp: send_step_ov_def get_step_def remove_step_def begin_merge_def
          split: if_splits list.splits)
  next
    case (ReadShards i es ds)
    with assms step locked show ?thesis
      by (cases es) (auto simp: le_less Suc_le_eq split: if_splits list.splits)
  qed (use assms step locked in \<open>auto simp: max_step_def extend_shard_def clear_shard_def le_less Suc_le_eq
      split: if_splits\<close>)
qed

lemma unsuccessful_kept:
  assumes "n < e_shards env"
  shows "kept_out env n (unsuccessful env n)"
proof (rule kept_outI)
  fix gs g m s g' m' s'
  assume locked: "\<not> can_read (e_shard env) gs n" "\<not> can_write (e_shard env) gs n"
    and step: "call_step env gs g m s = Some (g', m', s')" "unsuccessful env n g"
  show "unsuccessful env n g'"
  proof (cases g)
    case (Called op)
    with step locked show ?thesis
      by (cases op) (auto simp: begin_merge_def begin_shutdown_def split: if_splits list.splits option.splits
          prod.splits result.splits)
  next
    case (TakeOut k p js es)
    with step locked show ?thesis by (cases js) (auto split: if_splits option.splits)
  qed (use assms step locked in \<open>auto simp: max_step_def clear_shard_def peek_size_def peek_first_def
      peek_second_def Let_def le_less Suc_le_eq split: if_splits\<close>)
qed

lemma undelivered_kept:
  assumes "n < e_shards env"
  shows "kept_out env n (undelivered n)"
proof (rule kept_outI)
  fix gs g m s g' m' s'
  assume "\<not> can_read (e_shard env) gs n" "call_step env gs g m s = Some (g', m', s')" "undelivered n g"
  with assms show "undelivered n g'"
    by (cases g) (auto simp: begin_poll_def collect_step_def Let_def le_less Suc_le_eq
        split: if_splits prod.splits result.splits)
qed

definition calls_in :: "overlap_event list \<Rightarrow> nat" where
  "calls_in es = length (filter (\<lambda>e. case e of Call _ \<Rightarrow> True | Run _ \<Rightarrow> False) es)"

lemma run_length:
  "run_overlap env es st = Some st' \<Longrightarrow> length (ov_calls st') = length (ov_calls st) + calls_in es"
proof (induction es arbitrary: st)
  case (Cons e es)
  then obtain st1 where st1: "overlap_step env e st = Some st1" "run_overlap env es st1 = Some st'"
    by (auto split: option.splits)
  have "length (ov_calls st1) = length (ov_calls st) + calls_in [e]"
    using st1(1) by (cases e) (auto simp: calls_in_def split: if_splits option.splits)
  with Cons.IH [OF st1(2)] show ?case by (cases e) (simp_all add: calls_in_def)
qed (simp add: calls_in_def)

text \<open>The merge keeps its locks, and what waits for the shard keeps waiting.\<close>

abbreviation stuck_at :: "nat \<Rightarrow> u32 \<Rightarrow> pty_session \<Rightarrow> 's overlap \<Rightarrow> bool" where
  "stuck_at i k p st \<equiv> i < length (ov_calls st) \<and> ov_calls st ! i = WantPrimary k p (output_buffer p)"

lemma merge_stays_step:
  assumes "overlap_step env e st = Some st'" "stuck_at i k p st"
  shows "stuck_at i k p st'"
proof (cases e)
  case (Run t)
  with assms(1) obtain g m s where t: "t < length (ov_calls st)"
    and step: "call_step env (others t (ov_calls st)) (ov_calls st ! t) (ov_mux st) (ov_os st) = Some (g, m, s)"
    and st': "st' = \<lparr>ov_mux = m, ov_os = s, ov_calls = (ov_calls st)[t := g]\<rparr>"
    using run_step by blast
  have "t \<noteq> i"
  proof
    assume "t = i"
    with step assms(2) show False by (simp add: want_primary_def)
  qed
  then show ?thesis using assms(2) by (simp add: st')
qed (use assms in \<open>auto simp: nth_append\<close>)

lemma blocked_step:
  assumes "kept_out env (e_shard env k) Q" "overlap_step env e st = Some st'" "stuck_at i k p st"
    and "i \<noteq> j" "j < length (ov_calls st)" "Q (ov_calls st ! j)"
  shows "j < length (ov_calls st') \<and> Q (ov_calls st' ! j)"
proof (cases e)
  case (Call op)
  then show ?thesis using assms by (auto simp: nth_append)
next
  case (Run t)
  with assms(2) obtain g m s where t: "t < length (ov_calls st)"
    and step: "call_step env (others t (ov_calls st)) (ov_calls st ! t) (ov_mux st) (ov_os st) = Some (g, m, s)"
    and st': "st' = \<lparr>ov_mux = m, ov_os = s, ov_calls = (ov_calls st)[t := g]\<rparr>"
    using run_step by blast
  have "Q g" if "t = j"
  proof -
    have "ov_calls st ! i \<in> set (others t (ov_calls st))"
      unfolding set_others [OF t] using assms(3,4) that by blast
    then have w: "WantPrimary k p (output_buffer p) \<in> set (others t (ov_calls st))" using assms(3) by simp
    have "\<not> can_read (e_shard env) (others t (ov_calls st)) (e_shard env k)"
      "\<not> can_write (e_shard env) (others t (ov_calls st)) (e_shard env k)"
      by (auto simp: can_simps intro!: bexI [OF _ w])
    then show ?thesis using assms(1,6) step that unfolding kept_out_def by blast
  qed
  then show ?thesis using assms(5,6) by (cases "t = j") (auto simp: st')
qed

lemma merge_stays_run:
  assumes "run_overlap env es st = Some st'" "stuck_at i k p st"
  shows "stuck_at i k p st'"
  by (rule run_overlap_invariant [where P = "stuck_at i k p", OF assms]) (rule merge_stays_step)

lemma blocked_run:
  assumes "kept_out env (e_shard env k) Q" "run_overlap env es st = Some st'" "stuck_at i k p st"
    and "i \<noteq> j" "j < length (ov_calls st)" "Q (ov_calls st ! j)"
  shows "Q (ov_calls st' ! j)"
proof -
  let ?P = "\<lambda>st. stuck_at i k p st \<and> j < length (ov_calls st) \<and> Q (ov_calls st ! j)"
  have "?P st'"
    by (rule run_overlap_invariant [where P = ?P, OF assms(2)])
      (use assms(3,5,6) in blast, use merge_stays_step blocked_step [OF assms(1) _ _ assms(4)] in blast)
  then show ?thesis by blast
qed

lemma before_shard_settled: "before_shard env n g \<Longrightarrow> \<not> settled g"
  by (cases g) auto

lemma unsuccessful_succeeded: "unsuccessful env n g \<Longrightarrow> \<not> succeeded g"
  by (cases g rule: succeeded.cases) auto

lemma later_call:
  assumes "stuck_at i k p st" "length (ov_calls st) = Suc i" "run_overlap env (fs @ Call op # fs') st = Some st'"
  shows "stuck_at i k p st'"
    and "kept_out env (e_shard env k) Q \<Longrightarrow> Q (Called op) \<Longrightarrow> Q (ov_calls st' ! (Suc i + calls_in fs))"
proof -
  from assms(3) obtain st1 where st1: "run_overlap env fs st = Some st1"
    and rest: "run_overlap env fs' (st1\<lparr>ov_calls := ov_calls st1 @ [Called op]\<rparr>) = Some st'"
    unfolding run_overlap_append by (cases "run_overlap env fs st") auto
  let ?st2 = "st1\<lparr>ov_calls := ov_calls st1 @ [Called op]\<rparr>" and ?j = "Suc i + calls_in fs"
  have stuck: "stuck_at i k p ?st2" using merge_stays_run [OF st1 assms(1)] by (simp add: nth_append)
  show "stuck_at i k p st'" by (rule merge_stays_run [OF rest stuck])
  have len: "length (ov_calls st1) = ?j" using run_length [OF st1] assms(2) by simp
  assume Q: "kept_out env (e_shard env k) Q" "Q (Called op)"
  show "Q (ov_calls st' ! ?j)"
    by (rule blocked_run [OF Q(1) rest stuck]) (use len Q(2) in \<open>auto simp: nth_append\<close>)
qed

section \<open>How a merge gets there\<close>

text \<open>A merge that nothing delays gets to its last lock, unless it names its first session again.\<close>

lemma solo_take_out:
  assumes "quiet (e_shard env) gs"
  shows "mux_inv m \<Longrightarrow> fmlookup (sessions m) k = Some p \<Longrightarrow> k \<notin> set js \<Longrightarrow>
    (\<forall>ses \<in> set es. output_buffer ses \<noteq> output_buffer p) \<Longrightarrow>
    \<exists>m' es'. solo env gs (TakeOut k p js es) m s (MergeNext k p es', m', s) \<and>
      fmlookup (sessions m') k = Some p \<and> (\<forall>ses \<in> set es'. output_buffer ses \<noteq> output_buffer p)"
proof (induction js arbitrary: m es)
  case Nil
  have "call_step env gs (TakeOut k p [] es) m s = Some (MergeNext k p es, m, s)" by simp
  from solo_one [OF this] Nil.prems(2,4) show ?case by blast
next
  case (Cons j js)
  have j: "k \<noteq> j" "k \<notin> set js" using Cons.prems(3) by auto
  show ?case
  proof (cases "fmlookup (sessions m) j")
    case None
    then have "call_step env gs (TakeOut k p (j # js) es) m s = Some (TakeOut k p js es, m, s)" using assms by simp
    from solo_step [OF this] Cons.IH [OF Cons.prems(1,2) j(2) Cons.prems(4)] show ?thesis by blast
  next
    case (Some ses)
    then have step: "call_step env gs (TakeOut k p (j # js) es) m s =
        Some (TakeOut k p js (es @ [ses]), drop_session j m, s)" using assms by simp
    have "output_buffer ses \<noteq> output_buffer p"
      using mux_invD(3) [OF Cons.prems(1) Some Cons.prems(2)] j(1) by auto
    then have "\<forall>ses \<in> set (es @ [ses]). output_buffer ses \<noteq> output_buffer p" using Cons.prems(4) by auto
    from Cons.IH [OF mux_inv_drop [OF Cons.prems(1), where k = j] _ j(2) this] Cons.prems(2) j(1)
    obtain m' es' where "solo env gs (TakeOut k p js (es @ [ses])) (drop_session j m) s (MergeNext k p es', m', s)"
      "fmlookup (sessions m') k = Some p" "\<forall>ses \<in> set es'. output_buffer ses \<noteq> output_buffer p" by auto
    with solo_step [OF step] show ?thesis by blast
  qed
qed

lemma solo_merge_loop:
  assumes "quiet (e_shard env) gs"
  shows "fmlookup (sessions m) k = Some p \<Longrightarrow> (\<forall>ses \<in> set es. output_buffer ses \<noteq> output_buffer p) \<Longrightarrow>
    \<exists>m'. solo env gs (MergeNext k p es) m s (MergeBack k p, m', s) \<and> fmlookup (sessions m') k = Some p"
proof (induction es arbitrary: m)
  case Nil
  have "call_step env gs (MergeNext k p []) m s = Some (MergeBack k p, m, s)" by simp
  from solo_one [OF this] Nil.prems(1) show ?case by blast
next
  case (Cons ses es)
  let ?m = "set_buf (output_buffer p) (bufs m ! output_buffer p @ bufs m ! output_buffer ses) m"
  have a: "call_step env gs (MergeNext k p (ses # es)) m s = Some (MergeBoth k p ses es, m, s)"
    using assms by simp
  have b: "call_step env gs (MergeBoth k p ses es) m s = Some (MergeNext k p es, ?m, s)"
    using assms Cons.prems(2) by (simp add: merge_both_def)
  from Cons.IH [of ?m] Cons.prems obtain m' where "solo env gs (MergeNext k p es) ?m s (MergeBack k p, m', s)"
    "fmlookup (sessions m') k = Some p" by auto
  with solo_step [OF a solo_step [OF b]] show ?case by blast
qed

lemma solo_merge_stuck:
  assumes "quiet (e_shard env) gs" "mux_inv m" "fmlookup (sessions m) k = Some p" "k \<notin> set js"
  shows "\<exists>m'. solo env gs (Called (OMerge (k # js))) m s (WantPrimary k p (output_buffer p), m', s)"
proof -
  obtain m1 es where one: "solo env gs (TakeOut k p js []) m s (MergeNext k p es, m1, s)"
    "fmlookup (sessions m1) k = Some p" "\<forall>ses \<in> set es. output_buffer ses \<noteq> output_buffer p"
    using solo_take_out [OF assms, of "[]" s] by auto
  obtain m2 where two: "solo env gs (MergeNext k p es) m1 s (MergeBack k p, m2, s)"
    "fmlookup (sessions m2) k = Some p"
    using solo_merge_loop [OF assms(1) one(2,3)] by blast
  let ?m3 = "insert_session k (p\<lparr>input_buffer := input_buffer p\<rparr>) m2"
  have a: "call_step env gs (Called (OMerge (k # js))) m s = Some (TakeOut k p js [], m, s)"
    using assms(1,3) by (simp add: begin_merge_def)
  have b: "call_step env gs (MergeBack k p) m2 s = Some (WantUpdated k p (output_buffer p), ?m3, s)"
    using assms(1) two(2) by (simp add: merge_back_def)
  have c: "call_step env gs (WantUpdated k p (output_buffer p)) ?m3 s =
      Some (WantPrimary k p (output_buffer p), ?m3, s)"
    using assms(1) by (simp add: want_updated_def)
  from solo_step [OF a solo_trans [OF one(1) refl solo_trans [OF two(1) refl solo_step [OF b solo_one [OF c]]]]]
  show ?thesis by blast
qed

end
