(* ===== verification/Overlap_Properties.thy ===== *)
theory Overlap_Properties
  imports Overlap_Blocked Session_Properties
begin

text \<open>
  The properties of overlapping calls of the multiplexer, with their applications to a multiplexer of
  two sessions in two shards.
\<close>

definition demo_env :: "kern overlap_env" where
  "demo_env = \<lparr>e_shard = (\<lambda>k. unat k mod 2), e_shards = 2, e_hash = (\<lambda>k. unat k mod 2),
     e_disp = show_io demo_sys, e_iface = process_iface demo_sys demo_proc\<rparr>"

lemma demo_env_shards: "shards_in_order demo_env"
  by (simp add: shards_in_order_def demo_env_def)

lemma demo_env_read: "if_read_data (e_iface demo_env) 4096 demo_kern = (Ok [104, 105], demo_kern\<lparr>kin := []\<rparr>)"
  by (simp add: demo_env_def process_iface_def read_data_def demo_proc_def demo_sys_def demo_kern_def Let_def)

section \<open>Every run\<close>

text \<open>C5: overlapping calls exclude each other: whatever calls are made and however their steps interleave,
  the session table stays well formed, a shard locked for writing by one call is not locked by another, and no
  two calls hold the same buffer.\<close>

theorem overlap_safe:
  assumes "run_overlap env es (overlap_start m s) = Some st" "mux_inv m"
  shows "mux_inv (ov_mux st) \<and>
    (\<forall>i < length (ov_calls st). \<forall>j < length (ov_calls st). i \<noteq> j \<longrightarrow>
       (let g = ov_calls st ! i; g' = ov_calls st ! j
        in set (write_guards (e_shard env) g) \<inter>
             (set (write_guards (e_shard env) g') \<union> set (read_guards (e_shard env) g')) = {} \<and>
           set (bufs_held g) \<inter> set (bufs_held g') = {}))"
proof
  show "mux_inv (ov_mux st)" using overlap_table_inv [OF assms(1)] assms(2) by (simp add: overlap_start_def)
  have "exclusive (e_shard env) (ov_calls st)"
    using overlap_exclusive [OF assms(1)] by (simp add: overlap_start_def exclusive_def)
  then show "\<forall>i < length (ov_calls st). \<forall>j < length (ov_calls st). i \<noteq> j \<longrightarrow>
       (let g = ov_calls st ! i; g' = ov_calls st ! j
        in set (write_guards (e_shard env) g) \<inter>
             (set (write_guards (e_shard env) g') \<union> set (read_guards (e_shard env) g')) = {} \<and>
           set (bufs_held g) \<inter> set (bufs_held g') = {})"
    by (auto simp: exclusive_def conflict_def Let_def)
qed

theorem overlap_safe_witness:
  "mux_inv (ov_mux (the (run_overlap demo_env [Call (ORemove 1), Run 0] (overlap_start two_sessions demo_kern))))"
proof -
  have "run_overlap demo_env [Call (ORemove 1), Run 0] (overlap_start two_sessions demo_kern) \<noteq> None"
    by (auto simp: overlap_start_def others_def remove_step_def can_simps split: option.splits)
  then obtain st where st: "run_overlap demo_env [Call (ORemove 1), Run 0] (overlap_start two_sessions demo_kern) = Some st"
    by blast
  from overlap_safe [OF st two_sessions_inv] st show ?thesis by simp
qed

text \<open>C6: overlapping calls come to an end: no run goes on for ever once no more calls are made, and when
  nothing can go on any more, all calls have an answer or have panicked, unless one of them is a merge.\<close>

theorem overlapping_calls_complete:
  "\<not> (\<exists>f. \<forall>i. \<exists>t. overlap_step env (Run t) (f i) = Some (f (Suc i))) \<and>
   (run_overlap env es (overlap_start m s) = Some st \<longrightarrow> (\<forall>ids. Call (OMerge ids) \<notin> set es) \<longrightarrow>
    (\<forall>t. overlap_step env (Run t) st = None) \<longrightarrow> (\<forall>g \<in> set (ov_calls st). settled g))"
proof (intro conjI impI)
  show "\<not> (\<exists>f. \<forall>i. \<exists>t. overlap_step env (Run t) (f i) = Some (f (Suc i)))" by (rule no_infinite_run)
  assume "run_overlap env es (overlap_start m s) = Some st" "\<forall>ids. Call (OMerge ids) \<notin> set es"
  then have "\<forall>g \<in> set (ov_calls st). \<not> merging g"
    using run_mergeless [of env es "overlap_start m s" st] by (simp add: overlap_start_def)
  moreover assume "\<forall>t. overlap_step env (Run t) st = None"
  ultimately show "\<forall>g \<in> set (ov_calls st). settled g" using no_deadlock [of st env] by metis
qed

theorem overlapping_calls_complete_witness:
  "list_all settled
     (ov_calls (the (run_overlap demo_env [Call (ORemove 1), Run 0] (overlap_start two_sessions demo_kern))))"
proof -
  let ?st = "\<lparr>ov_mux = drop_session 1 two_sessions, ov_os = demo_kern, ov_calls = [Finished AUnit]\<rparr>"
  have run: "run_overlap demo_env [Call (ORemove 1), Run 0] (overlap_start two_sessions demo_kern) = Some ?st"
    by (simp add: overlap_start_def others_def remove_step_def can_simps two_sessions_lookup)
  have no_merge: "\<forall>ids. Call (OMerge ids) \<notin> set [Call (ORemove 1), Run 0]" by simp
  have stopped: "\<forall>t. overlap_step demo_env (Run t) ?st = None" by (simp add: nth_Cons split: nat.splits)
  from overlapping_calls_complete [of demo_env "[Call (ORemove 1), Run 0]" two_sessions demo_kern ?st]
  show ?thesis using run no_merge stopped by (simp only: option.sel list_all_iff) blast
qed

section \<open>A call that is not delayed\<close>

text \<open>C4: a call whose steps are not interleaved with others, while no other call holds a lock, has the
  answer and the effect of the operation that does everything at once, on the table and on the process.\<close>

theorem call_alone_agrees:
  assumes "mux_inv m" "shards_in_order env" "whole_call env op m s = (Some r, m', s')"
    and "\<forall>g \<in> set gs. write_guards (e_shard env) g = [] \<and> read_guards (e_shard env) g = [] \<and> bufs_held g = []"
  shows "\<exists>n. run_overlap env (Call op # replicate n (Run (length gs))) \<lparr>ov_mux = m, ov_os = s, ov_calls = gs\<rparr> =
    Some \<lparr>ov_mux = m', ov_os = s', ov_calls = gs @ [Finished r]\<rparr>"
proof -
  have q: "quiet (e_shard env) gs" using assms(4) by (simp add: quiet_def)
  from solo_run [OF solo_whole_call [OF q assms(2,1,3)] refl, of "length gs" "gs @ [Called op]"]
  show ?thesis by (simp add: others_def list_update_append)
qed

theorem call_alone_agrees_witness:
  "\<exists>n. run_overlap demo_env (Call (ORead 1) # replicate n (Run 0)) (overlap_start two_sessions demo_kern) =
    Some \<lparr>ov_mux = snd (read_from_session 1 two_sessions), ov_os = demo_kern, ov_calls = [Finished (AData [1, 2, 3])]\<rparr>"
proof -
  have "whole_call demo_env (ORead 1) two_sessions demo_kern =
      (Some (AData [1, 2, 3]), snd (read_from_session 1 two_sessions), demo_kern)"
    by (simp add: read_from_session_def two_sessions_lookup Let_def two_sessions_def)
  from call_alone_agrees [OF two_sessions_inv demo_env_shards this, of "[]"] show ?thesis
    by (simp add: overlap_start_def)
qed

section \<open>Two calls\<close>

text \<open>The steps of one call among others.\<close>

lemma run_then:
  assumes "solo env gs g m s (g', m', s')" "t < length cs" "others t cs = gs" "cs ! t = g"
    and "\<exists>es. run_overlap env es \<lparr>ov_mux = m', ov_os = s', ov_calls = cs[t := g']\<rparr> = Some st"
  shows "\<exists>es. run_overlap env es \<lparr>ov_mux = m, ov_os = s, ov_calls = cs\<rparr> = Some st"
proof -
  obtain n where "run_overlap env (replicate n (Run t)) \<lparr>ov_mux = m, ov_os = s, ov_calls = cs\<rparr> =
      Some \<lparr>ov_mux = m', ov_os = s', ov_calls = cs[t := g']\<rparr>"
    using solo_run [OF assms(1) refl assms(2,3,4)] by blast
  moreover obtain es where "run_overlap env es \<lparr>ov_mux = m', ov_os = s', ov_calls = cs[t := g']\<rparr> = Some st"
    using assms(5) by blast
  ultimately show ?thesis by (intro exI [of _ "replicate n (Run t) @ es"]) (simp add: run_overlap_append)
qed

lemma calls_then:
  assumes "\<exists>es. run_overlap env es \<lparr>ov_mux = m, ov_os = s, ov_calls = map Called ops\<rparr> = Some st"
  shows "\<exists>es. run_overlap env es (overlap_start m s) = Some st"
proof -
  have "run_overlap env (map Call ops) \<lparr>ov_mux = m, ov_os = s, ov_calls = cs\<rparr> =
      Some \<lparr>ov_mux = m, ov_os = s, ov_calls = cs @ map Called ops\<rparr>" for cs
    by (induction ops arbitrary: cs) auto
  from this [of "[]"] have c: "run_overlap env (map Call ops) (overlap_start m s) =
      Some \<lparr>ov_mux = m, ov_os = s, ov_calls = map Called ops\<rparr>" by (simp add: overlap_start_def)
  obtain es where "run_overlap env es \<lparr>ov_mux = m, ov_os = s, ov_calls = map Called ops\<rparr> = Some st"
    using assms by blast
  with c show ?thesis by (intro exI [of _ "map Call ops @ es"]) (simp add: run_overlap_append)
qed

lemma create_until_insert:
  assumes "quiet (e_shard env) gs" "shards_in_order env"
  shows "solo env gs (Called OCreate) m s (InsertNew (next_id (e_hash env) m), m, s)"
proof -
  have "call_step env gs (Called OCreate) m s = Some (FindMax None 0 None, m, s)" by simp
  from solo_step [OF this solo_find_max [OF quiet_can(1) [OF assms(1)] assms(2)]] show ?thesis
    by (simp add: after_max_def)
qed

text \<open>C13: two sessions created at the same time can get the same id: both calls search for the largest id
  before either inserts, both report success, and the table has one session for the two callers.\<close>

theorem creates_collide:
  assumes "mux_inv m" "shards_in_order env"
  shows "\<exists>es m'. run_overlap env es (overlap_start m s) = Some \<lparr>ov_mux = m', ov_os = s,
      ov_calls = [Finished (AId (next_id (e_hash env) m)), Finished (AId (next_id (e_hash env) m))]\<rparr> \<and>
    view m' = (view m)(next_id (e_hash env) m \<mapsto> ([], []))"
proof -
  let ?id = "next_id (e_hash env) m"
  define m1 where "m1 = file_session ?id [] [] m"
  define m2 where "m2 = file_session ?id [] [] m1"
  have v: "view m2 = (view m)(?id \<mapsto> ([], []))"
    using view_file [OF assms(1)] view_file [OF mux_inv_file [OF assms(1)]] by (simp add: m1_def m2_def)
  have q: "quiet (e_shard env) [Called OCreate]" "quiet (e_shard env) [InsertNew ?id]"
    "quiet (e_shard env) [Finished (AId ?id)]" by (simp_all add: quiet_def)
  have ins: "call_step env gs (InsertNew ?id) m s = Some (Finished (AId ?id), m1, s)"
    "call_step env gs (InsertNew ?id) m1 s = Some (Finished (AId ?id), m2, s)" if "quiet (e_shard env) gs" for gs
    using that by (simp_all add: insert_step_def m1_def m2_def)
  have "\<exists>es. run_overlap env es (overlap_start m s) = Some \<lparr>ov_mux = m2, ov_os = s,
      ov_calls = [Finished (AId ?id), Finished (AId ?id)]\<rparr>"
    apply (rule calls_then [of _ _ _ "[OCreate, OCreate]"])
    apply (rule run_then [OF create_until_insert [OF q(1) assms(2)], of 0], simp_all add: others_def)
    apply (rule run_then [OF create_until_insert [OF q(2) assms(2)], of 1], simp_all add: others_def)
    apply (rule run_then [OF solo_one [OF ins(1) [OF q(2)]], of 0], simp_all add: others_def)
    apply (rule run_then [OF solo_one [OF ins(2) [OF q(3)]], of 1], simp_all add: others_def)
    apply (rule exI [of _ "[]"], simp)
    done
  then show ?thesis using v by blast
qed

theorem creates_collide_witness:
  "\<exists>es m'. run_overlap demo_env es (overlap_start two_sessions demo_kern) = Some \<lparr>ov_mux = m', ov_os = demo_kern,
      ov_calls = [Finished (AId (next_id (e_hash demo_env) two_sessions)),
                  Finished (AId (next_id (e_hash demo_env) two_sessions))]\<rparr> \<and>
    view m' = (view two_sessions)(next_id (e_hash demo_env) two_sessions \<mapsto> ([], []))"
  by (rule creates_collide [OF two_sessions_inv demo_env_shards])

text \<open>C14: a split panics when a read of the same session comes between its looks at the output buffer: the
  read empties the buffer, and the slice up to half of the old length is out of bounds.\<close>

theorem split_can_panic:
  assumes "mux_inv m" "view m k = Some (i, out)" "2 \<le> length out"
  shows "\<exists>es m'. run_overlap env es (overlap_start m s) =
      Some \<lparr>ov_mux = m', ov_os = s, ov_calls = [Panicked, Finished (AData out)]\<rparr> \<and>
    view m' = (view m)(k \<mapsto> (i, []))"
proof -
  obtain ses where ses: "fmlookup (sessions m) k = Some ses"
    and io: "input_buffer ses = i" "bufs m ! output_buffer ses = out"
    using view_SomeD [OF assms(2)] by blast
  have a: "output_buffer ses < length (bufs m)" by (rule mux_invD(2) [OF assms(1) ses])
  let ?m' = "set_buf (output_buffer ses) [] m"
  have "run_overlap env [Call (OSplit k), Call (ORead k), Run 0, Run 0, Run 1, Run 1, Run 0] (overlap_start m s) =
      Some \<lparr>ov_mux = ?m', ov_os = s, ov_calls = [Panicked, Finished (AData out)]\<rparr>"
    using ses io a assms(3) by (simp add: overlap_start_def others_def can_simps peek_size_def get_step_def
        read_buffer_def peek_first_def Let_def)
  moreover have "view ?m' = (view m)(k \<mapsto> (i, []))" using view_set_buf [OF assms(1) ses] io by simp
  ultimately show ?thesis by blast
qed

theorem split_can_panic_witness:
  "\<exists>es m'. run_overlap demo_env es (overlap_start two_sessions demo_kern) =
      Some \<lparr>ov_mux = m', ov_os = demo_kern, ov_calls = [Panicked, Finished (AData [1, 2, 3])]\<rparr> \<and>
    view m' = (view two_sessions)(1 \<mapsto> ([97], []))"
  by (rule split_can_panic [OF two_sessions_inv]) (simp_all add: two_sessions_view)

text \<open>C12: output that the background task delivers while a session is split can be lost for it. There is an order of
  the steps of the split and of a poll, the delivery after the halves were copied and before the new sessions are
  filed, at whose end both calls have succeeded, every other session has the output, the two new sessions share
  what was there before without it, and the old session is gone.\<close>

theorem split_loses_output:
  assumes "mux_inv m" "shards_in_order env" "view m k = Some (i, out)"
    and "if_read_data (e_iface env) 4096 s = (Ok d, s')" "d \<noteq> []"
  shows "\<exists>es m' id1. run_overlap env es (overlap_start m s) =
      Some \<lparr>ov_mux = m', ov_os = s', ov_calls = [Finished (AIds id1 (id1 + 1)), Finished AUnit]\<rparr> \<and>
    view m' = ((\<lambda>j. map_option (\<lambda>(i, out). (i, out @ d)) (view m j))
      (id1 \<mapsto> (take (length i div 2) i, take (length out div 2) out),
       id1 + 1 \<mapsto> (drop (length i div 2) i, drop (length out div 2) out)))(k := None)"
proof -
  obtain ses where ses: "fmlookup (sessions m) k = Some ses"
    and io: "input_buffer ses = i" "bufs m ! output_buffer ses = out"
    using view_SomeD [OF assms(3)] by blast
  obtain m1 where m1: "dispatch_output (e_hash env) d m = (Returns (Ok ()), m1)" and inv1: "mux_inv m1"
    and v1: "view m1 = (\<lambda>j. map_option (\<lambda>(i, out). (i, out @ d)) (view m j))"
    using dispatch_output_refines [OF assms(1), of "e_hash env" d] by blast
  let ?hv = "halves_of k i out"
  define id1 where "id1 = next_id (e_hash env) m1"
  define m2 where "m2 = file_session id1 (take (length i div 2) i) (take (length out div 2) out) m1"
  define m3 where "m3 = drop_session k
    (file_session (id1 + 1) (drop (length i div 2) i) (drop (length out div 2) out) m2)"
  have v: "view m3 = ((\<lambda>j. map_option (\<lambda>(i, out). (i, out @ d)) (view m j))
      (id1 \<mapsto> (take (length i div 2) i, take (length out div 2) out),
       id1 + 1 \<mapsto> (drop (length i div 2) i, drop (length out div 2) out)))(k := None)"
    using view_file [OF inv1] view_file [OF mux_inv_file [OF inv1]] v1 by (simp add: m2_def m3_def)
  have q: "quiet (e_shard env) [Called OPoll]" "quiet (e_shard env) [FindMax (Some ?hv) 0 None]"
    "quiet (e_shard env) [Finished AUnit]" by (simp_all add: quiet_def)
  have copies: "solo env [Called OPoll] (Called (OSplit k)) m s (FindMax (Some ?hv) 0 None, m, s)"
    using split_copies [OF q(1) ses] io by simp
  have "whole_call env OPoll m s = (Some AUnit, m1, s')"
    using assms(4,5) m1 by (simp add: read_and_dispatch_def no_value_def)
  from solo_whole_call [OF q(2) assms(2,1) this]
  have poll: "solo env [FindMax (Some ?hv) 0 None] (Called OPoll) m s (Finished AUnit, m1, s')" .
  have files: "solo env [Finished AUnit] (FindMax (Some ?hv) 0 None) m1 s' (Finished (AIds id1 (id1 + 1)), m3, s')"
    using split_files [OF q(3) assms(2) id1_def] by (simp add: halves_of_def m2_def m3_def)
  have "\<exists>es. run_overlap env es (overlap_start m s) =
      Some \<lparr>ov_mux = m3, ov_os = s', ov_calls = [Finished (AIds id1 (id1 + 1)), Finished AUnit]\<rparr>"
    apply (rule calls_then [of _ _ _ "[OSplit k, OPoll]"])
    apply (rule run_then [OF copies, of 0], simp_all add: others_def)
    apply (rule run_then [OF poll, of 1], simp_all add: others_def)
    apply (rule run_then [OF files, of 0], simp_all add: others_def)
    apply (rule exI [of _ "[]"], simp)
    done
  then show ?thesis using v by blast
qed

theorem split_loses_output_witness:
  "\<exists>es m' id1. run_overlap demo_env es (overlap_start two_sessions demo_kern) =
      Some \<lparr>ov_mux = m', ov_os = demo_kern\<lparr>kin := []\<rparr>, ov_calls = [Finished (AIds id1 (id1 + 1)), Finished AUnit]\<rparr> \<and>
    view m' = ((\<lambda>j. map_option (\<lambda>(i, out). (i, out @ [104, 105])) (view two_sessions j))
      (id1 \<mapsto> ([], [1]), id1 + 1 \<mapsto> ([97], [2, 3])))(1 := None)"
  using split_loses_output [OF two_sessions_inv demo_env_shards, of 1 "[97]" "[1, 2, 3]" demo_kern, OF _ demo_env_read]
  by (simp add: two_sessions_view)

section \<open>A merge that hangs\<close>

text \<open>C7: a merge that hangs blocks the table. A merge of an existing session with any others, itself
  excepted, run while no other call holds a lock, stops with the shard of the session locked for writing, and
  never settles, whatever runs later. Of the calls made later, those that start with a session of that shard
  or go through the whole table (create, broadcast, read all, close all) never settle; splits, merges with an
  id in the shard and shutdowns never succeed; and a poll delivers nothing.\<close>

theorem merge_blocks_table:
  assumes "mux_inv m" "view m k \<noteq> None" "k \<notin> set js" "e_shard env k < e_shards env"
    and "\<forall>g \<in> set gs. write_guards (e_shard env) g = [] \<and> read_guards (e_shard env) g = [] \<and> bufs_held g = []"
  shows "\<exists>n st. run_overlap env (Call (OMerge (k # js)) # replicate n (Run (length gs)))
        \<lparr>ov_mux = m, ov_os = s, ov_calls = gs\<rparr> = Some st \<and>
      \<not> can_read (e_shard env) (ov_calls st) (e_shard env k) \<and>
      (\<forall>fs op fs' st'. run_overlap env (fs @ Call op # fs') st = Some st' \<longrightarrow>
         (let stuck = ov_calls st' ! length gs; later = ov_calls st' ! (Suc (length gs) + calls_in fs)
          in \<not> settled stuck \<and>
             (needs_shard env (e_shard env k) op \<longrightarrow> \<not> settled later) \<and>
             (ends_in_shard env (e_shard env k) op \<longrightarrow> \<not> succeeded later) \<and>
             (op = OPoll \<longrightarrow> (\<forall>as d. later \<noteq> AppendTo as d))))"
proof -
  obtain p where p: "fmlookup (sessions m) k = Some p" using assms(2) by (auto simp: view_None_iff)
  let ?w = "WantPrimary k p (output_buffer p)" and ?n = "e_shard env k" and ?i = "length gs"
  have q: "quiet (e_shard env) gs" using assms(5) by (simp add: quiet_def)
  from solo_merge_stuck [OF q assms(1) p assms(3), of s] obtain m' where
    "solo env gs (Called (OMerge (k # js))) m s (?w, m', s)" ..
  from solo_run [OF this refl, of ?i "gs @ [Called (OMerge (k # js))]"] obtain n where
    "run_overlap env (replicate n (Run ?i)) \<lparr>ov_mux = m, ov_os = s, ov_calls = gs @ [Called (OMerge (k # js))]\<rparr> =
      Some \<lparr>ov_mux = m', ov_os = s, ov_calls = gs @ [?w]\<rparr>" (is "_ = Some ?st")
    by (auto simp: others_def list_update_append)
  then have st: "run_overlap env (Call (OMerge (k # js)) # replicate n (Run ?i))
      \<lparr>ov_mux = m, ov_os = s, ov_calls = gs\<rparr> = Some ?st" by simp
  have "let stuck = ov_calls st' ! ?i; later = ov_calls st' ! (Suc ?i + calls_in fs)
        in \<not> settled stuck \<and> (needs_shard env ?n op \<longrightarrow> \<not> settled later) \<and>
           (ends_in_shard env ?n op \<longrightarrow> \<not> succeeded later) \<and> (op = OPoll \<longrightarrow> (\<forall>as d. later \<noteq> AppendTo as d))"
    if run: "run_overlap env (fs @ Call op # fs') ?st = Some st'" for fs op fs' st'
  proof -
    have "stuck_at ?i k p ?st" "length (ov_calls ?st) = Suc ?i" by simp_all
    note later = later_call [OF this run]
    have "\<not> settled (ov_calls st' ! ?i)" using later(1) by simp
    moreover have "needs_shard env ?n op \<longrightarrow> \<not> settled (ov_calls st' ! (Suc ?i + calls_in fs))"
      using later(2) [OF before_shard_kept [OF assms(4)]] before_shard_settled by fastforce
    moreover have "ends_in_shard env ?n op \<longrightarrow> \<not> succeeded (ov_calls st' ! (Suc ?i + calls_in fs))"
      using later(2) [OF unsuccessful_kept [OF assms(4)]] unsuccessful_succeeded by fastforce
    moreover have "op = OPoll \<longrightarrow> (\<forall>as d. ov_calls st' ! (Suc ?i + calls_in fs) \<noteq> AppendTo as d)"
      using later(2) [OF undelivered_kept [OF assms(4)]] by fastforce
    ultimately show ?thesis unfolding Let_def by blast
  qed
  then show ?thesis using st by (intro exI [of _ n] exI [of _ ?st]) (auto simp: can_simps)
qed

theorem merge_blocks_table_witness:
  "\<exists>n st. run_overlap demo_env (Call (OMerge [1, 2]) # replicate n (Run 0)) (overlap_start two_sessions demo_kern) = Some st \<and>
    \<not> can_read (e_shard demo_env) (ov_calls st) 1 \<and>
    (\<forall>fs fs' st'. run_overlap demo_env (fs @ Call OCreate # fs') st = Some st' \<longrightarrow>
       \<not> settled (ov_calls st' ! 0) \<and> \<not> settled (ov_calls st' ! Suc (calls_in fs)))"
proof -
  have sh: "e_shard demo_env 1 = 1" "e_shards demo_env = 2" by (simp_all add: demo_env_def)
  have v: "view two_sessions 1 \<noteq> None" by (simp add: two_sessions_view)
  from merge_blocks_table [OF two_sessions_inv v, of "[2]" demo_env "[]" demo_kern] sh
  obtain n st where st: "run_overlap demo_env (Call (OMerge [1, 2]) # replicate n (Run 0))
      (overlap_start two_sessions demo_kern) = Some st"
    "\<not> can_read (e_shard demo_env) (ov_calls st) 1"
    and blocked: "\<And>fs op fs' st'. run_overlap demo_env (fs @ Call op # fs') st = Some st' \<Longrightarrow>
      \<not> settled (ov_calls st' ! 0) \<and> (needs_shard demo_env 1 op \<longrightarrow> \<not> settled (ov_calls st' ! Suc (calls_in fs)))"
    by (auto simp: Let_def overlap_start_def)
  have "\<forall>fs fs' st'. run_overlap demo_env (fs @ Call OCreate # fs') st = Some st' \<longrightarrow>
      \<not> settled (ov_calls st' ! 0) \<and> \<not> settled (ov_calls st' ! Suc (calls_in fs))"
    using blocked [where op = OCreate] by auto
  with st show ?thesis by blast
qed

section \<open>Two merges of the same sessions\<close>

text \<open>Two calls each of which holds the buffer the other waits for.\<close>

lemma crossed_step:
  assumes "overlap_step env e st = Some st'" "2 \<le> length (ov_calls st)"
    and "ov_calls st ! 0 = MergeBoth k p q es" "ov_calls st ! 1 = MergeBoth j q p fs"
  shows "2 \<le> length (ov_calls st') \<and> ov_calls st' ! 0 = MergeBoth k p q es \<and> ov_calls st' ! 1 = MergeBoth j q p fs"
proof (cases e)
  case (Call op)
  then show ?thesis using assms by (auto simp: nth_append)
next
  case (Run t)
  with assms(1) obtain g m s where t: "t < length (ov_calls st)"
    and step: "call_step env (others t (ov_calls st)) (ov_calls st ! t) (ov_mux st) (ov_os st) = Some (g, m, s)"
    and st': "st' = \<lparr>ov_mux = m, ov_os = s, ov_calls = (ov_calls st)[t := g]\<rparr>"
    using run_step by blast
  have other: "ov_calls st ! i \<in> set (others t (ov_calls st))" if "i < length (ov_calls st)" "i \<noteq> t" for i
    unfolding set_others [OF t] using that by blast
  have "t \<noteq> 0"
  proof
    assume "t = 0"
    with step assms(3) have "can_lock (others 0 (ov_calls st)) (output_buffer q)"
      by (simp add: merge_both_def split: if_splits)
    then show False using other [of 1] assms(2,4) \<open>t = 0\<close> by (auto simp: can_simps)
  qed
  moreover have "t \<noteq> 1"
  proof
    assume "t = 1"
    with step assms(4) have "can_lock (others 1 (ov_calls st)) (output_buffer p)"
      by (simp add: merge_both_def split: if_splits)
    moreover have "MergeBoth k p q es \<in> set (others 1 (ov_calls st))"
      using other [of 0] assms(2,3) \<open>t = 1\<close> by (cases "ov_calls st") auto
    ultimately show False by (auto simp: can_simps)
  qed
  ultimately show ?thesis using assms(2,3,4) by (auto simp: st')
qed

text \<open>The first step of two merges: each has its clone, the other session is out of the table.\<close>

definition crossed_start :: "u32 \<Rightarrow> u32 \<Rightarrow> overlap_event list" where
  "crossed_start k j = [Call (OMerge [k, j]), Call (OMerge [j, k]), Run 0, Run 1, Run 0, Run 1, Run 0, Run 1]"

lemma crossed_run:
  assumes "run_overlap env fs st = Some st'" "ov_calls st = [MergeBoth k p q [], MergeBoth j q p []]"
  shows "\<not> settled (ov_calls st' ! 0) \<and> \<not> settled (ov_calls st' ! 1)"
proof -
  have "2 \<le> length (ov_calls st') \<and> ov_calls st' ! 0 = MergeBoth k p q [] \<and> ov_calls st' ! 1 = MergeBoth j q p []"
    by (rule run_overlap_invariant [where P = "\<lambda>st. 2 \<le> length (ov_calls st) \<and>
        ov_calls st ! 0 = MergeBoth k p q [] \<and> ov_calls st ! 1 = MergeBoth j q p []", OF assms(1)])
      (simp add: assms(2), use crossed_step in blast)
  then show ?thesis by simp
qed

lemma view_unused_buf:
  assumes "\<And>i ses. fmlookup (sessions m) i = Some ses \<Longrightarrow> output_buffer ses \<noteq> a"
  shows "view (set_buf a bs m) = view m"
proof
  show "view (set_buf a bs m) i = view m i" for i
    using assms [of i] by (cases "fmlookup (sessions m) i") (auto simp: view_def)
qed

lemma crossed_started:
  assumes "fmlookup (sessions m) k = Some p" "fmlookup (sessions m) j = Some q" "k \<noteq> j"
  shows "run_overlap env (crossed_start k j) (overlap_start m s) =
    Some \<lparr>ov_mux = drop_session k (drop_session j m), ov_os = s, ov_calls = [MergeNext k p [q], MergeNext j q [p]]\<rparr>"
  using assms by (simp add: crossed_start_def overlap_start_def others_def begin_merge_def can_simps)

text \<open>C8: two merges of the same two sessions in opposite order, at the same time, take each other's session
  out of the table. Then either both report success and both sessions are gone, or each holds the buffer the
  other waits for and neither ever settles.\<close>

theorem crossed_merges:
  assumes "mux_inv m" "view m k \<noteq> None" "view m j \<noteq> None" "k \<noteq> j"
  shows "(\<exists>es m'. run_overlap env (Call (OMerge [k, j]) # Call (OMerge [j, k]) # es) (overlap_start m s) =
      Some \<lparr>ov_mux = m', ov_os = s, ov_calls = [Finished AUnit, Finished AUnit]\<rparr> \<and>
      view m' = (view m)(k := None, j := None)) \<and>
    (\<exists>es st. run_overlap env (Call (OMerge [k, j]) # Call (OMerge [j, k]) # es) (overlap_start m s) = Some st \<and>
      view (ov_mux st) = (view m)(k := None, j := None) \<and>
      (\<forall>fs st'. run_overlap env fs st = Some st' \<longrightarrow> \<not> settled (ov_calls st' ! 0) \<and> \<not> settled (ov_calls st' ! 1)))"
proof
  obtain p q where p: "fmlookup (sessions m) k = Some p" and q: "fmlookup (sessions m) j = Some q"
    using assms(2,3) by (auto simp: view_None_iff)
  have pq: "output_buffer p \<noteq> output_buffer q" "output_buffer q \<noteq> output_buffer p"
    using mux_invD(3) [OF assms(1) p q] assms(4) by auto
  let ?m = "drop_session k (drop_session j m)"
  note started = crossed_started [OF p q assms(4), of env s]
  let ?p = "output_buffer p" and ?q = "output_buffer q"
  let ?m1 = "set_buf ?p (bufs ?m ! ?p @ bufs ?m ! ?q) ?m"
  let ?m2 = "set_buf ?q (bufs ?m1 ! ?q @ bufs ?m1 ! ?p) ?m1"
  have unused: "output_buffer ses \<noteq> ?p \<and> output_buffer ses \<noteq> ?q" if "fmlookup (sessions ?m) i = Some ses" for i ses
    using that mux_invD(3) [OF assms(1), of i ses] p q by (auto split: if_splits)
  have "run_overlap env (crossed_start k j @ [Run 0, Run 0, Run 0, Run 0, Run 1, Run 1, Run 1, Run 1]) (overlap_start m s) =
      Some \<lparr>ov_mux = ?m2, ov_os = s, ov_calls = [Finished AUnit, Finished AUnit]\<rparr>"
    unfolding run_overlap_append started
    using pq by (simp add: others_def can_simps merge_both_def merge_back_def)
  moreover have "view ?m2 = view ?m1" by (rule view_unused_buf) (metis unused mux_sel_simps(5))
  moreover have "view ?m1 = view ?m" by (rule view_unused_buf) (metis unused)
  moreover have "view ?m = (view m)(k := None, j := None)" by (simp add: fun_upd_twist [OF assms(4)])
  ultimately show "\<exists>es m'. run_overlap env (Call (OMerge [k, j]) # Call (OMerge [j, k]) # es) (overlap_start m s) =
      Some \<lparr>ov_mux = m', ov_os = s, ov_calls = [Finished AUnit, Finished AUnit]\<rparr> \<and>
      view m' = (view m)(k := None, j := None)"
    unfolding crossed_start_def append_Cons by metis
  let ?st = "\<lparr>ov_mux = ?m, ov_os = s, ov_calls = [MergeBoth k p q [], MergeBoth j q p []]\<rparr>"
  have "run_overlap env (crossed_start k j @ [Run 0, Run 1]) (overlap_start m s) = Some ?st"
    unfolding run_overlap_append started using pq by (simp add: others_def can_simps)
  then show "\<exists>es st. run_overlap env (Call (OMerge [k, j]) # Call (OMerge [j, k]) # es) (overlap_start m s) = Some st \<and>
      view (ov_mux st) = (view m)(k := None, j := None) \<and>
      (\<forall>fs st'. run_overlap env fs st = Some st' \<longrightarrow> \<not> settled (ov_calls st' ! 0) \<and> \<not> settled (ov_calls st' ! 1))"
    unfolding crossed_start_def append_Cons
    using crossed_run [of env _ ?st] by (intro exI [of _ ?st] exI conjI)
      (assumption, simp add: fun_upd_twist [OF assms(4)], auto)
qed

theorem crossed_merges_witness:
  "\<exists>es m'. run_overlap demo_env (Call (OMerge [1, 2]) # Call (OMerge [2, 1]) # es) (overlap_start two_sessions demo_kern) =
      Some \<lparr>ov_mux = m', ov_os = demo_kern, ov_calls = [Finished AUnit, Finished AUnit]\<rparr> \<and>
      view m' = (view two_sessions)(1 := None, 2 := None)"
  using crossed_merges [OF two_sessions_inv, of 1 2 demo_env demo_kern] by (simp add: two_sessions_view)

end
