(* ===== verification/Spec2Isabelle.thy ===== *)
theory Spec2Isabelle
  imports Handle_Laws Process_Properties Session_Properties Handler_Properties Terminal_Properties
    Worker_Properties Linux_Properties Support_Properties Object_Properties Live_Properties Windows_Properties
    Vdom_Wrapper Overlap_Properties
begin

text \<open>
  A verification library for node-rust-pty, a pseudo-terminal library for Node.js written in Rust.
  The paths below are relative to \<open>src/\<close> of the repository.

  \<^bold>\<open>The program.\<close> JavaScript holds a \<open>PtyHandle\<close> (\<open>src/pty/handle.rs\<close>). The handle starts a
  shell on a pseudo-terminal (\<open>PtyProcess\<close>, \<open>src/platform/macos.rs\<close>), wraps it in a multiplexer
  of sessions (\<open>src/pty/multiplexer.rs\<close>), and starts a thread that takes commands
  (\<open>src/pty/commands.rs\<close>) from a bounded channel and runs the handler of each
  (\<open>src/pty/command_handler.rs\<close>) on its process or multiplexer. A method of the handle sends one
  command and awaits the answer with a timeout. A background task reads the master side and adds
  what it reads to the output buffer of every session. Beside this path, the emulator and the PTY
  renderer (\<open>src/pty/emulator.rs\<close>, \<open>src/pty/pty_renderer.rs\<close>) feed output to a virtual DOM
  (\<open>src/virtual_dom/\<close>) that is diffed and drawn, and \<open>src/utils/\<close> has parsers of ANSI and ASCII
  output. A worker (\<open>src/worker/pty_worker.rs\<close>) forwards bytes between one connection and the sockets
  that connect to it, with two threads for each; \<open>src/path/mod.rs\<close> has the path functions, and
  \<open>src/platform/linux.rs\<close> the process of Linux.

  \<^bold>\<open>The theories.\<close>
  \<^item> \<open>Pty_Prelude\<close>: machine words, strings as their UTF-8 bytes, \<open>Result\<close>, the ways a call can end
    (\<open>flow\<close>: it returns, panics, hangs, or is the child of a fork), I/O and N-API errors, log levels,
    the visit order of hash maps, and the collections of rules. \<open>Decimal\<close> and \<open>Utf8\<close>: the
    parts of the standard library the code uses, with their round trips.
  \<^item> \<open>Commands\<close>: the commands and results of \<open>commands.rs\<close>.
  \<^item> \<open>Pty_Process\<close>: every method of \<open>PtyProcess\<close> over a record \<open>sys\<close> of system calls, each a
    function of an arbitrary kernel state; which calls succeed, and, under the law \<open>fd_laws\<close> of
    descriptors, which descriptors stay open. \<open>Sample_Kernel\<close> is a kernel that satisfies it;
    \<open>Process_Properties\<close> has the properties.
  \<^item> \<open>Multiplexer\<close>: the session table as a finite map to addresses of output buffers, with the set
    of locked buffers explicit, so that a lock taken twice is a call that hangs. \<open>Session_Table\<close>:
    the invariant \<open>mux_inv\<close>, the abstraction \<open>view\<close> of the table to inputs and outputs by id, one
    refinement lemma per operation, the contract \<open>session_table\<close> (a locale) with its interpretation on
    the multiplexer, and the states \<open>mux_reach\<close> reachable by calls. \<open>Session_Properties\<close>: the
    properties.
  \<^item> \<open>Overlapping_Ops\<close>: the methods of the multiplexer as JavaScript, the handler thread and the tasks call
    them at the same time: each is a chain of \<open>stage\<close>s, with the guards of the shards of the \<open>DashMap\<close> and the
    mutexes of the buffers that a stage holds, and \<open>overlap_step\<close> takes one call one step further.
    \<open>Overlap_Laws\<close>: the guards exclude each other, every run ends, and without merges no call is left waiting.
    \<open>Overlap_Solo\<close>: a call that no other delays does what its function in \<open>Multiplexer\<close> does, the reference
    \<open>whole_call\<close>. \<open>Overlap_Blocked\<close>: a merge that hangs, and what the calls that need the shard it leaves
    locked keep doing (\<open>needs_shard\<close>, \<open>ends_in_shard\<close>). \<open>Overlap_Properties\<close>: the properties, with what goes
    wrong between the steps of two calls.
  \<^item> \<open>Command_Handler\<close>: the world of the handler thread, the 25 handlers and the receive loop.
    \<open>Handler_Laws\<close>: what each can change, how each ends, the invariant of the world.
    \<open>Handler_Properties\<close>: the properties.
  \<^item> \<open>Handle\<close>: the methods over an abstract channel, the channel to the handler thread, the background
    task, and the constructor. \<open>Handle_Laws\<close>: the contract \<open>command_channel\<close> (a locale) with the lemmas
    on the methods proved against it and its interpretation on the handler thread, the stuck
    thread, and the constructor. This theory has the properties that go through the handle.
  \<^item> \<open>Call_Queue\<close>: calls of the handle that overlap, as a state machine of the channel, the pending calls
    and the handler thread: \<open>queue_step\<close> sends, takes, lets a timeout pass or closes the channel, in any
    order. Every run is a sequential one (\<open>serial_run\<close>), and the channel of \<open>Handle\<close> is one schedule of
    it (\<open>handler_call_schedule\<close>). \<open>Handle_Object\<close>: the whole object, its calls, its worker and \<open>drop\<close>,
    as interleaved steps. \<open>Live_Output\<close>: the two background tasks, each of which reads and dispatches in
    two steps, interleaved with overlapping calls, and the invariant \<open>live_inv\<close> of the output of a session.
    \<open>Queue_Properties\<close>, \<open>Object_Properties\<close> and \<open>Live_Properties\<close>: their properties.
  \<^item> \<open>Vdom\<close>, \<open>Renderer\<close>, \<open>Renderer_Laws\<close>: the virtual DOM, the diff, the renderer on a terminal
    whose flushes may fail, and the changes for which the patches are right. \<open>Key_Input\<close>: the
    bytes of keys and sequences. \<open>Pty_Renderer\<close>: the rendering of output, the wrappers of
    \<open>output_handler.rs\<close> and of the emulator, which render as it does, and the emulator. \<open>Ascii_Parser\<close>: the parser
    of ASCII output. \<open>Terminal_Properties\<close>: their properties. \<open>Vdom_State\<close>: the state with listeners, of which any can
    refuse a call and end the notification, and what a listener is due in a history of its operations.
    \<open>Node_Objects\<close>: nodes as JavaScript objects. \<open>Vdom_Wrapper\<close>: the node types of \<open>virtual_dom.rs\<close>,
    wrapped nodes and maps, and the objects of worker messages. \<open>Console_Input\<close>: \<open>handle_input\<close>, the
    object it makes of a key, and \<open>KeyState\<close> on the state with listeners.
  \<^item> \<open>Linux_Process\<close>: the methods of the Linux process, over the same record \<open>sys\<close> and a record for the
    calls that open a PTY. \<open>Process_Objects\<close>: the JavaScript objects of a process and the table of
    descriptors, on both platforms. \<open>Linux_Properties\<close>: the operations of Linux are those of macOS up to
    the kinds of errno values; its descriptors; what a change of shell does; the objects read back.
  \<^item> \<open>Windows_Process\<close>: the methods of the Windows process over a record \<open>win\<close> of the calls of winpty and
    of \<open>std::process\<close>, and the stubs of \<open>unsupported.rs\<close>. A read to the end of the output is a
    \<open>partial_function\<close>, \<open>None\<close> where it does not return. \<open>Platforms\<close>: the contract \<open>pty_platform\<close> of a
    process that a shutdown ends (a locale) with its interpretations on macOS, Linux and Windows, and
    what whole reads and writes do. \<open>Windows_Properties\<close>: the properties.
  \<^item> \<open>Worker\<close>: the accept loop, the two threads of a connection and \<open>shutdown_worker\<close> as state machines;
    a \<open>step\<close> of one of them is a partial function of the state, undefined while it waits for a mutex,
    and \<open>run\<close> is an interleaving. \<open>Worker_Laws\<close>: the invariant \<open>locks_inv\<close> of the mutexes, and the
    conditions no step changes (the locale \<open>kept_by_steps\<close>, interpreted for every way to wait for ever).
    \<open>Worker_Data\<close>: the invariant \<open>data_inv\<close> of ids and buffers, which accounts for the writes to \<open>conout\<close> that
    fail after a part (\<open>cut\<close>), and a shutdown that nothing blocks.
    \<open>Worker_Properties\<close>: the properties, on runs from the start.
  \<^item> \<open>Paths\<close>: the path functions over a record of what they ask of the system, the references \<open>${VAR}\<close>
    as a function that scans for them. \<open>Path_Laws\<close>: templates, and the expansion as a substitution.
    \<open>Support_Properties\<close>: the properties of paths, of the state with listeners, of node objects and of
    key events.

  \<^bold>\<open>Choices.\<close> Integers are words of their Rust width, with the wrap-around of a release build. A
  \<open>HashMap\<close> or \<open>DashMap\<close> is a finite map, and an argument \<open>h\<close> fixes the order in which it is visited.
  The crate builds for macOS: the process of Linux has an interface the handle and the multiplexer do not use,
  so that the macOS process is the one those theories rest on; \<open>windows.rs\<close> is declared by no module and is
  modelled as it is written, though two of its methods would not compile. A thread of the worker takes a step between
  any two points where another thread can observe it; a section guarded by a mutex that is never held
  while its owner waits is one step. Third-party code is a parameter: the system calls,
  the texts of error codes, the JSON parser (only the law \<open>json_law\<close>, that an array starts with a
  bracket, is used), the escape-sequence parser of \<open>vte\<close>, and the modifier bits of
  \<open>crossterm\<close>. Operations of the multiplexer run one at a time in \<open>Multiplexer\<close> and in the theories of
  the handler and of the handle, and step by step in \<open>Overlapping_Ops\<close>, where the sharding of the \<open>DashMap\<close> is a
  parameter. The channel of \<open>Handle\<close> has one client,
  and \<open>lateness\<close> says which answers miss their timeout; in \<open>Call_Queue\<close> any number of calls overlap and a
  timeout is a step. No fuel is used: every recursion is structural
  or has a measure, but for the read of Windows, and a call that waits for ever is the value \<open>Hangs\<close>,
  or a step that stays undefined in every later state.

  \<^bold>\<open>Not modelled.\<close> Logging, which only calls the log crates; \<open>run_terminal\<close> of \<open>lib.rs\<close>, which
  is built for other platforms only and does not compile there; module declarations and N-API exports; \<open>pid\<close> of the macOS process; and the tests. The shard of the session
  table that a merge leaves write-locked when it hangs blocks other calls in \<open>Overlapping_Ops\<close>; the
  theories of the handler and the handle show the thread stuck by it, not the later effect on the background
  tasks. A worker is started
  once, and the duplication of its \<open>conout\<close> socket at the start is taken to succeed.
\<close>

section \<open>A handle on the sample kernel\<close>

definition demo_link :: "kern link" where
  "demo_link = \<lparr>lworld = demo_world, lstate = Waiting, queued = 0, lateness = []\<rparr>"

lemma demo_link_inv: "link_inv demo_link"
  by (simp add: link_inv_def demo_link_def demo_world_inv)

section \<open>Sessions through the handle\<close>

text \<open>C1: a merge through the handle never succeeds and takes the handle down. The call times out and
  the handler thread is stuck. Of all later calls, whatever they ask, the first hundred time out and the rest
  wait for ever, none changes the world, and dropping the handle does not end the process.\<close>

theorem merge_stalls_handle:
  assumes "link_inv l" "lstate l = Waiting" "queued l = 0" "hmux (lworld l) = Some (p, m)"
    and "view m k \<noteq> None"
  shows "\<exists>l1. h_merge_sessions (handler_call send_err c) (k # ks) l =
        (Returns (Err (unknown ''Merge sessions operation timed out'')), l1) \<and>
      hpty (lworld l1) = hpty (lworld l) \<and>
      fst (calls (handler_call send_err c) cs l1) =
        replicate (min (length cs) 100) TimedOut @ replicate (length cs - 100) Never \<and>
      lworld (h_drop (handler_call send_err c) (snd (calls (handler_call send_err c) cs l1))) = lworld l1"
proof -
  have m: "existing_merge (lworld l) (MergeSessions (k # ks))"
    using assms(4,5) by (auto simp: existing_merge_def)
  obtain l1 where call: "handler_call send_err c 5000 (MergeSessions (k # ks)) l = (TimedOut, l1)"
    and stuck: "lstate l1 = Stuck"
    using handler_call_merge [OF assms(1,2) m, of send_err c 5000]
    by (cases "handler_call send_err c 5000 (MergeSessions (k # ks)) l") auto
  have q: "queued l1 = 0" and p: "hpty (lworld l1) = hpty (lworld l)"
    using call assms(2,3) handle_mux_frame [of c "MergeSessions (k # ks)" "lworld l"]
    by (auto simp: handler_call_def Let_def split: prod.splits flow.splits if_splits)
  have "lworld (h_drop (handler_call send_err c) l') = lworld l'" if "lstate l' = Stuck" for l'
    using that by (simp add: h_drop_def handler_call_stuck)
  then show ?thesis
    using call p calls_stuck [OF stuck, of send_err c cs] calls_stays_stuck [OF stuck, of send_err c cs] q
    by (simp add: h_merge_sessions_def ask_def)
qed

theorem merge_stalls_handle_witness:
  "\<exists>l1. h_merge_sessions (handler_call ''closed'' demo_ctx) [1, 2] demo_link =
        (Returns (Err (unknown ''Merge sessions operation timed out'')), l1) \<and>
      hpty (lworld l1) = Some demo_proc \<and>
      fst (calls (handler_call ''closed'' demo_ctx) [(5000, Status)] l1) = [TimedOut]"
  using merge_stalls_handle [OF demo_link_inv, of demo_proc two_sessions 1 "''closed''" demo_ctx "[2]"
      "[(5000, Status)]"]
  by (auto simp: demo_link_def demo_world_def two_sessions_view)

text \<open>Creating a session through the handle. The session exists afterwards, under a new id and
  empty, but the caller gets an error and never learns the id, since the text of the answer is read
  as a number.\<close>

theorem create_session_through_handle:
  assumes "link_inv l" "lstate l = Waiting" "lateness l = []" "hmux (lworld l) = Some (p, m)"
    and "- 1 \<notin> dom (view m)"
  shows "\<exists>l1 m1 k. h_create_session (handler_call send_err c) l =
        (Returns (Err (unknown ''Failed to parse session ID'')), l1) \<and>
      hmux (lworld l1) = Some (p, m1) \<and> k \<notin> dom (view m) \<and> view m1 = (view m)(k \<mapsto> ([], []))"
proof -
  have inv: "mux_inv m" using assms(1,2,4) by (simp add: link_inv_def world_inv_def)
  obtain m1 where m1: "create_session (c_hash c) m = (Ok (next_id (c_hash c) m), m1)"
    "view m1 = (view m)(next_id (c_hash c) m \<mapsto> ([], []))"
    using create_session_refines [OF inv, of "c_hash c"] by (metis prod.collapse)
  show ?thesis using parse_session_id_reply_Err [of "show_u32 (next_id (c_hash c) m)"] next_id_fresh [OF assms(5), of "c_hash c"] m1 assms(2-4)
    by (auto simp: h_create_session_def ask_def handler_call_def handle_create_session_def
        with_mux_def state_after_def Let_def)
qed

theorem create_session_through_handle_witness:
  "\<exists>l1 m1 k. h_create_session (handler_call ''closed'' demo_ctx) demo_link =
        (Returns (Err (unknown ''Failed to parse session ID'')), l1) \<and>
      hmux (lworld l1) = Some (demo_proc, m1) \<and> k \<notin> {1, 2} \<and> view m1 = (view two_sessions)(k \<mapsto> ([], []))"
proof -
  have d: "dom (view two_sessions) = {1, 2}" by (auto simp: two_sessions_view dom_def split: if_splits)
  have "- 1 \<notin> dom (view two_sessions)" by (simp add: d)
  from create_session_through_handle [OF demo_link_inv _ _ _ this, of demo_proc "''closed''" demo_ctx] d
  show ?thesis by (simp add: demo_link_def demo_world_def)
qed

text \<open>C38: the methods that read their answer as JSON. Listing the sessions, splitting one and reading
  all of them through the handle never succeed, for no thread answers them with a JSON array.\<close>

theorem json_methods_fail:
  assumes "link_inv l" "json_law js"
  shows "(\<forall>ids. fst (h_list_sessions js (handler_call send_err c) l) \<noteq> Returns (Ok ids)) \<and>
    (\<forall>r. fst (h_split_session js (handler_call send_err c) sid l) \<noteq> Returns (Ok r)) \<and>
    (\<forall>ds. fst (h_read_all_sessions js (handler_call send_err c) l) \<noteq> Returns (Ok ds))"
  using handler_channel.list_sessions_not_ok [OF assms] handler_channel.split_session_not_ok [OF assms]
    handler_channel.read_all_sessions_not_ok [OF assms] by blast

text \<open>A parser that knows one array.\<close>

definition demo_json :: json where
  "demo_json = \<lparr>j_ids = (\<lambda>t. if t = ''[1]'' then Some [1] else None), j_pair = (\<lambda>t. None),
                j_sessions = (\<lambda>t. if t = ''[]'' then Some [] else None)\<rparr>"

theorem json_methods_fail_witness:
  "fst (h_list_sessions demo_json (handler_call ''closed'' demo_ctx) demo_link) \<noteq> Returns (Ok [1, 2])"
proof -
  have "json_law demo_json"
    by (auto simp: json_law_def demo_json_def array_text_def json_space_def)
  from json_methods_fail [OF demo_link_inv this] show ?thesis by blast
qed

text \<open>C17: output from the process to the caller. What the background task of the handle reads is added
  to the output of every session, and reading a session through the handle then returns its unread
  output and the new one, decoded with replacement of invalid bytes, and leaves the session empty.\<close>

theorem output_reaches_caller:
  assumes "mux_inv m" "view m k = Some (i, out)" "hmux (lworld l) = Some (p, m)"
    and "lstate l = Waiting" "lateness l = []"
    and "read_data (c_sys c) p 4096 (os (lworld l)) = (Ok d, s1)"
  shows "\<exists>m1 l2 m2.
    handle_task_turn (c_hash c) (show_err c) (process_iface (c_sys c) p) False (m, os (lworld l)) = (True, (m1, s1)) \<and>
    h_read_from_session (handler_call send_err c) k (l\<lparr>lworld := (lworld l)\<lparr>os := s1, hmux := Some (p, m1)\<rparr>\<rparr>) =
      (Returns (Ok (from_utf8_lossy (out @ d))), l2) \<and>
    hmux (lworld l2) = Some (p, m2) \<and>
    view m2 = (\<lambda>j. map_option (\<lambda>(i, out). (i, out @ d)) (view m j))(k \<mapsto> (i, []))"
proof -
  have r: "if_read_data (process_iface (c_sys c) p) 4096 (os (lworld l)) = (Ok d, s1)"
    using assms(6) by (simp add: process_iface_def)
  obtain m1 where m1: "handle_task_turn (c_hash c) (show_err c) (process_iface (c_sys c) p) False
      (m, os (lworld l)) = (True, (m1, s1))" "mux_inv m1"
    "view m1 = (\<lambda>j. map_option (\<lambda>(i, out). (i, out @ d)) (view m j))"
    using handle_task_delivers [OF assms(1) r, of "c_hash c" "show_err c"] by blast
  have v: "view m1 k = Some (i, out @ d)" using m1(3) assms(2) by simp
  obtain m2 where "read_from_session k m1 = (Returns (Ok (out @ d)), m2)"
    "view m2 = (view m1)(k \<mapsto> (i, []))"
    using mux_table.read_Some [OF m1(2) v] by blast
  then show ?thesis using m1(1,3) assms(4,5)
    by (simp add: h_read_from_session_def ask_def handler_call_def handle_read_from_session_def
        state_after_def Let_def)
qed

theorem output_reaches_caller_witness:
  "\<exists>m1 s1 l2. handle_task_turn unat (show_err demo_ctx) (process_iface demo_sys demo_proc) False
       (two_sessions, demo_kern) = (True, (m1, s1)) \<and>
    h_read_from_session (handler_call ''closed'' demo_ctx) 2
      (demo_link\<lparr>lworld := demo_world\<lparr>os := s1, hmux := Some (demo_proc, m1)\<rparr>\<rparr>) =
      (Returns (Ok (from_utf8_lossy [4, 104, 105])), l2)"
proof -
  have r: "read_data (c_sys demo_ctx) demo_proc 4096 (os (lworld demo_link)) =
      (Ok [104, 105], demo_kern\<lparr>kin := []\<rparr>)"
    by (simp add: read_data_def demo_ctx_def demo_sys_def demo_link_def demo_world_def
        demo_kern_def demo_proc_def)
  have v: "view two_sessions 2 = Some ([98], [4])" by (simp add: two_sessions_view)
  have l: "hmux (lworld demo_link) = Some (demo_proc, two_sessions)" "lstate demo_link = Waiting"
    "lateness demo_link = []" "lworld demo_link = demo_world" "os demo_world = demo_kern"
    "c_sys demo_ctx = demo_sys" "c_hash demo_ctx = unat"
    by (simp_all add: demo_link_def demo_world_def demo_ctx_def)
  show ?thesis using output_reaches_caller [OF two_sessions_inv v l(1-3) r, of "''closed''"]
    unfolding l append_Cons append_Nil by blast
qed

section \<open>The process through the handle\<close>

text \<open>C27: no handle can be made. The constructor fails in every state, and where the process was
  started it leaves it running with its new master descriptor open.\<close>

theorem new_handle_fails:
  assumes "fd_laws (c_sys c) fds" "new_process (c_sys c) s = (Returns (Ok p), s1)"
  shows "(\<exists>e. h_new type_err c lv s = (Returns (Err e), s1)) \<and>
    master_fd p \<notin> fds s \<and> fds s1 = insert (master_fd p) (fds s) \<and>
    (\<forall>s w. fst (h_new type_err c lv s) \<noteq> Returns (Ok w))"
proof (intro conjI allI)
  show "\<exists>e. h_new type_err c lv s = (Returns (Err e), s1)"
    by (rule exI) (rule h_new_leaks [OF assms(2)])
  show "fst (h_new type_err c lv s') \<noteq> Returns (Ok w)" for s' w by (rule h_new_not_ok)
qed (use new_process_ok_fds [OF assms] in simp_all)

theorem new_handle_fails_witness:
  "\<exists>e s1. h_new (\<lambda>key. from_reason key) demo_ctx LInfo demo_kern = (Returns (Err e), s1) \<and>
     set (kfds s1) = {8, 5}"
proof -
  have laws: "fd_laws (c_sys demo_ctx) (\<lambda>k. set (kfds k))"
    using demo_fd_laws by (simp add: demo_ctx_def)
  have "new_process (c_sys demo_ctx) demo_kern =
      (Returns (Ok \<lparr>master_fd = 8, pid = 1010, command = ''/bin/bash''\<rparr>),
       demo_kern\<lparr>kfds := [8, 5], kwin := (40, 100), knext := 10, kpids := [1010, 42]\<rparr>)"
    by (simp add: new_process_def open_pty_def demo_ctx_def demo_sys_def demo_kern_def)
  from new_handle_fails [OF laws this, of "\<lambda>key. from_reason key" LInfo] show ?thesis by (auto simp: demo_kern_def)
qed

text \<open>A failed resize. When the size cannot be set the method ends the process by force, and when
  that goes well it returns success, with the process gone from the handle.\<close>

theorem failed_resize_kills:
  assumes "lstate l = Waiting" "hpty (lworld l) = Some p" "lateness l = []"
    and "resize (c_sys c) p cols rows (os (lworld l)) = (Err e, s1)"
    and "end_process c SIGKILL 0 p s1 = (Ok (), s2)"
  shows "fst (h_resize (handler_call send_err c) cols rows l) = Returns (Ok ()) \<and>
    hpty (lworld (snd (h_resize (handler_call send_err c) cols rows l))) = None"
proof
  show "fst (h_resize (handler_call send_err c) cols rows l) = Returns (Ok ())"
    by (rule resize_failed_ok [OF assms(1,2,4,5,3)])
  have "fst (handler_call send_err c 5000 (Resize cols rows) l) \<noteq> Answered (Success t)" for t
    using assms(1-4) by (simp add: handler_call_def handle_resize_def with_pty_def state_after_def Let_def)
  then show "hpty (lworld (snd (h_resize (handler_call send_err c) cols rows l))) = None"
    by (rule resize_failed_kills [OF assms(1)])
qed

theorem failed_resize_kills_witness:
  "fst (h_resize (handler_call ''closed'' demo_ctx) 120 40
     (demo_link\<lparr>lworld := demo_world\<lparr>os := demo_kern\<lparr>win_fails := True\<rparr>\<rparr>\<rparr>)) = Returns (Ok ())"
proof -
  let ?l = "demo_link\<lparr>lworld := demo_world\<lparr>os := demo_kern\<lparr>win_fails := True\<rparr>\<rparr>\<rparr>"
  have r: "resize (c_sys demo_ctx) demo_proc 120 40 (os (lworld ?l)) =
      (Err (os_error 25), demo_kern\<lparr>win_fails := True\<rparr>)"
    by (simp add: resize_def demo_ctx_def demo_sys_def demo_kern_def)
  have "end_process demo_ctx SIGKILL 0 demo_proc (demo_kern\<lparr>win_fails := True\<rparr>) =
      (Ok (), demo_kern\<lparr>win_fails := True, kpids := [], kfds := []\<rparr>)"
    by (simp add: end_process_def kill_process_def waitpid_def close_master_fd_def demo_ctx_def
        demo_sys_def demo_kern_def demo_proc_def)
  from failed_resize_kills [OF _ _ _ r this] show ?thesis
    by (simp add: demo_link_def demo_world_def)
qed

text \<open>Waiting for the process through the handle. The process id crosses the channel as a decimal
  text, and the caller gets back exactly what the system call returned, or its error as a text.\<close>

theorem waitpid_roundtrip:
  assumes "lstate l = Waiting" "hpty (lworld l) = Some p" "lateness l = []"
  shows "fst (h_waitpid (handler_call send_err c) opts l) = Returns
    (case fst (waitpid (c_sys c) p opts (os (lworld l))) of
       Ok pd \<Rightarrow> Ok pd
     | Err e \<Rightarrow> Err (unknown (''WaitPid error: '' @ show_err c e)))"
  by (rule waitpid_through_thread) (simp_all add: assms)

theorem waitpid_roundtrip_witness:
  "fst (h_waitpid (handler_call ''closed'' demo_ctx) 0
     (demo_link\<lparr>lworld := demo_world\<lparr>os := demo_kern\<lparr>kpids := []\<rparr>\<rparr>\<rparr>)) = Returns (Ok 42)"
proof -
  let ?l = "demo_link\<lparr>lworld := demo_world\<lparr>os := demo_kern\<lparr>kpids := []\<rparr>\<rparr>\<rparr>"
  have "lstate ?l = Waiting" "hpty (lworld ?l) = Some demo_proc" "lateness ?l = []"
    by (simp_all add: demo_link_def demo_world_def)
  note waitpid_roundtrip [OF this, of "''closed''" demo_ctx 0]
  moreover have "fst (waitpid (c_sys demo_ctx) demo_proc 0 (os (lworld ?l))) = Ok 42"
    by (simp add: waitpid_def demo_ctx_def demo_sys_def demo_kern_def demo_proc_def)
  ultimately show ?thesis by simp
qed

text \<open>Reading text. When the bytes the kernel returns are the UTF-8 bytes of a text, the handle's
  read returns that text.\<close>

theorem read_returns_text:
  assumes "lstate l = Waiting" "hpty (lworld l) = Some p" "lateness l = []"
    and "read_data (c_sys c) p 4096 (os (lworld l)) = (Ok (as_bytes t), s1)" "valid_utf8 (as_bytes t)"
  shows "h_read (handler_call send_err c) l = (Returns (Ok t), l\<lparr>lworld := (lworld l)\<lparr>os := s1\<rparr>\<rparr>)"
proof -
  have "from_utf8_lossy (as_bytes t) = t"
    using from_utf8_lossy_valid [OF assms(5)] by (metis bytes_string_as_bytes)
  then show ?thesis using assms(1-4)
    by (simp add: h_read_def ask_def handler_call_def handle_read_def with_pty_def state_after_def Let_def)
qed

theorem read_returns_text_witness:
  "fst (h_read (handler_call ''closed'' demo_ctx) demo_link) = Returns (Ok ''hi'')"
proof -
  have t: "as_bytes ''hi'' = [104, 105]" by code_simp
  have r: "read_data (c_sys demo_ctx) demo_proc 4096 (os (lworld demo_link)) =
      (Ok (as_bytes ''hi''), demo_kern\<lparr>kin := []\<rparr>)"
    unfolding t by (simp add: read_data_def demo_ctx_def demo_sys_def demo_link_def demo_world_def
        demo_kern_def demo_proc_def)
  have v: "valid_utf8 (as_bytes ''hi'')" unfolding t by (rule valid_utf8_ascii) simp
  have "lstate demo_link = Waiting" "hpty (lworld demo_link) = Some demo_proc" "lateness demo_link = []"
    by (simp_all add: demo_link_def demo_world_def)
  from read_returns_text [OF this r v] show ?thesis by simp
qed

end
